theory Spec2Isabelle
  imports Complex_Main "HOL-Library.Char_ord" "HOL-Library.List_Lexorder"
begin

section \<open>Data model\<close>

text \<open>
  The containers of rs@md. A value of type \<^verbatim>\<open>REAL\<close> is the real number it denotes; the
  rounding of the arithmetic on \<^verbatim>\<open>REAL\<close> is the subject of the next section.
  \<^verbatim>\<open>std::size_t\<close> is \<open>nat\<close> and \<^verbatim>\<open>int\<close> is \<open>int\<close>: every counter below is bounded by
  the number of molecules, atoms or cells held in memory, so no wrap-around is reachable;
  the one conversion from \<^verbatim>\<open>REAL\<close> to \<^verbatim>\<open>int\<close> that can leave the range of \<^verbatim>\<open>int\<close>
  is checked where it occurs. \<^verbatim>\<open>std::string\<close> is \<open>string\<close> with the bytewise
  lexicographic order, which is the order of \<^verbatim>\<open>std::string::operator<\<close>.
\<close>

type_synonym REALVEC = "real \<times> real \<times> real"

fun axis :: "REALVEC \<Rightarrow> nat \<Rightarrow> real" where
  "axis (x, y, z) i = (if i = 0 then x else if i = 1 then y else z)"

record Atom =
  atom_id :: nat
  atom_name :: string
  position :: REALVEC

record Molecule =
  mol_id :: nat
  mol_name :: string
  atoms :: "Atom list"

record Topology =
  data :: "Molecule list"
  dimensions :: REALVEC
  CellNumbers :: "int \<times> int \<times> int"
  reactedMoleculeRecords :: "(nat \<times> nat) list"
  reactedAtomRecords :: "(nat \<times> nat) list"

text \<open>
  A reaction candidate, as far as the code under study reads it: the name of its
  reaction, the bound reactants and the products. The class itself
  (\<^verbatim>\<open>ReactionCandidate\<close>) is not part of the sources at hand; its operations
  \<^verbatim>\<open>valid\<close>, \<^verbatim>\<open>applyTransitions\<close>, \<^verbatim>\<open>applyTranslations\<close> and
  \<^verbatim>\<open>getCurrentReactionRateValue\<close> are parameters of the functions that call them.
\<close>

record ReactionCandidate =
  getName :: string
  reaction_name :: string
  reactants :: "Molecule list"
  products :: "Molecule list"

text \<open>
  A reaction template is stored and copied as a candidate whose reactants are the
  patterns: \<^verbatim>\<open>reactionCandidates.push_back( reactionTemplate )\<close>.
\<close>

type_synonym ReactionTemplate = ReactionCandidate

text \<open>
  What the source leaves undefined is an error of the model: a failed lookup
  (\<^verbatim>\<open>rsmdCRITICAL\<close>), an access outside a container, the first element of an empty
  container, the maximum of an empty topology, the conversion to \<^verbatim>\<open>int\<close> of a quotient
  by zero (an infinity or not a number) and of a value outside the range of \<^verbatim>\<open>int\<close>.
\<close>

datatype error = NotFound | OutOfBounds | EmptyContainer | NotANumber | IntOverflow | Unmodelled

section \<open>Arithmetic on REAL\<close>

text \<open>
  \<^verbatim>\<open>REAL\<close> is the floating-point type of rs@md; its declaration is not among the sources
  at hand. An arithmetic operation of the source on \<^verbatim>\<open>REAL\<close> operands is the exact
  operation followed by the rounding to \<^verbatim>\<open>REAL\<close>, and a conversion from \<^verbatim>\<open>int\<close> or
  \<^verbatim>\<open>std::size_t\<close> rounds as well. The rounding \<open>rnd\<close> is a parameter of every function
  below that computes with \<^verbatim>\<open>REAL\<close>, together with the value of the constant
  \<^verbatim>\<open>M_PI\<close> and the library function \<^verbatim>\<open>std::cbrt\<close>. \<^verbatim>\<open>floor\<close> is exact. An infinity or
  a value that is not a number arises from a zero divisor and is written out where the
  source can produce one; a result beyond the largest finite \<^verbatim>\<open>REAL\<close> is not modelled.
  Where the source mixes \<^verbatim>\<open>REAL\<close> with a literal of type \<^verbatim>\<open>double\<close>, the operation is
  taken in \<^verbatim>\<open>REAL\<close>.
\<close>

record REAL_arithmetic =
  rnd :: "real \<Rightarrow> real"
  M_PI :: real
  cbrt :: "real \<Rightarrow> real"

text \<open>
  The binary formats of IEEE 754 with a significand of \<open>p\<close> bits, rounding to nearest
  with ties to even, over an unbounded range of exponents: \<open>p = 53\<close> is
  \<^verbatim>\<open>double\<close> and \<open>p = 24\<close> is \<^verbatim>\<open>float\<close> on every value that is neither subnormal nor
  beyond the largest finite number. They are the arithmetic of the examples.
\<close>

definition round_half_even :: "real \<Rightarrow> int" where
  "round_half_even x =
     (let n = \<lfloor>x\<rfloor>; f = x - of_int n
      in if f < 1 / 2 then n else if 1 / 2 < f then n + 1 else if even n then n else n + 1)"

definition round_REAL :: "nat \<Rightarrow> real \<Rightarrow> real" where
  "round_REAL p x =
     (if x = 0 then 0
      else (let e = \<lfloor>log 2 \<bar>x\<bar>\<rfloor> - int p + 1
            in of_int (round_half_even (x * 2 powr (- of_int e))) * 2 powr (of_int e)))"

definition binary64 :: REAL_arithmetic where
  "binary64 =
     \<lparr>rnd = round_REAL 53, M_PI = 884279719003555 / 281474976710656,
      cbrt = (\<lambda>x. round_REAL 53 (root 3 x))\<rparr>"

definition binary32 :: REAL_arithmetic where
  "binary32 =
     \<lparr>rnd = round_REAL 24, M_PI = 13176795 / 4194304,
      cbrt = (\<lambda>x. round_REAL 24 (root 3 x))\<rparr>"

section \<open>Rate-based acceptance\<close>

text \<open>
  \<^verbatim>\<open>enhance::random(0.0, 1.0)\<close> reads the global generator. The generator is the
  sequence of its future draws, as the variable \<^verbatim>\<open>random\<close> of type \<^verbatim>\<open>REAL\<close> holds them,
  together with the number of draws already made.
\<close>

type_synonym rng = "(nat \<Rightarrow> real) \<times> nat"

definition enhance_random :: "rng \<Rightarrow> real \<times> rng" where
  "enhance_random g = (fst g (snd g), (fst g, Suc (snd g)))"

text \<open>
  \<^verbatim>\<open>SimulatorRate::acceptance\<close>: returns the verdict and the advanced generator.
  \<^verbatim>\<open>condition\<close> is the product as \<^verbatim>\<open>REAL\<close> holds it, that is, rounded.
\<close>

definition acceptance ::
    "REAL_arithmetic \<Rightarrow> (ReactionCandidate \<Rightarrow> real) \<Rightarrow> real \<Rightarrow> rng \<Rightarrow> ReactionCandidate
      \<Rightarrow> bool \<times> rng" where
  "acceptance R getCurrentReactionRateValue rsFrequency g candidate =
     (let (random, g') = enhance_random g;
          condition = rnd R (rsFrequency * getCurrentReactionRateValue candidate)
      in if random < condition then (True, g') else (False, g'))"

section \<open>Topology: lookups\<close>

text \<open>
  \<^verbatim>\<open>Topology::getReactionRecordMolecule\<close> and \<^verbatim>\<open>Topology::getMolecule\<close>: a
  \<^verbatim>\<open>find_if\<close> for the first match; \<^verbatim>\<open>rsmdCRITICAL\<close> when there is none.
\<close>

definition getReactionRecordMolecule :: "Topology \<Rightarrow> nat \<Rightarrow> error + nat" where
  "getReactionRecordMolecule t oldmolid =
     (case find (\<lambda>rec. fst rec = oldmolid) (reactedMoleculeRecords t) of
        None \<Rightarrow> Inl NotFound
      | Some rec \<Rightarrow> Inr (snd rec))"

definition getMolecule :: "Topology \<Rightarrow> nat \<Rightarrow> error + Molecule" where
  "getMolecule t molid =
     (case find (\<lambda>m. molid = mol_id m) (data t) of
        None \<Rightarrow> Inl NotFound
      | Some m \<Rightarrow> Inr m)"

text \<open>\<^verbatim>\<open>Topology::containsMolecule\<close>, by molecule (id and name) and by id.\<close>

definition containsMolecule :: "Topology \<Rightarrow> Molecule \<Rightarrow> bool" where
  "containsMolecule t mol =
     (case find (\<lambda>m. mol_id mol = mol_id m \<and> mol_name mol = mol_name m) (data t) of
        Some _ \<Rightarrow> True
      | None \<Rightarrow> False)"

definition containsMoleculeID :: "Topology \<Rightarrow> nat \<Rightarrow> bool" where
  "containsMoleculeID t molid =
     (case find (\<lambda>m. molid = mol_id m) (data t) of Some _ \<Rightarrow> True | None \<Rightarrow> False)"

text \<open>\<^verbatim>\<open>Topology::removeMolecule(std::size_t)\<close>: erase-remove of every match.\<close>

definition removeMolecule :: "Topology \<Rightarrow> nat \<Rightarrow> Topology" where
  "removeMolecule t molid = t\<lparr>data := filter (\<lambda>m. \<not> molid = mol_id m) (data t)\<rparr>"

section \<open>Topology: sort\<close>

text \<open>
  \<^verbatim>\<open>std::stable_sort\<close> with the comparator \<^verbatim>\<open>lhs.getName() < rhs.getName()\<close>. The
  insertion sort \<open>sort_key\<close> is stable and sorts by the same key.
\<close>

definition stable_sort_by_name :: "Molecule list \<Rightarrow> Molecule list" where
  "stable_sort_by_name ms = sort_key mol_name ms"

text \<open>
  The search of \<^verbatim>\<open>Topology::sort\<close> in the molecule records and the assignment
  \<^verbatim>\<open>search->second = counterMolecules\<close>: the first record whose key is the molecule's
  id gets the new value; \<open>None\<close> when no key matches.
\<close>

fun update_record :: "nat \<Rightarrow> nat \<Rightarrow> (nat \<times> nat) list \<Rightarrow> (nat \<times> nat) list option" where
  "update_record molid v [] = None"
| "update_record molid v (r # rs) =
     (if molid = fst r then Some ((fst r, v) # rs)
      else (case update_record molid v rs of
              None \<Rightarrow> None
            | Some rs' \<Rightarrow> Some (r # rs')))"

text \<open>The inner loop over the atoms of one molecule.\<close>

fun renumber_atoms ::
    "bool \<Rightarrow> Atom list \<Rightarrow> nat \<Rightarrow> (nat \<times> nat) list \<Rightarrow> Atom list \<times> nat \<times> (nat \<times> nat) list" where
  "renumber_atoms isReactedMolecule [] counterAtoms arecs = ([], counterAtoms, arecs)"
| "renumber_atoms isReactedMolecule (a # as) counterAtoms arecs =
     (let counterAtoms' = Suc counterAtoms;
          arecs' = (if isReactedMolecule then arecs @ [(atom_id a, counterAtoms')] else arecs);
          a' = a\<lparr>atom_id := counterAtoms'\<rparr>;
          (as', n, arecs'') = renumber_atoms isReactedMolecule as counterAtoms' arecs'
      in (a' # as', n, arecs''))"

text \<open>The outer loop over the (sorted) molecules.\<close>

fun renumber ::
    "Molecule list \<Rightarrow> nat \<Rightarrow> nat \<Rightarrow> (nat \<times> nat) list \<Rightarrow> (nat \<times> nat) list
      \<Rightarrow> Molecule list \<times> (nat \<times> nat) list \<times> (nat \<times> nat) list" where
  "renumber [] counterMolecules counterAtoms mrecs arecs = ([], mrecs, arecs)"
| "renumber (m # ms) counterMolecules counterAtoms mrecs arecs =
     (let counterMolecules' = Suc counterMolecules;
          (isReactedMolecule, mrecs') =
             (case update_record (mol_id m) counterMolecules' mrecs of
                None \<Rightarrow> (False, mrecs)
              | Some r \<Rightarrow> (True, r));
          (as', counterAtoms', arecs') =
             renumber_atoms isReactedMolecule (atoms m) counterAtoms arecs;
          m' = m\<lparr>mol_id := counterMolecules', atoms := as'\<rparr>;
          (ms', mrecs'', arecs'') = renumber ms counterMolecules' counterAtoms' mrecs' arecs'
      in (m' # ms', mrecs'', arecs''))"

text \<open>\<^verbatim>\<open>Topology::sort\<close>.\<close>

definition Topology_sort :: "Topology \<Rightarrow> Topology" where
  "Topology_sort t =
     (let (ms, mrecs, arecs) =
            renumber (stable_sort_by_name (data t)) 0 0 (reactedMoleculeRecords t) []
      in t\<lparr>data := ms, reactedMoleculeRecords := mrecs, reactedAtomRecords := arecs\<rparr>)"

section \<open>Universe: making a molecule whole\<close>

text \<open>
  \<^verbatim>\<open>static_cast<int>\<close> of a floating-point value truncates towards zero and is undefined
  when the truncated value is outside the range of \<^verbatim>\<open>int\<close> (32 bits).
\<close>

definition static_cast_int :: "real \<Rightarrow> error + int" where
  "static_cast_int x =
     (let n = (if 0 \<le> x then \<lfloor>x\<rfloor> else \<lceil>x\<rceil>)
      in if - (2 ^ 31) \<le> n \<and> n < 2 ^ 31 then Inr n else Inl IntOverflow)"

text \<open>
  \<^verbatim>\<open>static_cast<int>( distance[i] / (0.5 * dimensions[i]) )\<close>: the number of box lengths
  by which the coordinate is shifted. With a half box length of zero the quotient is an
  infinity or not a number, and the cast is undefined.
\<close>

definition image_count :: "REAL_arithmetic \<Rightarrow> real \<Rightarrow> real \<Rightarrow> error + int" where
  "image_count R distance L =
     (let half = rnd R (0.5 * L)
      in if half = 0 then Inl NotANumber else static_cast_int (rnd R (distance / half)))"

text \<open>
  \<^verbatim>\<open>atom.position[i] -= static_cast<int>( ... ) * dimensions[i]\<close>: the count is converted
  to \<^verbatim>\<open>REAL\<close>, multiplied with the box length and subtracted.
\<close>

definition shift_axis :: "REAL_arithmetic \<Rightarrow> real \<Rightarrow> real \<Rightarrow> real \<Rightarrow> error + real" where
  "shift_axis R p distance L =
     (case image_count R distance L of
        Inl e \<Rightarrow> Inl e
      | Inr n \<Rightarrow> Inr (rnd R (p - rnd R (rnd R (of_int n) * L))))"

text \<open>
  The body of the loop over the atoms: \<open>distance\<close> is the difference of the two
  positions as \<^verbatim>\<open>REAL\<close> holds it, taken once, before the three coordinates are updated
  one after the other.
\<close>

definition repair_atom :: "REAL_arithmetic \<Rightarrow> REALVEC \<Rightarrow> REALVEC \<Rightarrow> Atom \<Rightarrow> error + Atom" where
  "repair_atom R reference dims atom =
     (case (position atom, reference, dims) of
        ((px, py, pz), (rx, ry, rz), (lx, ly, lz)) \<Rightarrow>
          (case shift_axis R px (rnd R (px - rx)) lx of
             Inl e \<Rightarrow> Inl e
           | Inr x \<Rightarrow>
               (case shift_axis R py (rnd R (py - ry)) ly of
                  Inl e \<Rightarrow> Inl e
                | Inr y \<Rightarrow>
                    (case shift_axis R pz (rnd R (pz - rz)) lz of
                       Inl e \<Rightarrow> Inl e
                     | Inr z \<Rightarrow> Inr (atom\<lparr>position := (x, y, z)\<rparr>)))))"

text \<open>The loop over the atoms after the first, against a fixed reference position.\<close>

fun repair_atoms :: "REAL_arithmetic \<Rightarrow> REALVEC \<Rightarrow> REALVEC \<Rightarrow> Atom list \<Rightarrow> error + Atom list" where
  "repair_atoms R reference dims [] = Inr []"
| "repair_atoms R reference dims (atom # rest) =
     (case repair_atom R reference dims atom of
        Inl e \<Rightarrow> Inl e
      | Inr atom' \<Rightarrow>
          (case repair_atoms R reference dims rest of
             Inl e \<Rightarrow> Inl e
           | Inr rest' \<Rightarrow> Inr (atom' # rest')))"

text \<open>
  \<^verbatim>\<open>Universe::makeMoleculeWhole\<close>. \<^verbatim>\<open>referenceAtom\<close> is a reference to the first atom
  of the very molecule the loop updates: the first pass updates the first atom against
  itself, the later passes read its updated position. On a molecule without atoms the
  reference is never read and the loop body never runs.
\<close>

definition makeMoleculeWhole :: "REAL_arithmetic \<Rightarrow> Molecule \<Rightarrow> REALVEC \<Rightarrow> error + Molecule" where
  "makeMoleculeWhole R molecule dims =
     (case atoms molecule of
        [] \<Rightarrow> Inr molecule
      | a # as \<Rightarrow>
          (case repair_atom R (position a) dims a of
             Inl e \<Rightarrow> Inl e
           | Inr a' \<Rightarrow>
               (case repair_atoms R (position a') dims as of
                  Inl e \<Rightarrow> Inl e
                | Inr as' \<Rightarrow> Inr (molecule\<lparr>atoms := a' # as'\<rparr>))))"

section \<open>Universe: movement check\<close>

datatype movement = MovedThrice | MovedTwice | MovedLess

text \<open>
  \<^verbatim>\<open>typicalDistance\<close> is finite unless the topology has no atom: then the divisor is
  zero and the quotient, and with it its cube root, is an infinity with the sign of the
  dividend, or not a number when the dividend is zero as well.
\<close>

datatype REAL_value = Finite real | PlusInfinity | MinusInfinity | NaN

text \<open>
  Modelled from the spec: \<^verbatim>\<open>Topology::getNAtoms\<close> is declared in a header that is not
  among the sources; the spec calls it the total atom count.
\<close>

definition getNAtoms :: "Topology \<Rightarrow> nat" where
  "getNAtoms t = sum_list (map (\<lambda>m. length (atoms m)) (data t))"

definition typicalDistance :: "REAL_arithmetic \<Rightarrow> Topology \<Rightarrow> REAL_value" where
  "typicalDistance R t =
     (case dimensions t of (lx, ly, lz) \<Rightarrow>
        (let volume = rnd R (rnd R (lx * ly) * lz);
             dividend = rnd R (3 * volume);
             divisor = rnd R (rnd R (4 * M_PI R) * rnd R (real (getNAtoms t)))
         in if divisor = 0
            then (if 0 < dividend then PlusInfinity
                  else if dividend < 0 then MinusInfinity else NaN)
            else Finite (cbrt R (rnd R (dividend / divisor)))))"

text \<open>
  The comparison \<^verbatim>\<open>distance > k * typicalDistance\<close> for \<open>k\<close> = 3 and 2: nothing finite
  exceeds plus infinity, everything finite exceeds minus infinity, and a comparison with
  a value that is not a number is false.
\<close>

definition exceeds :: "REAL_arithmetic \<Rightarrow> real \<Rightarrow> real \<Rightarrow> REAL_value \<Rightarrow> bool" where
  "exceeds R distance k typ =
     (case typ of
        Finite d \<Rightarrow> distance > rnd R (k * d)
      | PlusInfinity \<Rightarrow> False
      | MinusInfinity \<Rightarrow> True
      | NaN \<Rightarrow> False)"

text \<open>The three branches of the loop body of \<^verbatim>\<open>Universe::checkMovement\<close>.\<close>

definition report_movement :: "REAL_arithmetic \<Rightarrow> REAL_value \<Rightarrow> real \<Rightarrow> movement" where
  "report_movement R typ distance =
     (if exceeds R distance 3 typ then MovedThrice
      else if exceeds R distance 2 typ then MovedTwice
      else MovedLess)"

text \<open>
  The loop that walks \<^verbatim>\<open>atomBefore\<close> and \<^verbatim>\<open>atomAfter\<close> in step. The iterators are
  indices into the two atom sequences; the guard is the source's
  \<^verbatim>\<open>atomBefore != molecule.end() || atomAfter != newMolecule.end()\<close>, and dereferencing
  an iterator that has reached the end is the error \<open>OutOfBounds\<close>.
\<close>

function movement_loop ::
    "(Atom \<Rightarrow> Atom \<Rightarrow> 'w) \<Rightarrow> Atom list \<Rightarrow> Atom list \<Rightarrow> nat \<Rightarrow> nat \<Rightarrow> 'w list \<Rightarrow> error + 'w list" where
  "movement_loop body before after atomBefore atomAfter out =
     (if atomBefore \<noteq> length before \<or> atomAfter \<noteq> length after then
        (if atomBefore < length before \<and> atomAfter < length after then
           movement_loop body before after (Suc atomBefore) (Suc atomAfter)
             (out @ [body (before ! atomBefore) (after ! atomAfter)])
         else Inl OutOfBounds)
      else Inr out)"
  by pat_completeness auto
termination
  by (relation "measure (\<lambda>(body, before, after, atomBefore, atomAfter, out). length before - atomBefore)")
    auto

declare movement_loop.simps [simp del]

text \<open>
  The first two statements of the loop over the products: the id under which the
  product is recorded in the new topology, and the molecule with that id in the relaxed
  topology.
\<close>

definition relaxed_counterpart :: "Topology \<Rightarrow> Topology \<Rightarrow> Molecule \<Rightarrow> error + Molecule" where
  "relaxed_counterpart topologyNew topologyRelaxed molecule =
     (case getReactionRecordMolecule topologyNew (mol_id molecule) of
        Inl e \<Rightarrow> Inl e
      | Inr newMolID \<Rightarrow> getMolecule topologyRelaxed newMolID)"

text \<open>
  What the loop body computes for a pair of atoms: the branch taken. \<^verbatim>\<open>enhance::distance\<close>
  is not among the sources and is a parameter.
\<close>

definition atom_movement ::
    "REAL_arithmetic \<Rightarrow> (Atom \<Rightarrow> Atom \<Rightarrow> REALVEC \<Rightarrow> real) \<Rightarrow> Topology \<Rightarrow> Atom \<Rightarrow> Atom \<Rightarrow> movement" where
  "atom_movement R distance topologyNew atomBefore atomAfter =
     report_movement R (typicalDistance R topologyNew)
       (distance atomBefore atomAfter (dimensions topologyNew))"

text \<open>One product of the candidate: the two lookups and the loop.\<close>

definition checkMovement_molecule ::
    "REAL_arithmetic \<Rightarrow> (Atom \<Rightarrow> Atom \<Rightarrow> REALVEC \<Rightarrow> real) \<Rightarrow> Topology \<Rightarrow> Topology \<Rightarrow> Molecule
      \<Rightarrow> error + movement list" where
  "checkMovement_molecule R distance topologyNew topologyRelaxed molecule =
     (case relaxed_counterpart topologyNew topologyRelaxed molecule of
        Inl e \<Rightarrow> Inl e
      | Inr newMolecule \<Rightarrow>
          movement_loop (atom_movement R distance topologyNew)
            (atoms molecule) (atoms newMolecule) 0 0 [])"

fun checkMovement_products ::
    "REAL_arithmetic \<Rightarrow> (Atom \<Rightarrow> Atom \<Rightarrow> REALVEC \<Rightarrow> real) \<Rightarrow> Topology \<Rightarrow> Topology
      \<Rightarrow> Molecule list \<Rightarrow> error + movement list list" where
  "checkMovement_products R distance topologyNew topologyRelaxed [] = Inr []"
| "checkMovement_products R distance topologyNew topologyRelaxed (molecule # rest) =
     (case checkMovement_molecule R distance topologyNew topologyRelaxed molecule of
        Inl e \<Rightarrow> Inl e
      | Inr ws \<Rightarrow>
          (case checkMovement_products R distance topologyNew topologyRelaxed rest of
             Inl e \<Rightarrow> Inl e
           | Inr wss \<Rightarrow> Inr (ws # wss)))"

text \<open>\<^verbatim>\<open>Universe::checkMovement\<close>: the warnings it prints, product by product.\<close>

definition checkMovement ::
    "REAL_arithmetic \<Rightarrow> (Atom \<Rightarrow> Atom \<Rightarrow> REALVEC \<Rightarrow> real) \<Rightarrow> Topology \<Rightarrow> Topology
      \<Rightarrow> ReactionCandidate \<Rightarrow> error + movement list list" where
  "checkMovement R distance topologyNew topologyRelaxed candidate =
     checkMovement_products R distance topologyNew topologyRelaxed (products candidate)"

definition ex_candidate_r :: ReactionCandidate where
  "ex_candidate_r = \<lparr>getName = ''r'', reaction_name = ''r'', reactants = [], products = []\<rparr>"


section \<open>Auxiliary notions for the statements about sort\<close>

text \<open>
  The ids that the renumbering loop assigns, without the record bookkeeping: the
  molecules get the ids after \<open>cm\<close>, the atoms the ids after \<open>ca\<close>.
\<close>

fun relabel_atoms :: "Atom list \<Rightarrow> nat \<Rightarrow> Atom list" where
  "relabel_atoms [] ca = []"
| "relabel_atoms (a # as) ca = a\<lparr>atom_id := Suc ca\<rparr> # relabel_atoms as (Suc ca)"

fun relabel :: "Molecule list \<Rightarrow> nat \<Rightarrow> nat \<Rightarrow> Molecule list" where
  "relabel [] cm ca = []"
| "relabel (m # ms) cm ca =
     m\<lparr>mol_id := Suc cm, atoms := relabel_atoms (atoms m) ca\<rparr>
       # relabel ms (Suc cm) (ca + length (atoms m))"

text \<open>A molecule up to its ids: what identifies it across a renumbering.\<close>

definition forget_ids :: "Molecule \<Rightarrow> Molecule" where
  "forget_ids m = m\<lparr>mol_id := 0, atoms := map (\<lambda>a. a\<lparr>atom_id := 0\<rparr>) (atoms m)\<rparr>"

text \<open>
  A topology with a molecule B (id 1) followed by a reacted molecule A (id 2, recorded
  under its own id, as \<^verbatim>\<open>addReactionRecord\<close> leaves it).
\<close>

definition ex_sort_topology :: Topology where
  "ex_sort_topology =
     \<lparr>data = [\<lparr>mol_id = 1, mol_name = ''B'',
                atoms = [\<lparr>atom_id = 1, atom_name = ''b'', position = (0, 0, 0)\<rparr>]\<rparr>,
              \<lparr>mol_id = 2, mol_name = ''A'',
                atoms = [\<lparr>atom_id = 2, atom_name = ''a1'', position = (1, 1, 1)\<rparr>,
                         \<lparr>atom_id = 3, atom_name = ''a2'', position = (2, 1, 1)\<rparr>]\<rparr>],
      dimensions = (10, 10, 10), CellNumbers = (3, 3, 3),
      reactedMoleculeRecords = [(2, 2)], reactedAtomRecords = []\<rparr>"

section \<open>Example data for the movement check\<close>

text \<open>
  A topology after a reaction and its sort: the product inserted under id 3 is recorded
  as molecule 1. Two relaxed topologies: one where molecule 1 has the product's two
  atoms, one where it has three. The candidate has the product as its only product.
\<close>

definition ex_product :: Molecule where
  "ex_product =
     \<lparr>mol_id = 3, mol_name = ''P'',
       atoms = [\<lparr>atom_id = 1, atom_name = ''p1'', position = (0, 0, 0)\<rparr>,
                \<lparr>atom_id = 2, atom_name = ''p2'', position = (1, 0, 0)\<rparr>]\<rparr>"

definition ex_topologyNew :: Topology where
  "ex_topologyNew =
     \<lparr>data = [ex_product\<lparr>mol_id := 1\<rparr>],
      dimensions = (10, 10, 10), CellNumbers = (3, 3, 3),
      reactedMoleculeRecords = [(3, 1)], reactedAtomRecords = [(1, 1), (2, 2)]\<rparr>"

definition ex_relaxed_same :: Topology where
  "ex_relaxed_same =
     \<lparr>data = [\<lparr>mol_id = 1, mol_name = ''P'',
                atoms = [\<lparr>atom_id = 1, atom_name = ''p1'', position = (0, 1, 0)\<rparr>,
                         \<lparr>atom_id = 2, atom_name = ''p2'', position = (1, 1, 0)\<rparr>]\<rparr>],
      dimensions = (10, 10, 10), CellNumbers = (3, 3, 3),
      reactedMoleculeRecords = [], reactedAtomRecords = []\<rparr>"

definition ex_relaxed_longer :: Topology where
  "ex_relaxed_longer =
     \<lparr>data = [\<lparr>mol_id = 1, mol_name = ''P'',
                atoms = [\<lparr>atom_id = 1, atom_name = ''p1'', position = (0, 1, 0)\<rparr>,
                         \<lparr>atom_id = 2, atom_name = ''p2'', position = (1, 1, 0)\<rparr>,
                         \<lparr>atom_id = 3, atom_name = ''p3'', position = (2, 1, 0)\<rparr>]\<rparr>],
      dimensions = (10, 10, 10), CellNumbers = (3, 3, 3),
      reactedMoleculeRecords = [], reactedAtomRecords = []\<rparr>"

definition ex_candidate_P :: ReactionCandidate where
  "ex_candidate_P =
     \<lparr>getName = ''r'', reaction_name = ''r'', reactants = [], products = [ex_product]\<rparr>"

section \<open>Example data for making a molecule whole\<close>









section \<open>Topology: the cell list\<close>

text \<open>The wrap-around helpers of \<^verbatim>\<open>Topology\<close>, as written.\<close>

definition heaviside :: "int \<Rightarrow> int" where
  "heaviside i = (if i > 0 then 1 else 0)"

definition right :: "Topology \<Rightarrow> int \<Rightarrow> int" where
  "right t n = (n + 1) * heaviside (fst (CellNumbers t) - 1 - n)"

definition left :: "Topology \<Rightarrow> int \<Rightarrow> int" where
  "left t n = (n - 1) * heaviside n + (fst (CellNumbers t) - 1) * heaviside (1 - n)"

definition up :: "Topology \<Rightarrow> int \<Rightarrow> int" where
  "up t n = (n + 1) * heaviside (snd (snd (CellNumbers t)) - 1 - n)"

definition down :: "Topology \<Rightarrow> int \<Rightarrow> int" where
  "down t n = (n - 1) * heaviside n + (snd (snd (CellNumbers t)) - 1) * heaviside (1 - n)"

text \<open>
  The first loop of \<^verbatim>\<open>Topology::getCellList\<close>: one empty entry per cell, in both
  vectors.
\<close>

definition cell_count :: "Topology \<Rightarrow> nat" where
  "cell_count t = (case CellNumbers t of (Nx, Ny, Nz) \<Rightarrow> nat (Nx * Ny * Nz))"

text \<open>
  The second loop: every molecule goes into the cell of its first atom. The fractional
  coordinate is \<^verbatim>\<open>p/L - floor(p/L)\<close> and the cell coordinate its product with the cell
  number, rounded down; the quotient, the difference and the product are rounded to
  \<^verbatim>\<open>REAL\<close>, so that the fractional coordinate can be 1 and the cell coordinate the cell
  number itself. Nothing in the source keeps the coordinates or the index inside the
  grid: the index is used as the source uses it, to access the vector.
\<close>

definition cell_coordinate :: "REAL_arithmetic \<Rightarrow> real \<Rightarrow> real \<Rightarrow> int \<Rightarrow> int" where
  "cell_coordinate R p L N =
     (let quotient = rnd R (p / L);
          fraction = rnd R (quotient - of_int \<lfloor>quotient\<rfloor>)
      in \<lfloor>rnd R (fraction * rnd R (of_int N))\<rfloor>)"

definition cell_index :: "REAL_arithmetic \<Rightarrow> Topology \<Rightarrow> Atom \<Rightarrow> int" where
  "cell_index R t a =
     (case (position a, dimensions t, CellNumbers t) of
        ((px, py, pz), (lx, ly, lz), (Nx, Ny, Nz)) \<Rightarrow>
          (let n_x = cell_coordinate R px lx Nx;
               n_y = cell_coordinate R py ly Ny;
               n_z = cell_coordinate R pz lz Nz
           in n_x + n_y * Nx + n_z * Nx * Ny))"

text \<open>
  A molecule without atoms has no first atom; with a box length of zero the quotient is
  an infinity or not a number, whose conversion to \<^verbatim>\<open>int\<close> is undefined.
\<close>

fun bin_molecules ::
    "REAL_arithmetic \<Rightarrow> Topology \<Rightarrow> Molecule list \<Rightarrow> Molecule list list \<Rightarrow> error + Molecule list list" where
  "bin_molecules R t [] CellList = Inr CellList"
| "bin_molecules R t (molecule # rest) CellList =
     (case atoms molecule of
        [] \<Rightarrow> Inl EmptyContainer
      | a # _ \<Rightarrow>
          (if axis (dimensions t) 0 = 0 \<or> axis (dimensions t) 1 = 0 \<or> axis (dimensions t) 2 = 0
           then Inl NotANumber
           else (let Index = cell_index R t a in
                 if 0 \<le> Index \<and> nat Index < length CellList
                 then bin_molecules R t rest
                        (CellList[nat Index := CellList ! nat Index @ [molecule]])
                 else Inl OutOfBounds)))"

text \<open>
  The third loop nest: for the cell (i, j, k) the 27 pushes onto its entry of
  \<^verbatim>\<open>CellNeighbourIndices\<close>. The y neighbours are taken with \<^verbatim>\<open>right\<close> and
  \<^verbatim>\<open>left\<close>, as in the source.
\<close>

definition push_neighbour :: "int \<Rightarrow> int \<Rightarrow> int list list \<Rightarrow> int list list" where
  "push_neighbour Index NeighbourIndex cni =
     cni[nat Index := cni ! nat Index @ [NeighbourIndex]]"

definition cell_neighbours :: "Topology \<Rightarrow> int \<Rightarrow> int \<Rightarrow> int \<Rightarrow> int list list \<Rightarrow> int list list" where
  "cell_neighbours t i j k =
     (case CellNumbers t of (Nx, Ny, Nz) \<Rightarrow>
        fold (\<lambda>n_x.
          fold (\<lambda>n_y.
            fold (\<lambda>n_z.
              push_neighbour (i + j * Nx + k * Nx * Ny) (n_x + n_y * Nx + n_z * Nx * Ny))
              [k, up t k, down t k])
            [j, right t j, left t j])
          [i, right t i, left t i])"

definition neighbour_loops :: "Topology \<Rightarrow> int list list \<Rightarrow> int list list" where
  "neighbour_loops t =
     (case CellNumbers t of (Nx, Ny, Nz) \<Rightarrow>
        fold (\<lambda>k.
          fold (\<lambda>j.
            fold (\<lambda>i. cell_neighbours t i j k) [0 .. Nx - 1])
            [0 .. Ny - 1])
          [0 .. Nz - 1])"

text \<open>\<^verbatim>\<open>Topology::getCellList\<close>.\<close>

definition getCellList ::
    "REAL_arithmetic \<Rightarrow> Topology \<Rightarrow> error + Molecule list list \<times> int list list" where
  "getCellList R t =
     (case bin_molecules R t (data t) (replicate (cell_count t) []) of
        Inl e \<Rightarrow> Inl e
      | Inr CellList \<Rightarrow> Inr (CellList, neighbour_loops t (replicate (cell_count t) [])))"

section \<open>Universe: candidate enumeration\<close>

record Universe =
  topologyOld :: Topology
  topologyNew :: Topology
  topologyRelaxed :: Topology
  reactionTemplates :: "ReactionTemplate list"
  CellList :: "Molecule list list"
  CellNeighbourIndices :: "int list list"

text \<open>
  \<^verbatim>\<open>Universe::Cell\<close>: the molecules of one cell with the given name. The index is
  checked here; the source indexes the vector unchecked.
\<close>

definition Cell :: "Universe \<Rightarrow> nat \<Rightarrow> string \<Rightarrow> error + Molecule list" where
  "Cell U CellIndex molname =
     (if CellIndex < length (CellList U)
      then Inr (filter (\<lambda>molecule. mol_name molecule = molname) (CellList U ! CellIndex))
      else Inl OutOfBounds)"

text \<open>
  \<^verbatim>\<open>Universe::CellNeighbours\<close>: the molecules with the given name of all the cells in
  the neighbour list of one cell, each with the index of the cell it comes from (the
  source returns two parallel vectors).
\<close>

fun neighbour_molecules :: "Molecule list list \<Rightarrow> string \<Rightarrow> int list \<Rightarrow> error + (Molecule \<times> int) list" where
  "neighbour_molecules cells molname [] = Inr []"
| "neighbour_molecules cells molname (Index # rest) =
     (if 0 \<le> Index \<and> nat Index < length cells
      then (case neighbour_molecules cells molname rest of
              Inl e \<Rightarrow> Inl e
            | Inr found \<Rightarrow>
                Inr (map (\<lambda>molecule. (molecule, Index))
                       (filter (\<lambda>molecule. mol_name molecule = molname) (cells ! nat Index))
                     @ found))
      else Inl OutOfBounds)"

definition CellNeighbours :: "Universe \<Rightarrow> nat \<Rightarrow> string \<Rightarrow> error + (Molecule \<times> int) list" where
  "CellNeighbours U CellIndex molname =
     (if CellIndex < length (CellNeighbourIndices U)
      then neighbour_molecules (CellList U) molname (CellNeighbourIndices U ! CellIndex)
      else Inl OutOfBounds)"

text \<open>\<^verbatim>\<open>updateReactant(i, molecule)\<close> binds the i-th reactant.\<close>

definition updateReactant :: "nat \<Rightarrow> Molecule \<Rightarrow> ReactionCandidate \<Rightarrow> ReactionCandidate" where
  "updateReactant i molecule candidate = candidate\<lparr>reactants := (reactants candidate)[i := molecule]\<rparr>"

text \<open>
  The two-reactant branch of \<^verbatim>\<open>Universe::CellReactionCandidates\<close>. The inner loop over
  \<^verbatim>\<open>reactants2\<close>: the two \<^verbatim>\<open>continue\<close> tests, then the candidate is pushed and popped
  again unless it is valid at stage 1.
\<close>

definition second_reactants ::
    "(REALVEC \<Rightarrow> nat \<Rightarrow> ReactionCandidate \<Rightarrow> bool) \<Rightarrow> REALVEC \<Rightarrow> ReactionTemplate \<Rightarrow> Molecule
      \<Rightarrow> (Molecule \<times> int) list \<Rightarrow> ReactionCandidate list" where
  "second_reactants valid dims reactionTemplate reactant1 reactants2 =
     concat (map (\<lambda>(reactant2, cellindex2).
       if mol_id reactant1 = mol_id reactant2 then []
       else if mol_name reactant1 = mol_name reactant2 \<and> mol_id reactant1 > mol_id reactant2 then []
       else (let candidate = updateReactant 1 reactant2 (updateReactant 0 reactant1 reactionTemplate)
             in if valid dims 1 candidate then [candidate] else []))
       reactants2)"

text \<open>
  The outer loop over \<^verbatim>\<open>reactants1\<close>: a candidate with the first reactant alone is
  pushed, tested at stage 0 and popped; \<^verbatim>\<open>CellNeighbours\<close> is called only when it is
  valid.
\<close>

fun first_reactants ::
    "(REALVEC \<Rightarrow> nat \<Rightarrow> ReactionCandidate \<Rightarrow> bool) \<Rightarrow> Universe \<Rightarrow> nat \<Rightarrow> ReactionTemplate
      \<Rightarrow> Molecule list \<Rightarrow> error + ReactionCandidate list" where
  "first_reactants valid U CellIndex reactionTemplate [] = Inr []"
| "first_reactants valid U CellIndex reactionTemplate (reactant1 # rest) =
     (if valid (dimensions (topologyOld U)) 0 (updateReactant 0 reactant1 reactionTemplate)
      then (case CellNeighbours U CellIndex (mol_name (reactants reactionTemplate ! 1)) of
              Inl e \<Rightarrow> Inl e
            | Inr reactants2 \<Rightarrow>
                (case first_reactants valid U CellIndex reactionTemplate rest of
                   Inl e \<Rightarrow> Inl e
                 | Inr others \<Rightarrow>
                     Inr (second_reactants valid (dimensions (topologyOld U)) reactionTemplate
                            reactant1 reactants2 @ others)))
      else first_reactants valid U CellIndex reactionTemplate rest)"

text \<open>
  The loop over the templates. A template with two reactants takes the branch above;
  the branches for three and four reactants are not part of this development (a
  template of that size is the error \<open>Unmodelled\<close>); a template of any other size
  contributes nothing.
\<close>

fun template_loop ::
    "(REALVEC \<Rightarrow> nat \<Rightarrow> ReactionCandidate \<Rightarrow> bool) \<Rightarrow> Universe \<Rightarrow> nat \<Rightarrow> ReactionTemplate list
      \<Rightarrow> error + ReactionCandidate list" where
  "template_loop valid U CellIndex [] = Inr []"
| "template_loop valid U CellIndex (reactionTemplate # rest) =
     (if length (reactants reactionTemplate) = 2 then
        (case Cell U CellIndex (mol_name (reactants reactionTemplate ! 0)) of
           Inl e \<Rightarrow> Inl e
         | Inr reactants1 \<Rightarrow>
             (case first_reactants valid U CellIndex reactionTemplate reactants1 of
                Inl e \<Rightarrow> Inl e
              | Inr found \<Rightarrow>
                  (case template_loop valid U CellIndex rest of
                     Inl e \<Rightarrow> Inl e
                   | Inr others \<Rightarrow> Inr (found @ others))))
      else if length (reactants reactionTemplate) = 3 \<or> length (reactants reactionTemplate) = 4
      then Inl Unmodelled
      else template_loop valid U CellIndex rest)"

definition CellReactionCandidates ::
    "(REALVEC \<Rightarrow> nat \<Rightarrow> ReactionCandidate \<Rightarrow> bool) \<Rightarrow> Universe \<Rightarrow> nat \<Rightarrow> error + ReactionCandidate list" where
  "CellReactionCandidates valid U CellIndex = template_loop valid U CellIndex (reactionTemplates U)"

text \<open>The loop of \<^verbatim>\<open>Universe::CellSearchReactionCandidates\<close> over all cells.\<close>

fun cell_loop ::
    "(REALVEC \<Rightarrow> nat \<Rightarrow> ReactionCandidate \<Rightarrow> bool) \<Rightarrow> Universe \<Rightarrow> nat list \<Rightarrow> error + ReactionCandidate list" where
  "cell_loop valid U [] = Inr []"
| "cell_loop valid U (CellIndex # rest) =
     (case CellReactionCandidates valid U CellIndex of
        Inl e \<Rightarrow> Inl e
      | Inr found \<Rightarrow>
          (case cell_loop valid U rest of
             Inl e \<Rightarrow> Inl e
           | Inr others \<Rightarrow> Inr (found @ others)))"

text \<open>
  \<^verbatim>\<open>Universe::CellSearchReactionCandidates\<close> up to the call of the shuffle: the universe
  with its cell list set, the enumerated candidates and the vector \<^verbatim>\<open>reactionRates\<close>
  as they are handed to \<^verbatim>\<open>enhance::weighted_shuffle\<close>. The loop that would fill
  \<^verbatim>\<open>reactionRates\<close> is commented out in the source, so the vector is as declared: empty.
\<close>

definition shuffle_arguments ::
    "REAL_arithmetic \<Rightarrow> (REALVEC \<Rightarrow> nat \<Rightarrow> ReactionCandidate \<Rightarrow> bool) \<Rightarrow> Universe
      \<Rightarrow> error + Universe \<times> ReactionCandidate list \<times> real list" where
  "shuffle_arguments R valid U =
     (let reactionRates = [] in
      case getCellList R (topologyOld U) of
        Inl e \<Rightarrow> Inl e
      | Inr (x, y) \<Rightarrow>
          (let U' = U\<lparr>CellList := x, CellNeighbourIndices := y\<rparr> in
           case cell_loop valid U' [0 ..< length x] of
             Inl e \<Rightarrow> Inl e
           | Inr reactionCandidates \<Rightarrow> Inr (U', reactionCandidates, reactionRates)))"

text \<open>
  \<^verbatim>\<open>Universe::CellSearchReactionCandidates\<close>. \<^verbatim>\<open>enhance::weighted_shuffle\<close> is not part of
  the sources at hand and is a parameter: it takes the candidates, the weights and the
  generator.
\<close>

definition CellSearchReactionCandidates ::
    "REAL_arithmetic \<Rightarrow> (ReactionCandidate list \<Rightarrow> real list \<Rightarrow> rng \<Rightarrow> ReactionCandidate list \<times> rng)
      \<Rightarrow> (REALVEC \<Rightarrow> nat \<Rightarrow> ReactionCandidate \<Rightarrow> bool) \<Rightarrow> Universe \<Rightarrow> rng
      \<Rightarrow> error + Universe \<times> ReactionCandidate list \<times> rng" where
  "CellSearchReactionCandidates R weighted_shuffle valid U g =
     (case shuffle_arguments R valid U of
        Inl e \<Rightarrow> Inl e
      | Inr (U', reactionCandidates, reactionRates) \<Rightarrow>
          (case weighted_shuffle reactionCandidates reactionRates g of
             (shuffled, g') \<Rightarrow> Inr (U', shuffled, g')))"

section \<open>Example data for the enumeration\<close>

text \<open>
  Four molecules named A with the ids 1 to 4, one atom each, in a box of side 8. On a
  grid of 3 x 3 x 3 cells they are all in the cell (0, 1, 0), and so they are on a grid of
  2 x 3 x 2 cells; a grid of one cell holds them in its only cell. The template reacts two
  molecules named A.
\<close>

definition ex_A :: "nat \<Rightarrow> REALVEC \<Rightarrow> Molecule" where
  "ex_A n p = \<lparr>mol_id = n, mol_name = ''A'',
               atoms = [\<lparr>atom_id = n, atom_name = ''a'', position = p\<rparr>]\<rparr>"

definition ex_four :: "int \<times> int \<times> int \<Rightarrow> Topology" where
  "ex_four cells =
     \<lparr>data = [ex_A 1 (1, 3, 1), ex_A 2 (2, 3, 1), ex_A 3 (1, 4, 1), ex_A 4 (2, 4, 2)],
      dimensions = (8, 8, 8), CellNumbers = cells,
      reactedMoleculeRecords = [], reactedAtomRecords = []\<rparr>"

definition ex_template_AA :: ReactionTemplate where
  "ex_template_AA =
     \<lparr>getName = ''AA'', reaction_name = ''AA'',
      reactants = [\<lparr>mol_id = 0, mol_name = ''A'', atoms = []\<rparr>,
                   \<lparr>mol_id = 0, mol_name = ''A'', atoms = []\<rparr>],
      products = []\<rparr>"

definition ex_universe :: "int \<times> int \<times> int \<Rightarrow> Universe" where
  "ex_universe cells =
     \<lparr>topologyOld = ex_four cells, topologyNew = ex_four cells,
      topologyRelaxed = ex_four cells\<lparr>data := []\<rparr>,
      reactionTemplates = [ex_template_AA], CellList = [], CellNeighbourIndices = []\<rparr>"

section \<open>Auxiliary notions for the statements about the cell list\<close>

text \<open>The linear index of the cell with the coordinates (n_x, n_y, n_z).\<close>

definition linear_index :: "Topology \<Rightarrow> int \<Rightarrow> int \<Rightarrow> int \<Rightarrow> int" where
  "linear_index t n_x n_y n_z =
     (case CellNumbers t of (Nx, Ny, Nz) \<Rightarrow> n_x + n_y * Nx + n_z * Nx * Ny)"

text \<open>
  The neighbour list of the cell (i, j, k) as the spec words it: the 27 cells
  {i, i+1 mod Nx, i-1 mod Nx} x {j, j+1 mod Ny, j-1 mod Ny} x {k, k+1 mod Nz, k-1 mod Nz},
  as linear indices, in the order of the loops.
\<close>

definition spec_neighbours :: "Topology \<Rightarrow> int \<Rightarrow> int \<Rightarrow> int \<Rightarrow> int list" where
  "spec_neighbours t i j k =
     (case CellNumbers t of (Nx, Ny, Nz) \<Rightarrow>
        concat (map (\<lambda>n_x.
          concat (map (\<lambda>n_y.
            map (\<lambda>n_z. linear_index t n_x n_y n_z)
              [k, (k + 1) mod Nz, (k - 1) mod Nz])
            [j, (j + 1) mod Ny, (j - 1) mod Ny]))
          [i, (i + 1) mod Nx, (i - 1) mod Nx]))"

text \<open>The same list with the neighbours the source takes.\<close>

definition code_neighbours :: "Topology \<Rightarrow> int \<Rightarrow> int \<Rightarrow> int \<Rightarrow> int list" where
  "code_neighbours t i j k =
     concat (map (\<lambda>n_x.
       concat (map (\<lambda>n_y.
         map (\<lambda>n_z. linear_index t n_x n_y n_z)
           [k, up t k, down t k])
         [j, right t j, left t j]))
       [i, right t i, left t i])"

text \<open>Appending to one entry of a vector of vectors.\<close>

definition append_at :: "nat \<Rightarrow> 'a list \<Rightarrow> 'a list list \<Rightarrow> 'a list list" where
  "append_at n xs v = v[n := v ! n @ xs]"

definition ex_grid :: "int \<times> int \<times> int \<Rightarrow> Topology" where
  "ex_grid cells =
     \<lparr>data = [], dimensions = (8, 8, 8), CellNumbers = cells,
      reactedMoleculeRecords = [], reactedAtomRecords = []\<rparr>"

text \<open>
  The neighbour list that \<^verbatim>\<open>getCellList\<close> builds for the cell with the linear index
  \<open>n\<close>.
\<close>

definition neighbour_list :: "Topology \<Rightarrow> nat \<Rightarrow> int list" where
  "neighbour_list t n = neighbour_loops t (replicate (cell_count t) []) ! n"

text \<open>
  The four molecules of the enumeration example, moved to a z coordinate just below the
  lower face of the box, -2^-60.
\<close>

definition ex_four_below :: Topology where
  "ex_four_below =
     \<lparr>data = [ex_A 1 (1, 3, - (1 / 2 ^ 60)), ex_A 2 (2, 3, - (1 / 2 ^ 60)),
              ex_A 3 (1, 4, - (1 / 2 ^ 60)), ex_A 4 (2, 4, - (1 / 2 ^ 60))],
      dimensions = (8, 8, 8), CellNumbers = (3, 3, 3),
      reactedMoleculeRecords = [], reactedAtomRecords = []\<rparr>"

definition ex_universe_below :: Universe where
  "ex_universe_below =
     \<lparr>topologyOld = ex_four_below, topologyNew = ex_four_below,
      topologyRelaxed = ex_four_below\<lparr>data := []\<rparr>,
      reactionTemplates = [ex_template_AA], CellList = [], CellNeighbourIndices = []\<rparr>"

section \<open>Universe: availability and reaction\<close>

text \<open>
  \<^verbatim>\<open>Universe::isAvailable\<close>: the loop over the reactants stops at the first one that
  the new topology does not contain (by id and name).
\<close>

fun reactants_available :: "Topology \<Rightarrow> Molecule list \<Rightarrow> bool" where
  "reactants_available t [] = True"
| "reactants_available t (reactant # rest) =
     (if \<not> containsMolecule t reactant then False else reactants_available t rest)"

definition isAvailable :: "Universe \<Rightarrow> ReactionCandidate \<Rightarrow> bool" where
  "isAvailable U candidate = reactants_available (topologyNew U) (reactants candidate)"

text \<open>
  Modelled from the spec: \<^verbatim>\<open>Topology::addMolecule(const Molecule&)\<close> and
  \<^verbatim>\<open>Topology::addReactionRecord\<close> are declared in a header that is not among the
  sources. The spec has the topology as an ordered sequence of molecules to which a
  product is added, and the record of a product as
  \<^verbatim>\<open>reactedMoleculeRecords[id] <- id\<close>.
\<close>

definition addMolecule :: "Topology \<Rightarrow> Molecule \<Rightarrow> Topology" where
  "addMolecule t molecule = t\<lparr>data := data t @ [molecule]\<rparr>"

definition addReactionRecord :: "Topology \<Rightarrow> nat \<Rightarrow> Topology" where
  "addReactionRecord t molid =
     t\<lparr>reactedMoleculeRecords := reactedMoleculeRecords t @ [(molid, molid)]\<rparr>"

text \<open>
  The last loop of \<^verbatim>\<open>Universe::react\<close>: every product gets the next id after
  \<^verbatim>\<open>highestMolID\<close>, is added to the new topology and recorded.
\<close>

fun add_products :: "Molecule list \<Rightarrow> nat \<Rightarrow> Topology \<Rightarrow> Topology \<times> Molecule list" where
  "add_products [] highestMolID t = (t, [])"
| "add_products (product # rest) highestMolID t =
     (let highestMolID' = Suc highestMolID;
          product' = product\<lparr>mol_id := highestMolID'\<rparr>;
          t' = addReactionRecord (addMolecule t product') highestMolID';
          (t'', rest') = add_products rest highestMolID' t'
      in (t'', product' # rest'))"

text \<open>The loop of \<^verbatim>\<open>Universe::react\<close> that makes every product whole.\<close>

fun make_products_whole ::
    "REAL_arithmetic \<Rightarrow> REALVEC \<Rightarrow> Molecule list \<Rightarrow> error + Molecule list" where
  "make_products_whole R dims [] = Inr []"
| "make_products_whole R dims (product # rest) =
     (case makeMoleculeWhole R product dims of
        Inl e \<Rightarrow> Inl e
      | Inr product' \<Rightarrow>
          (case make_products_whole R dims rest of
             Inl e \<Rightarrow> Inl e
           | Inr rest' \<Rightarrow> Inr (product' # rest')))"

text \<open>
  \<^verbatim>\<open>Universe::react\<close>. Modelled from the spec: \<^verbatim>\<open>applyTransitions\<close> (which
  materialises the products from the bound reactants) and \<^verbatim>\<open>applyTranslations\<close> (which
  displaces the atoms of the products) belong to the candidate class, which is not among
  the sources; they are parameters that yield the new products of the candidate.
  \<^verbatim>\<open>std::max_element\<close> on an empty topology is dereferenced past the end: the error
  \<open>EmptyContainer\<close>. The candidate is passed by reference and leaves with its products
  renumbered.
\<close>

definition react ::
    "REAL_arithmetic \<Rightarrow> (ReactionCandidate \<Rightarrow> Molecule list) \<Rightarrow> (ReactionCandidate \<Rightarrow> Molecule list)
      \<Rightarrow> Universe \<Rightarrow> ReactionCandidate \<Rightarrow> error + Universe \<times> ReactionCandidate" where
  "react R applyTransitions applyTranslations U candidate =
     (let c1 = candidate\<lparr>products := applyTransitions candidate\<rparr>
      in case make_products_whole R (dimensions (topologyNew U)) (products c1) of
           Inl e \<Rightarrow> Inl e
         | Inr whole \<Rightarrow>
             (let c2 = c1\<lparr>products := whole\<rparr>;
                  c3 = c2\<lparr>products := applyTranslations c2\<rparr>
              in if data (topologyNew U) = [] then Inl EmptyContainer
                 else (let highestMolID = Max (set (map mol_id (data (topologyNew U))));
                           t1 = fold (\<lambda>reactant t. removeMolecule t (mol_id reactant))
                                  (reactants c3) (topologyNew U);
                           (t2, ps) = add_products (products c3) highestMolID t1
                       in Inr (U\<lparr>topologyNew := t2\<rparr>, c3\<lparr>products := ps\<rparr>))))"

section \<open>SimulatorRate: the loop over the candidates\<close>

text \<open>
  The state of the loop of \<^verbatim>\<open>SimulatorRate::reactiveStep\<close>: the universe, the two
  counter vectors (eight entries each), the accepted candidates and the generator. The
  map \<^verbatim>\<open>candidateTypes\<close> only feeds the log and is left out.
\<close>

record StepState =
  universe :: Universe
  nReactionsAttempted :: "int list"
  nReactionsAccepted :: "int list"
  acceptedCandidates :: "ReactionCandidate list"
  generator :: rng

text \<open>
  The loop over the templates that increments the counter of every template whose name
  is the candidate's reaction name; the vectors are indexed unchecked in the source.
\<close>

fun count_reaction :: "string \<Rightarrow> ReactionTemplate list \<Rightarrow> nat \<Rightarrow> int list \<Rightarrow> error + int list" where
  "count_reaction name [] i counters = Inr counters"
| "count_reaction name (reactionTemplate # rest) i counters =
     (if name = getName reactionTemplate
      then (if i < length counters
            then count_reaction name rest (Suc i) (counters[i := counters ! i + 1])
            else Inl OutOfBounds)
      else count_reaction name rest (Suc i) counters)"

text \<open>The body of the loop, for one candidate.\<close>

definition candidate_step ::
    "REAL_arithmetic \<Rightarrow> (ReactionCandidate \<Rightarrow> Molecule list) \<Rightarrow> (ReactionCandidate \<Rightarrow> Molecule list)
      \<Rightarrow> (ReactionCandidate \<Rightarrow> real) \<Rightarrow> real \<Rightarrow> StepState \<Rightarrow> ReactionCandidate
      \<Rightarrow> error + StepState" where
  "candidate_step R applyTransitions applyTranslations rate rsFrequency s candidate =
     (if isAvailable (universe s) candidate then
        (case count_reaction (reaction_name candidate) (reactionTemplates (universe s)) 0
                (nReactionsAttempted s) of
           Inl e \<Rightarrow> Inl e
         | Inr attempted \<Rightarrow>
             (case acceptance R rate rsFrequency (generator s) candidate of
                (accepted, g') \<Rightarrow>
                  if accepted then
                    (case react R applyTransitions applyTranslations (universe s) candidate of
                       Inl e \<Rightarrow> Inl e
                     | Inr (U', candidate') \<Rightarrow>
                         (case count_reaction (reaction_name candidate')
                                 (reactionTemplates U') 0 (nReactionsAccepted s) of
                            Inl e \<Rightarrow> Inl e
                          | Inr acc \<Rightarrow>
                              Inr (s\<lparr>universe := U', nReactionsAttempted := attempted,
                                     nReactionsAccepted := acc,
                                     acceptedCandidates := acceptedCandidates s @ [candidate'],
                                     generator := g'\<rparr>)))
                  else Inr (s\<lparr>nReactionsAttempted := attempted, generator := g'\<rparr>)))
      else Inr s)"

text \<open>The loop over the (shuffled) candidates.\<close>

fun candidate_loop ::
    "REAL_arithmetic \<Rightarrow> (ReactionCandidate \<Rightarrow> Molecule list) \<Rightarrow> (ReactionCandidate \<Rightarrow> Molecule list)
      \<Rightarrow> (ReactionCandidate \<Rightarrow> real) \<Rightarrow> real \<Rightarrow> StepState \<Rightarrow> ReactionCandidate list
      \<Rightarrow> error + StepState" where
  "candidate_loop R applyTransitions applyTranslations rate rsFrequency s [] = Inr s"
| "candidate_loop R applyTransitions applyTranslations rate rsFrequency s (candidate # rest) =
     (case candidate_step R applyTransitions applyTranslations rate rsFrequency s candidate of
        Inl e \<Rightarrow> Inl e
      | Inr s' \<Rightarrow> candidate_loop R applyTransitions applyTranslations rate rsFrequency s' rest)"

text \<open>The state in which \<^verbatim>\<open>reactiveStep\<close> enters the loop.\<close>

definition initial_state :: "Universe \<Rightarrow> rng \<Rightarrow> StepState" where
  "initial_state U g =
     \<lparr>universe = U, nReactionsAttempted = replicate 8 0, nReactionsAccepted = replicate 8 0,
      acceptedCandidates = [], generator = g\<rparr>"

section \<open>Example data for the loop over the candidates\<close>

text \<open>
  Three molecules A with the ids 1 to 3, the template A + A, and the candidates (1,2) and
  (2,3). Every reaction yields one product named P; the rate is 2 and the frequency 1, so
  every draw below 1 accepts.
\<close>

definition ex_three :: Topology where
  "ex_three =
     \<lparr>data = [ex_A 1 (1, 3, 1), ex_A 2 (2, 3, 1), ex_A 3 (1, 4, 1)],
      dimensions = (8, 8, 8), CellNumbers = (3, 3, 3),
      reactedMoleculeRecords = [], reactedAtomRecords = []\<rparr>"

definition ex_universe_three :: Universe where
  "ex_universe_three =
     \<lparr>topologyOld = ex_three, topologyNew = ex_three, topologyRelaxed = ex_three\<lparr>data := []\<rparr>,
      reactionTemplates = [ex_template_AA], CellList = [], CellNeighbourIndices = []\<rparr>"

definition ex_pair :: "nat \<Rightarrow> REALVEC \<Rightarrow> nat \<Rightarrow> REALVEC \<Rightarrow> ReactionCandidate" where
  "ex_pair a p b q = ex_template_AA\<lparr>reactants := [ex_A a p, ex_A b q]\<rparr>"

definition ex_transitions :: "ReactionCandidate \<Rightarrow> Molecule list" where
  "ex_transitions candidate =
     [\<lparr>mol_id = 0, mol_name = ''P'', atoms = concat (map atoms (reactants candidate))\<rparr>]"

text \<open>The highest molecule id of a topology (as \<^verbatim>\<open>std::max_element\<close> finds it).\<close>

definition highest :: "Topology \<Rightarrow> nat" where
  "highest t = Max (set (map mol_id (data t)))"

definition ex_state_four :: StepState where
  "ex_state_four = initial_state (ex_universe (3, 3, 3)) (\<lambda>_. 1 / 2, 0)"

text \<open>
  Nine templates with the names T0 to T8, each reacting two molecules named A, and a
  candidate of the last one.
\<close>

definition ex_nine_templates :: "ReactionTemplate list" where
  "ex_nine_templates =
     map (\<lambda>name. ex_template_AA\<lparr>getName := name, reaction_name := name\<rparr>)
       [''T0'', ''T1'', ''T2'', ''T3'', ''T4'', ''T5'', ''T6'', ''T7'', ''T8'']"

definition ex_universe_nine :: Universe where
  "ex_universe_nine = ex_universe_three\<lparr>reactionTemplates := ex_nine_templates\<rparr>"

definition ex_candidate_T8 :: ReactionCandidate where
  "ex_candidate_T8 =
     (ex_pair 1 (1, 3, 1) 2 (2, 3, 1))\<lparr>getName := ''T8'', reaction_name := ''T8''\<rparr>"

text \<open>
  Five molecules A with the ids 1 to 5 and a reaction scheme in which the pair (4, 5)
  reacts to nothing, while every other pair yields one molecule named A.
\<close>

definition ex_five :: Topology where
  "ex_five =
     \<lparr>data = [ex_A 1 (1, 3, 1), ex_A 2 (2, 3, 1), ex_A 3 (1, 4, 1), ex_A 4 (2, 4, 2),
              ex_A 5 (2, 4, 1)],
      dimensions = (8, 8, 8), CellNumbers = (3, 3, 3),
      reactedMoleculeRecords = [], reactedAtomRecords = []\<rparr>"

definition ex_state_five :: StepState where
  "ex_state_five =
     initial_state
       \<lparr>topologyOld = ex_five, topologyNew = ex_five, topologyRelaxed = ex_five\<lparr>data := []\<rparr>,
        reactionTemplates = [ex_template_AA], CellList = [], CellNeighbourIndices = []\<rparr>
       (\<lambda>_. 1 / 2, 0)"

definition ex_transitions_vanish :: "ReactionCandidate \<Rightarrow> Molecule list" where
  "ex_transitions_vanish candidate =
     (if map mol_id (reactants candidate) = [4, 5] then []
      else [\<lparr>mol_id = 0, mol_name = ''A'', atoms = concat (map atoms (reactants candidate))\<rparr>])"

section \<open>Theorems\<close>

subsection \<open>The binary formats\<close>

text \<open>
  A number with a significand of at most \<open>p\<close> bits is its own rounding; in particular
  the integers and the halves, quarters and eighths of moderate size.
\<close>

lemma round_half_even_of_int: "round_half_even (of_int n) = n"
  by (simp add: round_half_even_def)


lemma round_REAL_at:
  assumes "2 powr (of_int k) \<le> \<bar>x\<bar>" "\<bar>x\<bar> < 2 powr (of_int (k + 1))"
  shows "round_REAL p x =
     of_int (round_half_even (x * 2 powr (- of_int (k - int p + 1)))) * 2 powr (of_int (k - int p + 1))"
proof -
  have x: "x \<noteq> 0" using assms(1) by (smt (verit) powr_gt_zero)
  have "\<lfloor>log 2 \<bar>x\<bar>\<rfloor> = k"
    using assms x by (subst floor_log_eq_powr_iff) auto
  thus ?thesis using x by (simp add: round_REAL_def)
qed

lemma round_REAL_dyadic:
  assumes "\<bar>m\<bar> < 2 ^ p"
  shows "round_REAL p (of_int m * 2 powr (of_int k)) = of_int m * 2 powr (of_int k)"
proof (cases "m = 0")
  case True thus ?thesis by (simp add: round_REAL_def)
next
  case False
  define x :: real where "x = of_int m * 2 powr (of_int k)"
  have x0: "x \<noteq> 0" using False by (simp add: x_def)
  define e where "e = \<lfloor>log 2 \<bar>x\<bar>\<rfloor> - int p + 1"
  have absx: "\<bar>x\<bar> = of_int \<bar>m\<bar> * 2 powr (of_int k)" by (simp add: x_def abs_mult)
  have "of_int \<bar>m\<bar> < (2::real) ^ p" using assms by (metis of_int_less_iff of_int_numeral of_int_power)
  hence "\<bar>x\<bar> < 2 ^ p * 2 powr (of_int k)" unfolding absx by simp
  also have "\<dots> = 2 powr (of_int (int p + k))" by (simp add: powr_add powr_realpow)
  finally have "log 2 \<bar>x\<bar> < of_int (int p + k)"
    using x0 by (simp add: log_less_iff)
  hence "\<lfloor>log 2 \<bar>x\<bar>\<rfloor> < int p + k" by (simp add: floor_less_iff)
  hence ek: "e \<le> k" by (simp add: e_def)
  have "2 powr (of_int (k - e)) = (2::real) ^ nat (k - e)"
    using ek by (subst powr_real_of_int) auto
  hence pw: "2 powr (of_int k - of_int e) = (2::real) ^ nat (k - e)" by simp
  have "x * 2 powr (- of_int e) = of_int m * 2 powr (of_int k - of_int e)"
    by (simp add: x_def powr_diff powr_minus field_simps)
  also have "\<dots> = of_int (m * 2 ^ nat (k - e))" by (simp add: pw)
  finally have "round_half_even (x * 2 powr (- of_int e)) = m * 2 ^ nat (k - e)"
    by (simp only: round_half_even_of_int)
  hence "round_REAL p x = of_int (m * 2 ^ nat (k - e)) * 2 powr (of_int e)"
    using x0 by (simp add: round_REAL_def e_def Let_def)
  also have "\<dots> = of_int m * (2 powr (of_int k - of_int e) * 2 powr (of_int e))"
    by (simp add: pw)
  also have "\<dots> = x" by (simp add: x_def powr_add[symmetric])
  finally show ?thesis by (simp add: x_def)
qed

lemma round_REAL_of_int: "\<bar>m\<bar> < 2 ^ p \<Longrightarrow> round_REAL p (of_int m) = of_int m"
  using round_REAL_dyadic [of m p 0] by simp

lemma round_REAL_fraction:
  "\<bar>m\<bar> < 2 ^ p \<Longrightarrow> round_REAL p (of_int m / 2 ^ n) = of_int m / 2 ^ n"
  using round_REAL_dyadic [of m p "- int n"] by (simp add: powr_minus powr_realpow divide_inverse)

lemma round_REAL_zero: "round_REAL p 0 = 0"
  by (simp add: round_REAL_def)

lemma round_REAL_numeral:
  "numeral w < (2::int) ^ p \<Longrightarrow> round_REAL p (numeral w) = numeral w"
  "numeral w < (2::int) ^ p \<Longrightarrow> round_REAL p (- numeral w) = - numeral w"
  "0 < p \<Longrightarrow> round_REAL p 1 = 1"
  "0 < p \<Longrightarrow> round_REAL p (- 1) = - 1"
  using round_REAL_of_int [of "numeral w" p] round_REAL_of_int [of "- numeral w" p]
    round_REAL_of_int [of 1 p] round_REAL_of_int [of "- 1" p]
  by simp_all

lemma round_REAL_halves:
  "numeral w < (2::int) ^ p \<Longrightarrow> round_REAL p (numeral w / 2) = numeral w / 2"
  "numeral w < (2::int) ^ p \<Longrightarrow> round_REAL p (numeral w / 4) = numeral w / 4"
  "numeral w < (2::int) ^ p \<Longrightarrow> round_REAL p (numeral w / 8) = numeral w / 8"
  "numeral w < (2::int) ^ p \<Longrightarrow> round_REAL p (- (numeral w / 2)) = - (numeral w / 2)"
  "numeral w < (2::int) ^ p \<Longrightarrow> round_REAL p (- (numeral w / 4)) = - (numeral w / 4)"
  "numeral w < (2::int) ^ p \<Longrightarrow> round_REAL p (- (numeral w / 8)) = - (numeral w / 8)"
  "0 < p \<Longrightarrow> round_REAL p (1 / 2) = 1 / 2"
  "0 < p \<Longrightarrow> round_REAL p (1 / 4) = 1 / 4"
  "0 < p \<Longrightarrow> round_REAL p (1 / 8) = 1 / 8"
  "0 < p \<Longrightarrow> round_REAL p (- (1 / 2)) = - (1 / 2)"
  "0 < p \<Longrightarrow> round_REAL p (- (1 / 4)) = - (1 / 4)"
  "0 < p \<Longrightarrow> round_REAL p (- (1 / 8)) = - (1 / 8)"
  using round_REAL_fraction [of "numeral w" p 1] round_REAL_fraction [of "numeral w" p 2]
    round_REAL_fraction [of "numeral w" p 3]
    round_REAL_fraction [of "- numeral w" p 1] round_REAL_fraction [of "- numeral w" p 2]
    round_REAL_fraction [of "- numeral w" p 3]
    round_REAL_fraction [of 1 p 1] round_REAL_fraction [of 1 p 2] round_REAL_fraction [of 1 p 3]
    round_REAL_fraction [of "- 1" p 1] round_REAL_fraction [of "- 1" p 2]
    round_REAL_fraction [of "- 1" p 3]
  by simp_all

lemmas round_REAL_simps = round_REAL_zero round_REAL_numeral round_REAL_halves

text \<open>
  The product of the \<^verbatim>\<open>float\<close> 5600051 / 2^25 with 3 needs 25 bits and is rounded down,
  and so is the product of the \<^verbatim>\<open>double\<close> 5404319552844595 / 2^54 (the \<^verbatim>\<open>double\<close>
  nearest to 0.3) with 3; the quotient 16 / 5 is not a binary fraction.
\<close>

lemma round_REAL_53_product:
  "round_REAL 53 (16212958658533785 / 18014398509481984) = 2026619832316723 / 2251799813685248"
  by (subst round_REAL_at [of "- 1"]) (simp_all add: round_half_even_def powr_minus powr_int)

lemma round_REAL_24_product: "round_REAL 24 (16800153 / 33554432) = 2100019 / 4194304"
  by (subst round_REAL_at [of "- 1"]) (simp_all add: round_half_even_def powr_minus powr_int)


subsection \<open>Rate-based acceptance\<close>

text \<open>
  C8 (as amended). Under the rate policy the candidate is accepted exactly when the draw
  is strictly below the product of frequency and rate as \<^verbatim>\<open>REAL\<close> holds it, that is, the
  rounded product the source compares with. With a draw in [0,1) a rounded product of 1
  or more always accepts, and frequency 0.25 with rate 2.0 (whose product 0.5 is exact in
  a binary format) and draw 0.4 accepts. The generator advances by one draw.
\<close>

theorem acceptance_rate_policy:
  assumes "0 \<le> fst g (snd g)" and "fst g (snd g) < 1"
  shows "(fst (acceptance R rate freq g c) \<longleftrightarrow> fst g (snd g) < rnd R (freq * rate c))
       \<and> (1 \<le> rnd R (freq * rate c) \<longrightarrow> fst (acceptance R rate freq g c))
       \<and> snd (acceptance R rate freq g c) = (fst g, Suc (snd g))
       \<and> (rnd R (1 / 2) = 1 / 2 \<longrightarrow> fst (acceptance R (\<lambda>_. 2) (1 / 4) (\<lambda>_. 4 / 10, n) c))"
  using assms by (simp add: acceptance_def enhance_random_def)

text \<open>
  In \<^verbatim>\<open>double\<close>: frequency 0.25 and rate 2 accept the draw 0.4 and reject the draw 0.6,
  and rate 8 accepts the draw 0.6.
\<close>

theorem acceptance_rate_policy_witness:
  "fst (acceptance binary64 (\<lambda>_. 2) (1 / 4) (\<lambda>_. 4 / 10, 0) ex_candidate_r)
   \<and> \<not> fst (acceptance binary64 (\<lambda>_. 2) (1 / 4) (\<lambda>_. 6 / 10, 0) ex_candidate_r)
   \<and> fst (acceptance binary64 (\<lambda>_. 8) (1 / 4) (\<lambda>_. 6 / 10, 0) ex_candidate_r)
   \<and> snd (acceptance binary64 (\<lambda>_. 2) (1 / 4) (\<lambda>_. 4 / 10, 0) ex_candidate_r)
       = (\<lambda>_. 4 / 10, 1)"
  using acceptance_rate_policy [of "(\<lambda>_. 4 / 10, 0)" binary64 "\<lambda>_. 2" "1 / 4" ex_candidate_r 0]
    acceptance_rate_policy [of "(\<lambda>_. 6 / 10, 0)" binary64 "\<lambda>_. 2" "1 / 4" ex_candidate_r 0]
    acceptance_rate_policy [of "(\<lambda>_. 6 / 10, 0)" binary64 "\<lambda>_. 8" "1 / 4" ex_candidate_r 0]
  by (simp add: binary64_def round_REAL_simps)

text \<open>
  The draw can be strictly below the exact product of frequency and rate and the
  candidate rejected all the same, because the product is rounded down to the draw. In
  \<^verbatim>\<open>float\<close>: frequency 5600051 / 2^25, rate 3, draw 2100019 / 2^22. In \<^verbatim>\<open>double\<close>:
  frequency 5404319552844595 / 2^54, rate 3, draw 2026619832316723 / 2^51.
\<close>

theorem acceptance_exact_product_counterexample:
  "\<not> fst (acceptance binary32 (\<lambda>_. 3) (5600051 / 33554432)
          (\<lambda>_. 2100019 / 4194304, 0) ex_candidate_r)
   \<and> (0 :: real) \<le> 2100019 / 4194304 \<and> (2100019 / 4194304 :: real) < 1
   \<and> (2100019 / 4194304 :: real) < 5600051 / 33554432 * 3
   \<and> \<not> fst (acceptance binary64 (\<lambda>_. 3) (5404319552844595 / 18014398509481984)
          (\<lambda>_. 2026619832316723 / 2251799813685248, 0) ex_candidate_r)
   \<and> (0 :: real) \<le> 2026619832316723 / 2251799813685248
   \<and> (2026619832316723 / 2251799813685248 :: real) < 1
   \<and> (2026619832316723 / 2251799813685248 :: real) < 5404319552844595 / 18014398509481984 * 3"
  by (simp add: acceptance_def enhance_random_def binary32_def binary64_def
      round_REAL_24_product round_REAL_53_product)

subsection \<open>Universe: movement check\<close>


lemma movement_loop_from:
  "i \<le> length before \<Longrightarrow> i \<le> length after \<Longrightarrow>
   movement_loop body before after i i out =
     (if length before = length after
      then Inr (out @ map2 body (drop i before) (drop i after))
      else Inl OutOfBounds)"
proof (induction "length before - i" arbitrary: i out)
  case 0
  then show ?case by (auto simp: movement_loop.simps[of body before after i i out])
next
  case (Suc n)
  then have lt: "i < length before" by simp
  show ?case
  proof (cases "i < length after")
    case True
    have "n = length before - Suc i" using Suc.hyps(2) by simp
    from Suc.hyps(1)[OF this, of "out @ [body (before ! i) (after ! i)]"] lt True
    show ?thesis
      apply (subst movement_loop.simps)
      apply (simp add: Cons_nth_drop_Suc[symmetric])
      done
  next
    case False
    with Suc.prems have "i = length after" by simp
    with lt show ?thesis by (subst movement_loop.simps) auto
  qed
qed

lemma checkMovement_molecule_eq:
  "checkMovement_molecule R distance tNew tRelaxed molecule =
     (case relaxed_counterpart tNew tRelaxed molecule of
        Inl e \<Rightarrow> Inl e
      | Inr newMolecule \<Rightarrow>
          if length (atoms molecule) = length (atoms newMolecule)
          then Inr (map2 (atom_movement R distance tNew) (atoms molecule) (atoms newMolecule))
          else Inl OutOfBounds)"
  by (simp add: checkMovement_molecule_def movement_loop_from split: sum.splits)

lemma checkMovement_products_returns:
  "(\<exists>wss. checkMovement_products R distance tNew tRelaxed ps = Inr wss) \<longleftrightarrow>
   (\<forall>p\<in>set ps. \<exists>q. relaxed_counterpart tNew tRelaxed p = Inr q
        \<and> length (atoms p) = length (atoms q))"
  by (induction ps) (auto simp: checkMovement_molecule_eq split: sum.splits)

lemma checkMovement_products_result:
  "checkMovement_products R distance tNew tRelaxed ps = Inr wss \<Longrightarrow>
   wss = map (\<lambda>p. map2 (atom_movement R distance tNew) (atoms p)
                    (atoms (projr (relaxed_counterpart tNew tRelaxed p)))) ps"
  by (induction ps arbitrary: wss) (auto simp: checkMovement_molecule_eq split: sum.splits if_splits)

lemma checkMovement_products_fails:
  "\<forall>p\<in>set ps. \<exists>q. relaxed_counterpart tNew tRelaxed p = Inr q \<Longrightarrow>
   \<exists>p\<in>set ps. length (atoms p) \<noteq> length (atoms (projr (relaxed_counterpart tNew tRelaxed p))) \<Longrightarrow>
   checkMovement_products R distance tNew tRelaxed ps = Inl OutOfBounds"
proof (induction ps)
  case Nil
  then show ?case by simp
next
  case (Cons p ps)
  from Cons.prems(1) obtain q where q: "relaxed_counterpart tNew tRelaxed p = Inr q" by auto
  show ?case
  proof (cases "length (atoms p) = length (atoms q)")
    case False
    then show ?thesis using q by (simp add: checkMovement_molecule_eq)
  next
    case True
    with Cons.prems(2) q
    have "\<exists>p\<in>set ps. length (atoms p) \<noteq> length (atoms (projr (relaxed_counterpart tNew tRelaxed p)))"
      by auto
    with Cons.IH Cons.prems(1)
    have "checkMovement_products R distance tNew tRelaxed ps = Inl OutOfBounds" by simp
    then show ?thesis using q True by (simp add: checkMovement_molecule_eq)
  qed
qed

text \<open>
  C10. The movement check pairs the atoms of every product of the candidate with the
  atoms of its counterpart in the relaxed topology, position by position. It returns
  exactly when every product has a counterpart (both lookups succeed) with the same
  number of atoms, and then it has made one comparison per atom of every product, the
  i-th atom of the product against the i-th atom of the counterpart. When every product
  has a counterpart and one of them has a different number of atoms, an iterator is
  dereferenced at its end. The loop itself, under its guard, returns the n positional
  comparisons when both sequences have n atoms and dereferences an end iterator
  otherwise.
\<close>

theorem checkMovement_needs_equal_atom_counts:
  "((\<exists>wss. checkMovement R distance tNew tRelaxed candidate = Inr wss) \<longleftrightarrow>
      (\<forall>p\<in>set (products candidate).
         \<exists>q. relaxed_counterpart tNew tRelaxed p = Inr q \<and> length (atoms p) = length (atoms q)))
   \<and> (\<forall>wss. checkMovement R distance tNew tRelaxed candidate = Inr wss \<longrightarrow>
         wss = map (\<lambda>p. map2 (atom_movement R distance tNew) (atoms p)
                          (atoms (projr (relaxed_counterpart tNew tRelaxed p))))
                 (products candidate)
         \<and> map length wss = map (\<lambda>p. length (atoms p)) (products candidate))
   \<and> ((\<forall>p\<in>set (products candidate). \<exists>q. relaxed_counterpart tNew tRelaxed p = Inr q)
        \<and> (\<exists>p\<in>set (products candidate).
              length (atoms p) \<noteq> length (atoms (projr (relaxed_counterpart tNew tRelaxed p))))
        \<longrightarrow> checkMovement R distance tNew tRelaxed candidate = Inl OutOfBounds)
   \<and> movement_loop body before after 0 0 [] =
         (if length before = length after then Inr (map2 body before after)
          else Inl OutOfBounds)"
proof (intro conjI allI impI)
  show "(\<exists>wss. checkMovement R distance tNew tRelaxed candidate = Inr wss) \<longleftrightarrow>
      (\<forall>p\<in>set (products candidate).
         \<exists>q. relaxed_counterpart tNew tRelaxed p = Inr q \<and> length (atoms p) = length (atoms q))"
    unfolding checkMovement_def by (rule checkMovement_products_returns)
next
  fix wss
  assume a: "checkMovement R distance tNew tRelaxed candidate = Inr wss"
  then show w: "wss = map (\<lambda>p. map2 (atom_movement R distance tNew) (atoms p)
                          (atoms (projr (relaxed_counterpart tNew tRelaxed p))))
                 (products candidate)"
    unfolding checkMovement_def by (rule checkMovement_products_result)
  from a have "\<exists>wss. checkMovement_products R distance tNew tRelaxed (products candidate) = Inr wss"
    unfolding checkMovement_def by blast
  then have "\<forall>p\<in>set (products candidate).
         \<exists>q. relaxed_counterpart tNew tRelaxed p = Inr q \<and> length (atoms p) = length (atoms q)"
    by (simp only: checkMovement_products_returns)
  then have "\<forall>p\<in>set (products candidate).
      length (map2 (atom_movement R distance tNew) (atoms p)
                (atoms (projr (relaxed_counterpart tNew tRelaxed p)))) = length (atoms p)"
    by auto
  then show "map length wss = map (\<lambda>p. length (atoms p)) (products candidate)"
    unfolding w by (simp add: comp_def)
next
  assume "(\<forall>p\<in>set (products candidate). \<exists>q. relaxed_counterpart tNew tRelaxed p = Inr q)
        \<and> (\<exists>p\<in>set (products candidate).
              length (atoms p) \<noteq> length (atoms (projr (relaxed_counterpart tNew tRelaxed p))))"
  then show "checkMovement R distance tNew tRelaxed candidate = Inl OutOfBounds"
    unfolding checkMovement_def using checkMovement_products_fails by blast
next
  show "movement_loop body before after 0 0 [] =
         (if length before = length after then Inr (map2 body before after)
          else Inl OutOfBounds)"
    by (simp add: movement_loop_from)
qed

text \<open>
  The candidate with the two-atom product: against the relaxed molecule with two atoms
  the check returns two comparisons, against the one with three atoms it fails.
\<close>

theorem checkMovement_needs_equal_atom_counts_witness:
  "relaxed_counterpart ex_topologyNew ex_relaxed_same ex_product = Inr (hd (data ex_relaxed_same))
   \<and> relaxed_counterpart ex_topologyNew ex_relaxed_longer ex_product
       = Inr (hd (data ex_relaxed_longer))
   \<and> length (atoms ex_product) = 2
   \<and> \<not> isl (checkMovement binary64 (\<lambda>a b L. 1) ex_topologyNew ex_relaxed_same ex_candidate_P)
   \<and> map length
         (projr (checkMovement binary64 (\<lambda>a b L. 1) ex_topologyNew ex_relaxed_same ex_candidate_P))
       = [2]
   \<and> checkMovement binary64 (\<lambda>a b L. 1) ex_topologyNew ex_relaxed_longer ex_candidate_P
       = Inl OutOfBounds"
proof -
  have m1: "relaxed_counterpart ex_topologyNew ex_relaxed_same ex_product
              = Inr (hd (data ex_relaxed_same))"
    by (simp add: relaxed_counterpart_def getReactionRecordMolecule_def getMolecule_def
        ex_topologyNew_def ex_product_def ex_relaxed_same_def)
  have m2: "relaxed_counterpart ex_topologyNew ex_relaxed_longer ex_product
              = Inr (hd (data ex_relaxed_longer))"
    by (simp add: relaxed_counterpart_def getReactionRecordMolecule_def getMolecule_def
        ex_topologyNew_def ex_product_def ex_relaxed_longer_def)
  have l: "length (atoms ex_product) = 2" "length (atoms (hd (data ex_relaxed_same))) = 2"
    "length (atoms (hd (data ex_relaxed_longer))) = 3"
    by (simp_all add: ex_product_def ex_relaxed_same_def ex_relaxed_longer_def)
  have p: "products ex_candidate_P = [ex_product]" by (simp add: ex_candidate_P_def)
  from checkMovement_needs_equal_atom_counts
         [of binary64 "\<lambda>a b L. 1" ex_topologyNew ex_relaxed_same ex_candidate_P "\<lambda>a b. ()" "[]" "[]"]
       m1 l p
  obtain wss where
    a: "checkMovement binary64 (\<lambda>a b L. 1) ex_topologyNew ex_relaxed_same ex_candidate_P = Inr wss"
    and b: "map length wss = [2]"
    by auto
  from checkMovement_needs_equal_atom_counts
         [of binary64 "\<lambda>a b L. 1" ex_topologyNew ex_relaxed_longer ex_candidate_P "\<lambda>a b. ()" "[]" "[]"]
       m2 l p
  have c: "checkMovement binary64 (\<lambda>a b L. 1) ex_topologyNew ex_relaxed_longer ex_candidate_P
             = Inl OutOfBounds"
    by simp
  from m1 m2 l(1) a b c show ?thesis by simp
qed

subsection \<open>Universe: making a molecule whole\<close>














subsection \<open>Topology: sort\<close>

lemma renumber_atoms_counter:
  "fst (snd (renumber_atoms b as ca ar)) = ca + length as"
  by (induction as arbitrary: ca ar) (simp_all add: Let_def case_prod_beta)

lemma renumber_atoms_fst:
  "fst (renumber_atoms b as ca ar) = relabel_atoms as ca"
  by (induction as arbitrary: ca ar) (simp_all add: Let_def case_prod_beta)

lemma renumber_fst:
  "fst (renumber ms cm ca mr ar) = relabel ms cm ca"
  by (induction ms arbitrary: cm ca mr ar)
    (simp_all add: Let_def case_prod_beta renumber_atoms_fst renumber_atoms_counter)

lemma relabel_atoms_length: "length (relabel_atoms as ca) = length as"
  by (induction as arbitrary: ca) simp_all

lemma relabel_atoms_idem: "relabel_atoms (relabel_atoms as ca) ca = relabel_atoms as ca"
  by (induction as arbitrary: ca) simp_all

lemma relabel_atoms_ids: "map atom_id (relabel_atoms as ca) = [Suc ca ..< Suc ca + length as]"
  by (induction as arbitrary: ca) (simp_all add: upt_rec[of "Suc _"] del: upt_Suc)

lemma relabel_length: "length (relabel ms cm ca) = length ms"
  by (induction ms arbitrary: cm ca) simp_all

lemma relabel_names: "map mol_name (relabel ms cm ca) = map mol_name ms"
  by (induction ms arbitrary: cm ca) simp_all

lemma relabel_idem: "relabel (relabel ms cm ca) cm ca = relabel ms cm ca"
  by (induction ms arbitrary: cm ca) (simp_all add: relabel_atoms_idem relabel_atoms_length)

lemma relabel_ids: "map mol_id (relabel ms cm ca) = [Suc cm ..< Suc cm + length ms]"
  by (induction ms arbitrary: cm ca) (simp_all add: upt_rec[of "Suc _"] del: upt_Suc)

lemma relabel_atom_ids:
  "concat (map (\<lambda>m. map atom_id (atoms m)) (relabel ms cm ca))
     = [Suc ca ..< Suc ca + sum_list (map (\<lambda>m. length (atoms m)) ms)]"
proof (induction ms arbitrary: cm ca)
  case Nil show ?case by simp
next
  case (Cons m ms)
  have "[Suc ca ..< Suc ca + (length (atoms m) + sum_list (map (\<lambda>m. length (atoms m)) ms))]
      = [Suc ca ..< Suc ca + length (atoms m)]
        @ [Suc (ca + length (atoms m)) ..< Suc (ca + length (atoms m)) + sum_list (map (\<lambda>m. length (atoms m)) ms)]"
    using upt_add_eq_append[of "Suc ca" "Suc ca + length (atoms m)" "sum_list (map (\<lambda>m. length (atoms m)) ms)"]
    by (simp add: add.assoc del: upt_Suc)
  then show ?case by (simp add: relabel_atoms_ids Cons.IH del: upt_Suc)
qed

lemma data_Topology_sort:
  "data (Topology_sort t) = relabel (stable_sort_by_name (data t)) 0 0"
  by (simp add: Topology_sort_def case_prod_beta renumber_fst)

lemma update_record_None: "update_record k v rs = None \<longleftrightarrow> k \<notin> fst ` set rs"
  by (induction rs) (auto split: option.splits)

lemma update_record_keys: "update_record k v rs = Some rs' \<Longrightarrow> map fst rs' = map fst rs"
  by (induction rs arbitrary: rs') (auto split: option.splits if_splits)

lemma update_record_map_of:
  "update_record k v rs = Some rs' \<Longrightarrow> map_of rs' = (map_of rs)(k \<mapsto> v)"
proof (induction rs arbitrary: rs')
  case Nil then show ?case by simp
next
  case (Cons r rs)
  obtain a b where r: "r = (a, b)" by (cases r)
  show ?case
  proof (cases "k = a")
    case True
    with Cons.prems r show ?thesis by auto
  next
    case False
    with Cons.prems r obtain rs'' where u: "update_record k v rs = Some rs''" and e: "rs' = r # rs''"
      by (auto split: option.splits)
    from Cons.IH[OF u] False r e show ?thesis by (auto simp: fun_eq_iff)
  qed
qed

lemma find_fst_map_of:
  "find (\<lambda>r. fst r = k) rs = map_option (\<lambda>v. (k, v)) (map_of rs k)"
  by (induction rs) auto

lemma getReactionRecordMolecule_map_of:
  "getReactionRecordMolecule t k =
     (case map_of (reactedMoleculeRecords t) k of None \<Rightarrow> Inl NotFound | Some v \<Rightarrow> Inr v)"
  by (simp add: getReactionRecordMolecule_def find_fst_map_of split: option.splits)

lemma renumber_atoms_recs:
  "snd (snd (renumber_atoms b as ca ar)) =
     ar @ (if b then zip (map atom_id as) (map atom_id (relabel_atoms as ca)) else [])"
  by (induction as arbitrary: ca ar) (simp_all add: Let_def case_prod_beta)

lemma renumber_keys:
  "map fst (fst (snd (renumber ms cm ca mr ar))) = map fst mr"
proof (induction ms arbitrary: cm ca mr ar)
  case Nil show ?case by simp
next
  case (Cons m ms)
  show ?case
    by (cases "update_record (mol_id m) (Suc cm) mr")
      (simp_all add: Let_def case_prod_beta Cons.IH update_record_keys)
qed

lemma renumber_frame:
  "k \<notin> mol_id ` set ms \<Longrightarrow> map_of (fst (snd (renumber ms cm ca mr ar))) k = map_of mr k"
proof (induction ms arbitrary: cm ca mr ar)
  case Nil show ?case by simp
next
  case (Cons m ms)
  then have k: "k \<noteq> mol_id m" and k': "k \<notin> mol_id ` set ms" by auto
  show ?case
  proof (cases "update_record (mol_id m) (Suc cm) mr")
    case None
    then show ?thesis by (simp add: Let_def case_prod_beta Cons.IH[OF k'])
  next
    case (Some r)
    from update_record_map_of[OF Some] k have "map_of r k = map_of mr k" by simp
    with Some show ?thesis by (simp add: Let_def case_prod_beta Cons.IH[OF k'])
  qed
qed

lemma renumber_value:
  "distinct (map mol_id ms) \<Longrightarrow> i < length ms \<Longrightarrow> mol_id (ms ! i) \<in> fst ` set mr \<Longrightarrow>
   map_of (fst (snd (renumber ms cm ca mr ar))) (mol_id (ms ! i)) = Some (Suc cm + i)"
proof (induction ms arbitrary: cm ca mr ar i)
  case Nil then show ?case by simp
next
  case (Cons m ms)
  from Cons.prems(1) have d: "distinct (map mol_id ms)" and nin: "mol_id m \<notin> mol_id ` set ms"
    by auto
  show ?case
  proof (cases i)
    case 0
    with Cons.prems(3) have "update_record (mol_id m) (Suc cm) mr \<noteq> None"
      by (simp add: update_record_None)
    then obtain r where r: "update_record (mol_id m) (Suc cm) mr = Some r" by auto
    have "map_of r (mol_id m) = Some (Suc cm)"
      using update_record_map_of[OF r] by simp
    with r 0 show ?thesis
      by (simp add: Let_def case_prod_beta renumber_frame[OF nin])
  next
    case (Suc j)
    with Cons.prems have j: "j < length ms" and key: "mol_id (ms ! j) \<in> fst ` set mr" by auto
    show ?thesis
    proof (cases "update_record (mol_id m) (Suc cm) mr")
      case None
      with Suc Cons.IH[OF d j key] show ?thesis by (simp add: Let_def case_prod_beta)
    next
      case (Some r)
      have "fst ` set r = fst ` set mr"
        using update_record_keys[OF Some] by (metis set_map)
      with key have "mol_id (ms ! j) \<in> fst ` set r" by simp
      from Cons.IH[OF d j this] Some Suc show ?thesis by (simp add: Let_def case_prod_beta)
    qed
  qed
qed

lemma renumber_atom_recs:
  "snd (snd (renumber ms cm ca mr ar)) =
     ar @ concat (map (\<lambda>(m, m'). if mol_id m \<in> fst ` set mr
                                  then zip (map atom_id (atoms m)) (map atom_id (atoms m')) else [])
                   (zip ms (relabel ms cm ca)))"
proof (induction ms arbitrary: cm ca mr ar)
  case Nil show ?case by simp
next
  case (Cons m ms)
  show ?case
  proof (cases "update_record (mol_id m) (Suc cm) mr")
    case None
    then have "mol_id m \<notin> fst ` set mr" by (simp add: update_record_None)
    with None show ?thesis
      by (simp add: Let_def case_prod_beta Cons.IH renumber_atoms_recs renumber_atoms_counter)
  next
    case (Some r)
    then have in_keys: "mol_id m \<in> fst ` set mr"
      using update_record_None[of "mol_id m" "Suc cm" mr] by auto
    have "fst ` set r = fst ` set mr"
      using update_record_keys[OF Some] by (metis set_map)
    with Some in_keys show ?thesis
      by (simp add: Let_def case_prod_beta Cons.IH renumber_atoms_recs renumber_atoms_counter)
  qed
qed

lemma forget_ids_name: "mol_name (forget_ids m) = mol_name m"
  by (simp add: forget_ids_def)

lemma forget_relabel_atoms:
  "map (\<lambda>a. a\<lparr>atom_id := 0\<rparr>) (relabel_atoms as ca) = map (\<lambda>a. a\<lparr>atom_id := 0\<rparr>) as"
  by (induction as arbitrary: ca) simp_all

lemma forget_relabel: "map forget_ids (relabel ms cm ca) = map forget_ids ms"
  by (induction ms arbitrary: cm ca) (simp_all add: forget_ids_def forget_relabel_atoms)

lemma relabel_nth_id: "i < length ms \<Longrightarrow> mol_id (relabel ms cm ca ! i) = Suc cm + i"
proof -
  assume "i < length ms"
  then have "map mol_id (relabel ms cm ca) ! i = Suc cm + i"
    unfolding relabel_ids by (simp del: upt_Suc)
  then show ?thesis using \<open>i < length ms\<close> by (simp add: relabel_length)
qed

lemma filter_forget:
  "map forget_ids (filter (\<lambda>m. mol_name m = n) ms)
     = filter (\<lambda>m. mol_name m = n) (map forget_ids ms)"
  by (induction ms) (simp_all add: forget_ids_name)

lemma sum_list_insort_key:
  "sum_list (map f (insort_key g x xs)) = f x + sum_list (map (f :: 'a \<Rightarrow> nat) xs)"
  by (induction xs) simp_all

lemma sum_list_sort_key:
  "sum_list (map f (sort_key g xs)) = sum_list (map (f :: 'a \<Rightarrow> nat) xs)"
  by (induction xs) (simp_all add: sum_list_insort_key)

lemma distinct_ids_sorted:
  "distinct (map mol_id ms) \<Longrightarrow> distinct (map mol_id (stable_sort_by_name ms))"
  by (simp add: distinct_map stable_sort_by_name_def)

lemma recs_Topology_sort:
  "reactedMoleculeRecords (Topology_sort t) =
     fst (snd (renumber (stable_sort_by_name (data t)) 0 0 (reactedMoleculeRecords t) []))"
  by (simp add: Topology_sort_def case_prod_beta)

lemma arecs_Topology_sort:
  "reactedAtomRecords (Topology_sort t) =
     snd (snd (renumber (stable_sort_by_name (data t)) 0 0 (reactedMoleculeRecords t) []))"
  by (simp add: Topology_sort_def case_prod_beta)


lemma ex_sorted:
  "Topology_sort ex_sort_topology =
     \<lparr>data = [\<lparr>mol_id = 1, mol_name = ''A'',
                atoms = [\<lparr>atom_id = 1, atom_name = ''a1'', position = (1, 1, 1)\<rparr>,
                         \<lparr>atom_id = 2, atom_name = ''a2'', position = (2, 1, 1)\<rparr>]\<rparr>,
              \<lparr>mol_id = 2, mol_name = ''B'',
                atoms = [\<lparr>atom_id = 3, atom_name = ''b'', position = (0, 0, 0)\<rparr>]\<rparr>],
      dimensions = (10, 10, 10), CellNumbers = (3, 3, 3),
      reactedMoleculeRecords = [(2, 1)], reactedAtomRecords = [(2, 1), (3, 2)]\<rparr>"
  by (simp add: ex_sort_topology_def Topology_sort_def stable_sort_by_name_def Let_def)

lemma ex_sorted2:
  "Topology_sort (Topology_sort ex_sort_topology) =
     \<lparr>data = [\<lparr>mol_id = 1, mol_name = ''A'',
                atoms = [\<lparr>atom_id = 1, atom_name = ''a1'', position = (1, 1, 1)\<rparr>,
                         \<lparr>atom_id = 2, atom_name = ''a2'', position = (2, 1, 1)\<rparr>]\<rparr>,
              \<lparr>mol_id = 2, mol_name = ''B'',
                atoms = [\<lparr>atom_id = 3, atom_name = ''b'', position = (0, 0, 0)\<rparr>]\<rparr>],
      dimensions = (10, 10, 10), CellNumbers = (3, 3, 3),
      reactedMoleculeRecords = [(2, 2)], reactedAtomRecords = [(3, 3)]\<rparr>"
  unfolding ex_sorted
  by (simp add: Topology_sort_def stable_sort_by_name_def Let_def)


text \<open>
  C9. Sorting twice in succession leaves every molecule and every atom with the id that
  a single sort assigns: the second sort changes no molecule.
\<close>

theorem sort_twice_same_ids: "data (Topology_sort (Topology_sort t)) = data (Topology_sort t)"
proof -
  let ?ms = "relabel (stable_sort_by_name (data t)) 0 0"
  have "sorted (map mol_name ?ms)"
    by (simp add: relabel_names stable_sort_by_name_def)
  then have s: "stable_sort_by_name ?ms = ?ms"
    unfolding stable_sort_by_name_def by (rule sort_key_id_if_sorted)
  show ?thesis
    by (simp add: data_Topology_sort s relabel_idem)
qed

theorem sort_twice_same_ids_witness:
  "map mol_id (data (Topology_sort (Topology_sort ex_sort_topology))) = [1, 2]
   \<and> concat (map (\<lambda>m. map atom_id (atoms m))
         (data (Topology_sort (Topology_sort ex_sort_topology)))) = [1, 2, 3]"
  using sort_twice_same_ids [of ex_sort_topology] by (simp add: ex_sorted)

text \<open>
  C2 (as amended). On a topology whose molecule ids are pairwise distinct, sort orders the
  molecules by name and keeps the relative order of molecules of one name; the molecule
  ids become 1..M and the atom ids 1..A in that order; the keys of the molecule records
  are unchanged; every key that is the id of a molecule when sort starts maps afterwards
  to the new id of that very molecule, and every other key resolves as before; the atom
  records are, molecule after molecule in
  the new order and atom after atom, exactly the pairs of the id an atom had when sort
  started and its new id, for the atoms of the molecules whose id was a record key when
  sort started; and every atom record leads to an atom of a molecule whose id is a record
  value.
\<close>

theorem sort_record_consistency:
  assumes dist: "distinct (map mol_id (data t))"
  shows "sorted (map mol_name (data (Topology_sort t)))
       \<and> (\<forall>n. map forget_ids (filter (\<lambda>m. mol_name m = n) (data (Topology_sort t)))
              = map forget_ids (filter (\<lambda>m. mol_name m = n) (data t)))
       \<and> map mol_id (data (Topology_sort t)) = [1 ..< Suc (length (data t))]
       \<and> concat (map (\<lambda>m. map atom_id (atoms m)) (data (Topology_sort t)))
            = [1 ..< Suc (getNAtoms t)]
       \<and> map fst (reactedMoleculeRecords (Topology_sort t)) = map fst (reactedMoleculeRecords t)
       \<and> (\<forall>i < length (data t).
            mol_id (stable_sort_by_name (data t) ! i) \<in> fst ` set (reactedMoleculeRecords t) \<longrightarrow>
              getReactionRecordMolecule (Topology_sort t) (mol_id (stable_sort_by_name (data t) ! i))
                = Inr (Suc i)
              \<and> mol_id (data (Topology_sort t) ! i) = Suc i
              \<and> forget_ids (data (Topology_sort t) ! i) = forget_ids (stable_sort_by_name (data t) ! i))
       \<and> (\<forall>k. k \<notin> mol_id ` set (data t) \<longrightarrow>
              getReactionRecordMolecule (Topology_sort t) k = getReactionRecordMolecule t k)
       \<and> reactedAtomRecords (Topology_sort t)
            = concat (map (\<lambda>(m, m'). if mol_id m \<in> fst ` set (reactedMoleculeRecords t)
                                        then zip (map atom_id (atoms m)) (map atom_id (atoms m'))
                                        else [])
                       (zip (stable_sort_by_name (data t)) (data (Topology_sort t))))
       \<and> (\<forall>(old, new) \<in> set (reactedAtomRecords (Topology_sort t)).
            \<exists>m \<in> set (data (Topology_sort t)).
              new \<in> atom_id ` set (atoms m) \<and> mol_id m \<in> snd ` set (reactedMoleculeRecords (Topology_sort t)))"
proof -
  let ?s = "stable_sort_by_name (data t)"
  let ?t' = "Topology_sort t"
  have len: "length ?s = length (data t)" by (simp add: stable_sort_by_name_def)
  have ds: "distinct (map mol_id ?s)" using dist by (rule distinct_ids_sorted)
  have c1: "sorted (map mol_name (data ?t'))"
    by (simp add: data_Topology_sort relabel_names stable_sort_by_name_def)
  have c2: "map forget_ids (filter (\<lambda>m. mol_name m = n) (data ?t'))
              = map forget_ids (filter (\<lambda>m. mol_name m = n) (data t))" for n
  proof -
    have "map forget_ids (filter (\<lambda>m. mol_name m = n) (data ?t'))
            = filter (\<lambda>m. mol_name m = n) (map forget_ids ?s)"
      by (simp add: filter_forget data_Topology_sort forget_relabel)
    also have "\<dots> = map forget_ids (filter (\<lambda>m. mol_name m = n) ?s)"
      by (simp add: filter_forget)
    also have "filter (\<lambda>m. mol_name m = n) ?s = filter (\<lambda>m. mol_name m = n) (data t)"
      unfolding stable_sort_by_name_def by (rule sort_key_stable)
    finally show ?thesis .
  qed
  have c3: "map mol_id (data ?t') = [1 ..< Suc (length (data t))]"
    by (simp add: data_Topology_sort relabel_ids len del: upt_Suc)
  have "sum_list (map (\<lambda>m. length (atoms m)) ?s) = getNAtoms t"
    by (simp add: getNAtoms_def stable_sort_by_name_def sum_list_sort_key)
  then have c4: "concat (map (\<lambda>m. map atom_id (atoms m)) (data ?t')) = [1 ..< Suc (getNAtoms t)]"
    by (simp add: data_Topology_sort relabel_atom_ids del: upt_Suc)
  have c5: "map fst (reactedMoleculeRecords ?t') = map fst (reactedMoleculeRecords t)"
    by (simp add: recs_Topology_sort renumber_keys)
  have val: "map_of (reactedMoleculeRecords ?t') (mol_id (?s ! i)) = Some (Suc i)"
    if "i < length (data t)" "mol_id (?s ! i) \<in> fst ` set (reactedMoleculeRecords t)" for i
    using renumber_value[OF ds, of i "reactedMoleculeRecords t" 0 0 "[]"] that len
    by (simp add: recs_Topology_sort)
  have c6: "getReactionRecordMolecule ?t' (mol_id (?s ! i)) = Inr (Suc i)
            \<and> mol_id (data ?t' ! i) = Suc i
            \<and> forget_ids (data ?t' ! i) = forget_ids (?s ! i)"
    if "i < length (data t)" "mol_id (?s ! i) \<in> fst ` set (reactedMoleculeRecords t)" for i
  proof -
    have "map forget_ids (data ?t') ! i = map forget_ids ?s ! i"
      by (simp add: data_Topology_sort forget_relabel)
    then have "forget_ids (data ?t' ! i) = forget_ids (?s ! i)"
      using that(1) len by (simp add: data_Topology_sort relabel_length)
    then show ?thesis
      using val[OF that] that(1) len
      by (simp add: getReactionRecordMolecule_map_of data_Topology_sort relabel_nth_id)
  qed
  have c7: "\<exists>m \<in> set (data ?t'). new \<in> atom_id ` set (atoms m)
              \<and> mol_id m \<in> snd ` set (reactedMoleculeRecords ?t')"
    if "(old, new) \<in> set (reactedAtomRecords ?t')" for old new
  proof -
    from that obtain m m' where mm: "(m, m') \<in> set (zip ?s (relabel ?s 0 0))"
      and key: "mol_id m \<in> fst ` set (reactedMoleculeRecords t)"
      and on: "(old, new) \<in> set (zip (map atom_id (atoms m)) (map atom_id (atoms m')))"
      by (auto simp: arecs_Topology_sort renumber_atom_recs split: if_splits)
    from mm obtain i where i: "i < length ?s" and m: "m = ?s ! i" and m': "m' = relabel ?s 0 0 ! i"
      by (auto simp: set_zip relabel_length)
    have "map_of (reactedMoleculeRecords ?t') (mol_id (?s ! i)) = Some (Suc i)"
      using val[of i] i key m len by simp
    then have "(mol_id (?s ! i), Suc i) \<in> set (reactedMoleculeRecords ?t')"
      by (rule map_of_SomeD)
    then have "Suc i \<in> snd ` set (reactedMoleculeRecords ?t')" by force
    moreover have "mol_id m' = Suc i" using i m' by (simp add: relabel_nth_id)
    ultimately have a: "mol_id m' \<in> snd ` set (reactedMoleculeRecords ?t')" by simp
    have b: "m' \<in> set (data ?t')" using i m' by (simp add: data_Topology_sort relabel_length)
    have c: "new \<in> atom_id ` set (atoms m')" using set_zip_rightD[OF on] by simp
    from a b c show ?thesis by (intro bexI[of _ m'] conjI)
  qed
  have c8: "reactedAtomRecords ?t'
              = concat (map (\<lambda>(m, m'). if mol_id m \<in> fst ` set (reactedMoleculeRecords t)
                                          then zip (map atom_id (atoms m)) (map atom_id (atoms m'))
                                          else [])
                         (zip ?s (data ?t')))"
    by (simp add: arecs_Topology_sort renumber_atom_recs data_Topology_sort)
  have c9: "getReactionRecordMolecule ?t' k = getReactionRecordMolecule t k"
    if "k \<notin> mol_id ` set (data t)" for k
  proof -
    have "k \<notin> mol_id ` set ?s" using that by (simp add: stable_sort_by_name_def)
    then have "map_of (reactedMoleculeRecords ?t') k = map_of (reactedMoleculeRecords t) k"
      unfolding recs_Topology_sort by (rule renumber_frame)
    then show ?thesis by (simp add: getReactionRecordMolecule_map_of)
  qed
  from c1 c2 c3 c4 c5 c6 c7 c8 c9 show ?thesis by blast
qed


theorem sort_record_consistency_witness:
  "distinct (map mol_id (data ex_sort_topology))
   \<and> map mol_id (data (Topology_sort ex_sort_topology)) = [1, 2]
   \<and> concat (map (\<lambda>m. map atom_id (atoms m)) (data (Topology_sort ex_sort_topology))) = [1, 2, 3]
   \<and> map fst (reactedMoleculeRecords (Topology_sort ex_sort_topology)) = [2]
   \<and> getReactionRecordMolecule (Topology_sort ex_sort_topology) 2 = Inr 1
   \<and> mol_name (data (Topology_sort ex_sort_topology) ! 0) = ''A''
   \<and> reactedAtomRecords (Topology_sort ex_sort_topology) = [(2, 1), (3, 2)]"
proof -
  have d: "distinct (map mol_id (data ex_sort_topology))"
    by (simp add: ex_sort_topology_def)
  have s: "stable_sort_by_name (data ex_sort_topology) ! 0 = data ex_sort_topology ! 1"
    by (simp add: ex_sort_topology_def stable_sort_by_name_def)
  have n: "getNAtoms ex_sort_topology = 3" "length (data ex_sort_topology) = 2"
    "reactedMoleculeRecords ex_sort_topology = [(2,2)]"
    "mol_id (data ex_sort_topology ! Suc 0) = 2" "mol_name (data ex_sort_topology ! Suc 0) = ''A''"
    by (simp_all add: ex_sort_topology_def getNAtoms_def)
  have u: "[Suc 0..<3] = [Suc 0, 2]" "[Suc 0..<4] = [Suc 0, 2, 3]" by code_simp+
  from sort_record_consistency[OF d] have
    a: "map mol_id (data (Topology_sort ex_sort_topology)) = [1 ..< Suc (length (data ex_sort_topology))]"
    and b: "concat (map (\<lambda>m. map atom_id (atoms m)) (data (Topology_sort ex_sort_topology)))
            = [1 ..< Suc (getNAtoms ex_sort_topology)]"
    and c: "map fst (reactedMoleculeRecords (Topology_sort ex_sort_topology)) = map fst (reactedMoleculeRecords ex_sort_topology)"
    and e: "\<forall>i < length (data ex_sort_topology).
            mol_id (stable_sort_by_name (data ex_sort_topology) ! i) \<in> fst ` set (reactedMoleculeRecords ex_sort_topology) \<longrightarrow>
              getReactionRecordMolecule (Topology_sort ex_sort_topology) (mol_id (stable_sort_by_name (data ex_sort_topology) ! i))
                = Inr (Suc i)
              \<and> mol_id (data (Topology_sort ex_sort_topology) ! i) = Suc i
              \<and> forget_ids (data (Topology_sort ex_sort_topology) ! i) = forget_ids (stable_sort_by_name (data ex_sort_topology) ! i)"
    by blast+
  from e[rule_format, of 0] have
    f: "getReactionRecordMolecule (Topology_sort ex_sort_topology) 2 = Inr 1"
    and g: "forget_ids (data (Topology_sort ex_sort_topology) ! 0) = forget_ids (data ex_sort_topology ! Suc 0)"
    by (simp_all add: s n)
  from g have "mol_name (data (Topology_sort ex_sort_topology) ! 0) = ''A''"
    using forget_ids_name n(5) by metis
  moreover have "reactedAtomRecords (Topology_sort ex_sort_topology) = [(2, 1), (3, 2)]"
    by (simp add: ex_sorted)
  ultimately show ?thesis using d a b c f by (simp add: n u)
qed

text \<open>
  The property does not extend to a second sort. There the search still compares the
  keys with the ids the molecules carry when sort starts, which are now the ids of the
  first sort: the record of the reacted molecule A (key 2, value 1 after the first sort)
  is rewritten to the id of B, the molecule that carries id 2 by then.
\<close>

theorem sort_again_counterexample:
  "getReactionRecordMolecule (Topology_sort ex_sort_topology) 2 = Inr 1
   \<and> map mol_name (filter (\<lambda>m. mol_id m = 1) (data (Topology_sort ex_sort_topology))) = [''A'']
   \<and> getReactionRecordMolecule (Topology_sort (Topology_sort ex_sort_topology)) 2 = Inr 2
   \<and> map mol_name (filter (\<lambda>m. mol_id m = 2) (data (Topology_sort (Topology_sort ex_sort_topology)))) = [''B'']
   \<and> map mol_id (filter (\<lambda>m. mol_name m = ''A'') (data (Topology_sort (Topology_sort ex_sort_topology)))) = [1]"
  unfolding ex_sorted2 unfolding ex_sorted
  by (simp add: getReactionRecordMolecule_def)


subsection \<open>Topology: the cell list\<close>


lemma append_at_length [simp]: "length (append_at n xs v) = length v"
  by (simp add: append_at_def)

lemma append_at_nth: "c < length v \<Longrightarrow> append_at n xs v ! c = (if c = n then v ! c @ xs else v ! c)"
  by (simp add: append_at_def)

lemma append_at_twice: "n < length v \<Longrightarrow> append_at n ys (append_at n xs v) = append_at n (xs @ ys) v"
  by (simp add: append_at_def)

lemma append_at_Nil: "append_at n [] v = v"
  by (simp add: append_at_def)

lemma fold_append_at:
  "n < length v \<Longrightarrow> fold (\<lambda>x. append_at n (F x)) xs v = append_at n (concat (map F xs)) v"
proof (induction xs arbitrary: v)
  case Nil then show ?case by (simp add: append_at_Nil)
next
  case (Cons x xs)
  have "fold (\<lambda>x. append_at n (F x)) (x # xs) v
          = fold (\<lambda>x. append_at n (F x)) xs (append_at n (F x) v)" by simp
  also have "\<dots> = append_at n (concat (map F xs)) (append_at n (F x) v)"
    using Cons.prems by (intro Cons.IH) simp
  also have "\<dots> = append_at n (F x @ concat (map F xs)) v"
    using Cons.prems by (rule append_at_twice)
  finally show ?case by simp
qed

lemma push_neighbour_append_at: "push_neighbour I e = append_at (nat I) [e]"
  by (simp add: push_neighbour_def append_at_def fun_eq_iff)

lemma cell_neighbours_append_at:
  assumes "nat (linear_index t i j k) < length v"
  shows "cell_neighbours t i j k v = append_at (nat (linear_index t i j k)) (code_neighbours t i j k) v"
proof -
  obtain Nx Ny Nz where cn: "CellNumbers t = (Nx, Ny, Nz)" by (cases "CellNumbers t")
  have l: "i + j * Nx + k * Nx * Ny = linear_index t i j k" by (simp add: linear_index_def cn)
  have l': "\<And>a b c. a + b * Nx + c * Nx * Ny = linear_index t a b c" by (simp add: linear_index_def cn)
  show ?thesis
    unfolding cell_neighbours_def cn prod.case l l' push_neighbour_append_at code_neighbours_def
    using assms
    by (simp add: append_at_twice)
qed


lemma linear_index_range:
  assumes "CellNumbers t = (Nx, Ny, Nz)"
    and "0 \<le> i" "i < Nx" "0 \<le> j" "j < Ny" "0 \<le> k" "k < Nz"
  shows "0 \<le> linear_index t i j k \<and> linear_index t i j k < Nx * Ny * Nz"
proof -
  have l: "linear_index t i j k = i + Nx * (j + Ny * k)"
    by (simp add: linear_index_def assms(1) algebra_simps)
  have "Ny * k \<le> Ny * (Nz - 1)" using assms by (intro mult_left_mono) auto
  then have "j + Ny * k \<le> Ny * Nz - 1" using assms by (simp add: algebra_simps)
  then have "Nx * (j + Ny * k) \<le> Nx * (Ny * Nz - 1)" using assms by (intro mult_left_mono) auto
  then have "i + Nx * (j + Ny * k) < Nx * Ny * Nz" using assms by (simp add: algebra_simps)
  moreover have "0 \<le> i + Nx * (j + Ny * k)" using assms by simp
  ultimately show ?thesis unfolding l by simp
qed

lemma mixed_radix_inj:
  fixes a b q r n :: int
  assumes "0 \<le> a" "a < n" "0 \<le> b" "b < n" "a + n * q = b + n * r"
  shows "a = b \<and> q = r"
proof -
  have "(a + n * q) mod n = a mod n" "(b + n * r) mod n = b mod n" by simp_all
  moreover have "a mod n = a" "b mod n = b" using assms by simp_all
  ultimately have ab: "a = b" using assms(5) by metis
  with assms have "n * q = n * r" by simp
  moreover have "n \<noteq> 0" using assms by auto
  ultimately show ?thesis using ab by simp
qed

lemma linear_index_inj:
  assumes cn: "CellNumbers t = (Nx, Ny, Nz)"
    and "0 \<le> i" "i < Nx" "0 \<le> j" "j < Ny"
    and "0 \<le> i'" "i' < Nx" "0 \<le> j'" "j' < Ny"
    and eq: "linear_index t i j k = linear_index t i' j' k'"
  shows "i = i' \<and> j = j' \<and> k = k'"
proof -
  have "i + Nx * (j + Ny * k) = i' + Nx * (j' + Ny * k')"
    using eq by (simp add: linear_index_def cn algebra_simps)
  from mixed_radix_inj[OF assms(2,3,6,7) this] have i: "i = i'" and "j + Ny * k = j' + Ny * k'"
    by simp_all
  from mixed_radix_inj[OF assms(4,5,8,9) this(2)] i show ?thesis by simp
qed

lemma fold_untouched:
  assumes "\<And>x v. x \<in> set xs \<Longrightarrow> length v = N \<Longrightarrow> length (h x v) = N \<and> h x v ! c = v ! c"
    and "length v = N"
  shows "length (fold h xs v) = N \<and> fold h xs v ! c = v ! c"
  using assms
proof (induction xs arbitrary: v)
  case Nil then show ?case by simp
next
  case (Cons x xs)
  have 1: "length (h x v) = N \<and> h x v ! c = v ! c" using Cons.prems by simp
  have "length (fold h xs (h x v)) = N \<and> fold h xs (h x v) ! c = h x v ! c"
    using Cons.prems(1) 1 by (intro Cons.IH) simp_all
  with 1 show ?case by simp
qed

lemma fold_touched_once:
  fixes h :: "'a \<Rightarrow> 'b list list \<Rightarrow> 'b list list"
  assumes "x0 \<in> set xs" "distinct xs"
    and "\<And>x v. x \<in> set xs \<Longrightarrow> x \<noteq> x0 \<Longrightarrow> length v = N \<Longrightarrow> length (h x v) = N \<and> h x v ! c = v ! c"
    and "\<And>v. length v = N \<Longrightarrow> length (h x0 v) = N \<and> h x0 v ! c = v ! c @ S"
    and "length v = N"
  shows "length (fold h xs v) = N \<and> fold h xs v ! c = v ! c @ S"
  using assms
proof (induction xs arbitrary: v)
  case Nil then show ?case by simp
next
  case (Cons x xs)
  show ?case
  proof (cases "x = x0")
    case True
    then have notin: "x0 \<notin> set xs" using Cons.prems(2) by simp
    have 1: "length (h x0 v) = N \<and> h x0 v ! c = v ! c @ S" using Cons.prems(4,5) by simp
    have "length (fold h xs (h x0 v)) = N \<and> fold h xs (h x0 v) ! c = h x0 v ! c"
    proof (rule fold_untouched)
      fix y and w :: "'b list list" assume "y \<in> set xs" "length w = N"
      then show "length (h y w) = N \<and> h y w ! c = w ! c"
        using Cons.prems(3)[of y w] notin by auto
    qed (use 1 in simp)
    with 1 True show ?thesis by simp
  next
    case False
    then have in': "x0 \<in> set xs" using Cons.prems(1) by simp
    have 1: "length (h x v) = N \<and> h x v ! c = v ! c" using Cons.prems(3)[of x v] False Cons.prems(5) by simp
    have "length (fold h xs (h x v)) = N \<and> fold h xs (h x v) ! c = h x v ! c @ S"
      using in' Cons.prems(2,3,4) 1 by (intro Cons.IH) simp_all
    with 1 show ?thesis by simp
  qed
qed


lemma neighbour_loops_nth:
  assumes cn: "CellNumbers t = (Nx, Ny, Nz)"
    and i0: "0 \<le> i0" "i0 < Nx" and j0: "0 \<le> j0" "j0 < Ny" and k0: "0 \<le> k0" "k0 < Nz"
    and len: "length v = nat (Nx * Ny * Nz)"
  shows "length (neighbour_loops t v) = nat (Nx * Ny * Nz)
       \<and> neighbour_loops t v ! nat (linear_index t i0 j0 k0)
           = v ! nat (linear_index t i0 j0 k0) @ code_neighbours t i0 j0 k0"
proof -
  let ?N = "nat (Nx * Ny * Nz)"
  let ?c = "nat (linear_index t i0 j0 k0)"
  let ?S = "code_neighbours t i0 j0 k0"
  have c: "?c < ?N" using linear_index_range[OF cn i0 j0 k0] by simp
  have base: "length (cell_neighbours t i j k w) = ?N
              \<and> cell_neighbours t i j k w ! ?c
                  = (if i = i0 \<and> j = j0 \<and> k = k0 then w ! ?c @ ?S else w ! ?c)"
    if "0 \<le> i" "i < Nx" "0 \<le> j" "j < Ny" "0 \<le> k" "k < Nz" "length w = ?N"
    for i j k and w :: "int list list"
  proof -
    have r: "0 \<le> linear_index t i j k" "linear_index t i j k < Nx * Ny * Nz"
      using linear_index_range[OF cn that(1-6)] by simp_all
    then have lt: "nat (linear_index t i j k) < length w" using that(7) by simp
    have eq: "?c = nat (linear_index t i j k) \<longleftrightarrow> i = i0 \<and> j = j0 \<and> k = k0"
    proof
      assume "?c = nat (linear_index t i j k)"
      then have "linear_index t i j k = linear_index t i0 j0 k0"
        using r linear_index_range[OF cn i0 j0 k0] by (metis nat_eq_iff2 int_nat_eq)
      from linear_index_inj[OF cn that(1-4) i0 j0 this] show "i = i0 \<and> j = j0 \<and> k = k0" .
    qed simp
    show ?thesis
      unfolding cell_neighbours_append_at[OF lt]
      using c that(7) eq by (simp add: append_at_nth)
  qed
  let ?row = "\<lambda>j k. fold (\<lambda>i. cell_neighbours t i j k) [0 .. Nx - 1]"
  have row_other: "length (?row j k w) = ?N \<and> ?row j k w ! ?c = w ! ?c"
    if "0 \<le> j" "j < Ny" "0 \<le> k" "k < Nz" "\<not> (j = j0 \<and> k = k0)" "length w = ?N"
    for j k and w :: "int list list"
  proof (rule fold_untouched[OF _ that(6)])
    fix x and u :: "int list list" assume "x \<in> set [0 .. Nx - 1]" "length u = ?N"
    then show "length (cell_neighbours t x j k u) = ?N \<and> cell_neighbours t x j k u ! ?c = u ! ?c"
      using base[of x j k u] that by auto
  qed
  have row_hit: "length (?row j0 k0 w) = ?N \<and> ?row j0 k0 w ! ?c = w ! ?c @ ?S"
    if "length w = ?N" for w :: "int list list"
  proof (rule fold_touched_once[where ?x0.0 = i0, OF _ _ _ _ that])
    show "i0 \<in> set [0 .. Nx - 1]" using i0 by simp
    show "distinct [0 .. Nx - 1]" by simp
  next
    fix x and u :: "int list list"
    assume "x \<in> set [0 .. Nx - 1]" "x \<noteq> i0" "length u = ?N"
    then show "length (cell_neighbours t x j0 k0 u) = ?N \<and> cell_neighbours t x j0 k0 u ! ?c = u ! ?c"
      using base[of x j0 k0 u] j0 k0 by auto
  next
    fix u :: "int list list" assume "length u = ?N"
    then show "length (cell_neighbours t i0 j0 k0 u) = ?N
               \<and> cell_neighbours t i0 j0 k0 u ! ?c = u ! ?c @ ?S"
      using base[of i0 j0 k0 u] i0 j0 k0 by auto
  qed
  let ?plane = "\<lambda>k. fold (\<lambda>j. ?row j k) [0 .. Ny - 1]"
  have plane_other: "length (?plane k w) = ?N \<and> ?plane k w ! ?c = w ! ?c"
    if "0 \<le> k" "k < Nz" "k \<noteq> k0" "length w = ?N" for k and w :: "int list list"
  proof (rule fold_untouched[OF _ that(4)])
    fix x and u :: "int list list" assume "x \<in> set [0 .. Ny - 1]" "length u = ?N"
    then show "length (?row x k u) = ?N \<and> ?row x k u ! ?c = u ! ?c"
      using row_other[of x k u] that by auto
  qed
  have plane_hit: "length (?plane k0 w) = ?N \<and> ?plane k0 w ! ?c = w ! ?c @ ?S"
    if "length w = ?N" for w :: "int list list"
  proof (rule fold_touched_once[where ?x0.0 = j0, OF _ _ _ _ that])
    show "j0 \<in> set [0 .. Ny - 1]" using j0 by simp
    show "distinct [0 .. Ny - 1]" by simp
  next
    fix x and u :: "int list list"
    assume "x \<in> set [0 .. Ny - 1]" "x \<noteq> j0" "length u = ?N"
    then show "length (?row x k0 u) = ?N \<and> ?row x k0 u ! ?c = u ! ?c"
      using row_other[of x k0 u] k0 by auto
  next
    fix u :: "int list list" assume "length u = ?N"
    then show "length (?row j0 k0 u) = ?N \<and> ?row j0 k0 u ! ?c = u ! ?c @ ?S"
      by (rule row_hit)
  qed
  have "length (fold ?plane [0 .. Nz - 1] v) = ?N \<and> fold ?plane [0 .. Nz - 1] v ! ?c = v ! ?c @ ?S"
  proof (rule fold_touched_once[where ?x0.0 = k0, OF _ _ _ _ len])
    show "k0 \<in> set [0 .. Nz - 1]" using k0 by simp
    show "distinct [0 .. Nz - 1]" by simp
  next
    fix x and u :: "int list list"
    assume "x \<in> set [0 .. Nz - 1]" "x \<noteq> k0" "length u = ?N"
    then show "length (?plane x u) = ?N \<and> ?plane x u ! ?c = u ! ?c"
      using plane_other[of x u] by auto
  next
    fix u :: "int list list" assume "length u = ?N"
    then show "length (?plane k0 u) = ?N \<and> ?plane k0 u ! ?c = u ! ?c @ ?S"
      by (rule plane_hit)
  qed
  then show ?thesis by (simp add: neighbour_loops_def cn)
qed



lemma wrap_right:
  fixes n N :: int
  assumes "0 \<le> n" "n < N"
  shows "(n + 1) * heaviside (N - 1 - n) = (n + 1) mod N"
proof (cases "n < N - 1")
  case True
  with assms show ?thesis by (simp add: heaviside_def)
next
  case False
  with assms have "n + 1 = N" by simp
  then show ?thesis by (simp add: heaviside_def)
qed

lemma wrap_left:
  fixes n N :: int
  assumes "0 \<le> n" "n < N"
  shows "(n - 1) * heaviside n + (N - 1) * heaviside (1 - n) = (n - 1) mod N"
proof (cases "n = 0")
  case True
  with assms have "0 < N" by simp
  then have "(- 1) mod N = N - 1" by (metis diff_0 zmod_minus1)
  with True show ?thesis by (simp add: heaviside_def)
next
  case False
  with assms show ?thesis by (simp add: heaviside_def)
qed

lemma right_mod: "0 \<le> n \<Longrightarrow> n < fst (CellNumbers t) \<Longrightarrow> right t n = (n + 1) mod fst (CellNumbers t)"
  unfolding right_def by (rule wrap_right)

lemma left_mod: "0 \<le> n \<Longrightarrow> n < fst (CellNumbers t) \<Longrightarrow> left t n = (n - 1) mod fst (CellNumbers t)"
  unfolding left_def by (rule wrap_left)

lemma up_mod: "0 \<le> n \<Longrightarrow> n < snd (snd (CellNumbers t)) \<Longrightarrow> up t n = (n + 1) mod snd (snd (CellNumbers t))"
  unfolding up_def by (rule wrap_right)

lemma down_mod: "0 \<le> n \<Longrightarrow> n < snd (snd (CellNumbers t)) \<Longrightarrow> down t n = (n - 1) mod snd (snd (CellNumbers t))"
  unfolding down_def by (rule wrap_left)

lemma getCellList_neighbours:
  assumes cn: "CellNumbers t = (Nx, Ny, Nz)"
    and "0 \<le> i" "i < Nx" "0 \<le> j" "j < Ny" "0 \<le> k" "k < Nz"
    and ok: "getCellList R t = Inr (cells, nbrs)"
  shows "nbrs ! nat (linear_index t i j k) = code_neighbours t i j k"
proof -
  have n: "nbrs = neighbour_loops t (replicate (cell_count t) [])"
    using ok by (auto simp: getCellList_def split: sum.splits)
  have c: "nat (linear_index t i j k) < nat (Nx * Ny * Nz)"
    using linear_index_range[OF cn assms(2-7)] by simp
  have "length (replicate (cell_count t) ([] :: int list)) = nat (Nx * Ny * Nz)"
    by (simp add: cell_count_def cn)
  from neighbour_loops_nth[OF cn assms(2-7) this] c show ?thesis
    unfolding n by (simp add: cell_count_def cn)
qed

lemma code_neighbours_square_grid:
  assumes cn: "CellNumbers t = (Nx, Nx, Nz)"
    and "0 \<le> i" "i < Nx" "0 \<le> j" "j < Nx" "0 \<le> k" "k < Nz"
  shows "code_neighbours t i j k = spec_neighbours t i j k"
  using assms right_mod[of i t] right_mod[of j t] left_mod[of i t] left_mod[of j t]
    up_mod[of k t] down_mod[of k t]
  by (simp add: code_neighbours_def spec_neighbours_def)

text \<open>
  C1. On a grid of 1 x 2 x 1 cells the neighbour list that getCellList builds for the
  cell (0, 0, 0) holds 27 times the index 0: the y neighbours are taken with the helpers
  that wrap at Nx = 1. The stencil with the y wrap-around at Ny = 2 holds the index 1 of
  the cell (0, 1, 0), which the list of the code lacks.
\<close>

theorem getCellList_y_neighbours_wrap_at_Nx:
  "map_sum id (\<lambda>(cells, nbrs). nbrs ! nat (linear_index (ex_grid (1, 2, 1)) 0 0 0))
       (getCellList R (ex_grid (1, 2, 1))) = Inr (replicate 27 0)
   \<and> spec_neighbours (ex_grid (1, 2, 1)) 0 0 0
       = [0, 0, 0, 1, 1, 1, 1, 1, 1, 0, 0, 0, 1, 1, 1, 1, 1, 1, 0, 0, 0, 1, 1, 1, 1, 1, 1]
   \<and> code_neighbours (ex_grid (1, 2, 1)) 0 0 0 = replicate 27 0"
proof -
  have cn: "CellNumbers (ex_grid (1, 2, 1)) = (1, 2, 1)" by (simp add: ex_grid_def)
  have c: "code_neighbours (ex_grid (1, 2, 1)) 0 0 0 = replicate 27 0"
    by (simp add: code_neighbours_def linear_index_def right_def left_def up_def down_def
        heaviside_def cn eval_nat_numeral)
  have s: "spec_neighbours (ex_grid (1, 2, 1)) 0 0 0
       = [0, 0, 0, 1, 1, 1, 1, 1, 1, 0, 0, 0, 1, 1, 1, 1, 1, 1, 0, 0, 0, 1, 1, 1, 1, 1, 1]"
    by (simp add: spec_neighbours_def linear_index_def cn)
  obtain cells nbrs where g: "getCellList R (ex_grid (1, 2, 1)) = Inr (cells, nbrs)"
    by (simp add: getCellList_def ex_grid_def)
  from getCellList_neighbours[OF cn _ _ _ _ _ _ g, of 0 0 0] c
  have "nbrs ! nat (linear_index (ex_grid (1, 2, 1)) 0 0 0) = replicate 27 0" by simp
  with g c s show ?thesis by simp
qed


subsection \<open>Universe: candidate enumeration\<close>

lemma length_fold_preserve:
  "(\<And>x v. length (f x v) = length v) \<Longrightarrow> length (fold f xs v) = length v"
  by (induction xs arbitrary: v) simp_all

lemma length_cell_neighbours: "length (cell_neighbours t i j k v) = length v"
proof -
  obtain Nx Ny Nz where cn: "CellNumbers t = (Nx, Ny, Nz)" by (cases "CellNumbers t")
  show ?thesis unfolding cell_neighbours_def cn by (simp add: push_neighbour_def)
qed

lemma length_neighbour_loops: "length (neighbour_loops t v) = length v"
proof -
  obtain Nx Ny Nz where cn: "CellNumbers t = (Nx, Ny, Nz)" by (cases "CellNumbers t")
  have a: "length (fold (\<lambda>i. cell_neighbours t i j k) xs w) = length w" for j k xs w
    by (rule length_fold_preserve) (rule length_cell_neighbours)
  have b: "length (fold (\<lambda>j. fold (\<lambda>i. cell_neighbours t i j k) xs) ys w) = length w"
    for k xs ys w
    by (rule length_fold_preserve) (rule a)
  have c: "length (fold (\<lambda>k. fold (\<lambda>j. fold (\<lambda>i. cell_neighbours t i j k) xs) ys) zs w)
             = length w" for xs ys zs w
    by (rule length_fold_preserve) (rule b)
  show ?thesis unfolding neighbour_loops_def cn by (simp add: c)
qed

lemma getCellList_neighbour_list:
  "getCellList R t = Inr (cells, nbrs) \<Longrightarrow> nbrs ! n = neighbour_list t n"
  by (auto simp: getCellList_def neighbour_list_def split: sum.splits)

lemma neighbour_list_code:
  assumes "CellNumbers t = (Nx, Ny, Nz)"
    and "0 \<le> i" "i < Nx" "0 \<le> j" "j < Ny" "0 \<le> k" "k < Nz"
  shows "neighbour_list t (nat (linear_index t i j k)) = code_neighbours t i j k"
proof -
  have c: "nat (linear_index t i j k) < nat (Nx * Ny * Nz)"
    using linear_index_range[OF assms] by simp
  have "length (replicate (cell_count t) ([] :: int list)) = nat (Nx * Ny * Nz)"
    by (simp add: cell_count_def assms(1))
  from neighbour_loops_nth[OF assms this] c show ?thesis
    by (simp add: neighbour_list_def cell_count_def assms(1))
qed

lemma concat_map_if_count:
  "concat (map (\<lambda>I. if I = c then X else []) xs) = concat (replicate (count_list xs c) X)"
  by (induction xs) simp_all

lemma bin_molecules_one_cell:
  assumes "axis (dimensions t) 0 \<noteq> 0" "axis (dimensions t) 1 \<noteq> 0" "axis (dimensions t) 2 \<noteq> 0"
    and "\<forall>m \<in> set ms. atoms m \<noteq> [] \<and> cell_index R t (hd (atoms m)) = c"
    and "0 \<le> c" "nat c < length cells"
  shows "bin_molecules R t ms cells = Inr (append_at (nat c) ms cells)"
  using assms(4,6)
proof (induction ms arbitrary: cells)
  case Nil
  then show ?case by (simp add: append_at_Nil)
next
  case (Cons m ms)
  from Cons.prems obtain a as where a: "atoms m = a # as" by (cases "atoms m") auto
  with Cons.prems have ci: "cell_index R t a = c" by auto
  have "bin_molecules R t (m # ms) cells = bin_molecules R t ms (append_at (nat c) [m] cells)"
    using a ci assms(1,2,3,5) Cons.prems(2) by (simp add: append_at_def)
  also have "\<dots> = Inr (append_at (nat c) ms (append_at (nat c) [m] cells))"
    using Cons.prems by (intro Cons.IH) simp_all
  also have "\<dots> = Inr (append_at (nat c) (m # ms) cells)"
    using Cons.prems(2) by (simp add: append_at_twice)
  finally show ?case .
qed

lemma neighbour_molecules_in_range:
  assumes "\<forall>I \<in> set idxs. 0 \<le> I \<and> nat I < length cells"
  shows "neighbour_molecules cells A idxs =
           Inr (concat (map (\<lambda>I. map (\<lambda>m. (m, I))
                  (filter (\<lambda>m. mol_name m = A) (cells ! nat I))) idxs))"
  using assms by (induction idxs) simp_all

lemma second_reactants_same_name:
  assumes "\<forall>b \<in> set ms. mol_name b = mol_name a
             \<and> valid dims 1 (updateReactant 1 b (updateReactant 0 a T))"
  shows "second_reactants valid dims T a (map (\<lambda>m. (m, c)) ms) =
           map (\<lambda>b. updateReactant 1 b (updateReactant 0 a T))
             (filter (\<lambda>b. mol_id a < mol_id b) ms)"
  using assms by (induction ms) (auto simp: second_reactants_def)

lemma first_reactants_valid:
  assumes "CellNeighbours U c (mol_name (reactants T ! 1)) = Inr r2"
    and "\<forall>a \<in> set as. valid (dimensions (topologyOld U)) 0 (updateReactant 0 a T)"
  shows "first_reactants valid U c T as =
           Inr (concat (map (\<lambda>a. second_reactants valid (dimensions (topologyOld U)) T a r2) as))"
  using assms by (induction as) simp_all

lemma second_reactants_append:
  "second_reactants valid dims T a (xs @ ys)
     = second_reactants valid dims T a xs @ second_reactants valid dims T a ys"
  by (simp add: second_reactants_def)

lemma second_reactants_replicate:
  "second_reactants valid dims T a (concat (replicate k xs))
     = concat (replicate k (second_reactants valid dims T a xs))"
  by (induction k) (simp_all add: second_reactants_append, simp add: second_reactants_def)

lemma cell_loop_empty:
  assumes "\<forall>i \<in> set xs. CellReactionCandidates valid U i = Inr []"
  shows "cell_loop valid U xs = Inr []"
  using assms by (induction xs) simp_all

lemma cell_loop_single:
  assumes "c \<in> set xs" "distinct xs"
    and "\<forall>i \<in> set xs. i \<noteq> c \<longrightarrow> CellReactionCandidates valid U i = Inr []"
    and "CellReactionCandidates valid U c = Inr X"
  shows "cell_loop valid U xs = Inr X"
  using assms(1,2,3)
proof (induction xs)
  case Nil then show ?case by simp
next
  case (Cons x xs)
  show ?case
  proof (cases "x = c")
    case True
    with Cons.prems have "\<forall>i \<in> set xs. CellReactionCandidates valid U i = Inr []" by auto
    from cell_loop_empty[OF this] True assms(4) show ?thesis by simp
  next
    case False
    with Cons.prems have "CellReactionCandidates valid U x = Inr []" "c \<in> set xs" "distinct xs"
      "\<forall>i \<in> set xs. i \<noteq> c \<longrightarrow> CellReactionCandidates valid U i = Inr []" by auto
    with Cons.IH show ?thesis by simp
  qed
qed


text \<open>
  The enumeration when all molecules of the topology carry one name and are put into one
  cell of the grid, and the neighbour list of that cell holds only cells of the grid:
  every pair is emitted as often as the cell occurs in its own neighbour list.
\<close>

lemma enumeration_one_cell:
  assumes box: "\<forall>i<3. axis (dimensions (topologyOld U)) i \<noteq> 0"
    and ms: "data (topologyOld U) = ms"
    and mols: "\<forall>m \<in> set ms. mol_name m = A \<and> atoms m \<noteq> []
                 \<and> cell_index R (topologyOld U) (hd (atoms m)) = c"
    and c: "0 \<le> c" "nat c < cell_count (topologyOld U)"
    and nbrs: "\<forall>I \<in> set (neighbour_list (topologyOld U) (nat c)).
                 0 \<le> I \<and> nat I < cell_count (topologyOld U)"
    and tmpl: "reactionTemplates U = [T]" "map mol_name (reactants T) = [A, A]"
    and valid: "\<forall>a \<in> set ms. valid (dimensions (topologyOld U)) 0 (updateReactant 0 a T)
                 \<and> (\<forall>b \<in> set ms. valid (dimensions (topologyOld U)) 1
                        (updateReactant 1 b (updateReactant 0 a T)))"
  shows "\<exists>U'. shuffle_arguments R valid U =
           Inr (U', concat (map (\<lambda>a. concat (replicate
                                   (count_list (neighbour_list (topologyOld U) (nat c)) c)
                                   (map (\<lambda>b. updateReactant 1 b (updateReactant 0 a T))
                                      (filter (\<lambda>b. mol_id a < mol_id b) ms)))) ms), [])"
proof -
  let ?t = "topologyOld U"
  let ?dims = "dimensions ?t"
  let ?n = "cell_count ?t"
  let ?nb = "neighbour_list ?t (nat c)"
  let ?k = "count_list ?nb c"
  let ?P = "\<lambda>a. map (\<lambda>b. updateReactant 1 b (updateReactant 0 a T))
                  (filter (\<lambda>b. mol_id a < mol_id b) ms)"
  let ?X = "concat (map (\<lambda>a. concat (replicate ?k (?P a))) ms)"
  let ?cells = "append_at (nat c) ms (replicate ?n [])"
  let ?nbrs = "neighbour_loops ?t (replicate ?n [])"
  have nz: "axis ?dims 0 \<noteq> 0" "axis ?dims 1 \<noteq> 0" "axis ?dims 2 \<noteq> 0"
    using box by simp_all
  have bin: "bin_molecules R ?t ms (replicate ?n []) = Inr ?cells"
    using mols c by (intro bin_molecules_one_cell[OF nz]) simp_all
  have g: "getCellList R ?t = Inr (?cells, ?nbrs)"
    by (simp add: getCellList_def ms bin)
  have len: "length ?cells = ?n" by simp
  have cell_at: "?cells ! m = (if m = nat c then ms else [])" if "m < ?n" for m
    using that c(2) by (auto simp: append_at_nth)
  have nb: "length ?nbrs = ?n" "?nbrs ! nat c = ?nb"
    by (simp_all add: length_neighbour_loops neighbour_list_def)
  let ?U = "U\<lparr>CellList := ?cells, CellNeighbourIndices := ?nbrs\<rparr>"
  have names: "mol_name (reactants T ! 0) = A" "mol_name (reactants T ! 1) = A"
    "length (reactants T) = 2"
  proof -
    from tmpl(2) have l: "length (reactants T) = 2"
      by (metis length_map length_Cons list.size(3) numeral_2_eq_2)
    from tmpl(2) l have "map mol_name (reactants T) ! 0 = A" "map mol_name (reactants T) ! 1 = A"
      by simp_all
    with l show "mol_name (reactants T ! 0) = A" "mol_name (reactants T ! 1) = A"
      "length (reactants T) = 2" by simp_all
  qed
  have names1: "mol_name (reactants T ! Suc 0) = A" using names(2) by simp
  have other: "CellReactionCandidates valid ?U m = Inr []" if "m < ?n" "m \<noteq> nat c" for m
    using that cell_at[of m]
    by (simp add: CellReactionCandidates_def tmpl(1) names Cell_def)
  have cell_c: "Cell ?U (nat c) A = Inr ms"
    using c(2) cell_at[of "nat c"] mols by (simp add: Cell_def)
  have "neighbour_molecules ?cells A ?nb
          = Inr (concat (map (\<lambda>I. map (\<lambda>m. (m, I))
                  (filter (\<lambda>m. mol_name m = A) (?cells ! nat I))) ?nb))"
  proof (rule neighbour_molecules_in_range, rule ballI)
    fix I assume "I \<in> set ?nb"
    with nbrs show "0 \<le> I \<and> nat I < length ?cells" by simp
  qed
  also have "concat (map (\<lambda>I. map (\<lambda>m. (m, I))
                  (filter (\<lambda>m. mol_name m = A) (?cells ! nat I))) ?nb)
           = concat (map (\<lambda>I. if I = c then map (\<lambda>m. (m, c)) ms else []) ?nb)"
  proof (rule arg_cong[where f = concat], rule map_cong[OF refl])
    fix I assume "I \<in> set ?nb"
    with nbrs have I: "0 \<le> I" "nat I < ?n" by auto
    from cell_at[OF I(2)] have "?cells ! nat I = (if I = c then ms else [])"
      using I(1) c(1) by (simp add: nat_eq_iff)
    then show "map (\<lambda>m. (m, I)) (filter (\<lambda>m. mol_name m = A) (?cells ! nat I))
             = (if I = c then map (\<lambda>m. (m, c)) ms else [])"
      using mols by simp
  qed
  finally have nm: "neighbour_molecules ?cells A ?nb
                      = Inr (concat (replicate ?k (map (\<lambda>m. (m, c)) ms)))"
    by (simp only: concat_map_if_count)
  have cnb: "CellNeighbours ?U (nat c) (mol_name (reactants T ! 1))
               = Inr (concat (replicate ?k (map (\<lambda>m. (m, c)) ms)))"
    using c(2) nb nm by (simp add: CellNeighbours_def names names1)
  have v0: "\<forall>a \<in> set ms. valid (dimensions (topologyOld ?U)) 0 (updateReactant 0 a T)"
    using valid by simp
  have sec: "second_reactants valid ?dims T a (concat (replicate ?k (map (\<lambda>m. (m, c)) ms)))
               = concat (replicate ?k (?P a))" if "a \<in> set ms" for a
  proof -
    have "second_reactants valid ?dims T a (map (\<lambda>m. (m, c)) ms) = ?P a"
      using that valid mols by (intro second_reactants_same_name) simp
    then show ?thesis by (simp only: second_reactants_replicate)
  qed
  have "first_reactants valid ?U (nat c) T ms
          = Inr (concat (map (\<lambda>a. second_reactants valid (dimensions (topologyOld ?U)) T a
                                   (concat (replicate ?k (map (\<lambda>m. (m, c)) ms)))) ms))"
    using cnb v0 by (rule first_reactants_valid[where valid = valid and as = ms])
  also have "concat (map (\<lambda>a. second_reactants valid (dimensions (topologyOld ?U)) T a
                                   (concat (replicate ?k (map (\<lambda>m. (m, c)) ms)))) ms) = ?X"
    by (rule arg_cong[where f = concat], rule map_cong[OF refl]) (simp add: sec)
  finally have fr: "first_reactants valid ?U (nat c) T ms = Inr ?X" .
  have at_c: "CellReactionCandidates valid ?U (nat c) = Inr ?X"
    using cell_c fr by (simp add: CellReactionCandidates_def tmpl(1) names names1)
  have "cell_loop valid ?U [0 ..< length ?cells] = Inr ?X"
  proof (rule cell_loop_single[where c = "nat c"])
    show "nat c \<in> set [0 ..< length ?cells]" using c(2) by simp
    show "distinct [0 ..< length ?cells]" by simp
    show "\<forall>m \<in> set [0 ..< length ?cells]. m \<noteq> nat c \<longrightarrow> CellReactionCandidates valid ?U m = Inr []"
      using other by simp
    show "CellReactionCandidates valid ?U (nat c) = Inr ?X" by (rule at_c)
  qed
  then have "shuffle_arguments R valid U = Inr (?U, ?X, [])"
    by (simp add: shuffle_arguments_def g)
  then show ?thesis by blast
qed

text \<open>
  Where the condition on the neighbour list holds: on every grid with the same number of
  cells, at least two, along x and y and at least two cells along z, for every cell.
\<close>

lemma wrap_neighbours:
  fixes n N :: int
  assumes "0 \<le> n" "n < N" "2 \<le> N"
  shows "0 \<le> (n + 1) * heaviside (N - 1 - n)" "(n + 1) * heaviside (N - 1 - n) < N"
    "(n + 1) * heaviside (N - 1 - n) \<noteq> n"
    "0 \<le> (n - 1) * heaviside n + (N - 1) * heaviside (1 - n)"
    "(n - 1) * heaviside n + (N - 1) * heaviside (1 - n) < N"
    "(n - 1) * heaviside n + (N - 1) * heaviside (1 - n) \<noteq> n"
  using assms by (auto simp: heaviside_def)

lemma code_neighbours_own_cell:
  assumes cn: "CellNumbers t = (N, N, Nz)" and N: "2 \<le> N" "2 \<le> Nz"
    and i: "0 \<le> i" "i < N" and j: "0 \<le> j" "j < N" and k: "0 \<le> k" "k < Nz"
  shows "(\<forall>I \<in> set (code_neighbours t i j k). 0 \<le> I \<and> I < N * N * Nz)
       \<and> concat (map (\<lambda>I. if I = linear_index t i j k then X else []) (code_neighbours t i j k)) = X"
proof -
  let ?ri = "right t i" and ?li = "left t i" and ?rj = "right t j" and ?lj = "left t j"
  let ?uk = "up t k" and ?dk = "down t k"
  have ri: "0 \<le> ?ri" "?ri < N" "?ri \<noteq> i" and li: "0 \<le> ?li" "?li < N" "?li \<noteq> i"
    using wrap_neighbours[OF i N(1)] by (simp_all add: right_def left_def cn)
  have rj: "0 \<le> ?rj" "?rj < N" "?rj \<noteq> j" and lj: "0 \<le> ?lj" "?lj < N" "?lj \<noteq> j"
    using wrap_neighbours[OF j N(1)] by (simp_all add: right_def left_def cn)
  have uk: "0 \<le> ?uk" "?uk < Nz" "?uk \<noteq> k" and dk: "0 \<le> ?dk" "?dk < Nz" "?dk \<noteq> k"
    using wrap_neighbours[OF k N(2)] by (simp_all add: up_def down_def cn)
  have rng: "0 \<le> linear_index t a b c \<and> linear_index t a b c < N * N * Nz"
    if "a \<in> {i, ?ri, ?li}" "b \<in> {j, ?rj, ?lj}" "c \<in> {k, ?uk, ?dk}" for a b c
    using that i j k ri li rj lj uk dk by (intro linear_index_range[OF cn]) auto
  have eq: "(linear_index t a b c = linear_index t i j k) = (a = i \<and> b = j \<and> c = k)"
    if "a \<in> {i, ?ri, ?li}" "b \<in> {j, ?rj, ?lj}" for a b c
  proof
    assume e: "linear_index t a b c = linear_index t i j k"
    have "0 \<le> a" "a < N" "0 \<le> b" "b < N" using that i j ri li rj lj by auto
    from linear_index_inj[OF cn this i j e] show "a = i \<and> b = j \<and> c = k" .
  qed simp
  have 1: "\<forall>I \<in> set (code_neighbours t i j k). 0 \<le> I \<and> I < N * N * Nz"
    unfolding code_neighbours_def using rng by simp
  have 2: "concat (map (\<lambda>I. if I = linear_index t i j k then X else []) (code_neighbours t i j k)) = X"
    unfolding code_neighbours_def using ri(3) li(3) rj(3) lj(3) uk(3) dk(3) by (simp add: eq)
  from 1 2 show ?thesis by simp
qed


lemma int_div_less:
  fixes c n m :: int
  assumes "0 < n" "c < n * m"
  shows "c div n < m"
proof (rule ccontr)
  assume "\<not> c div n < m"
  then have "m \<le> c div n" by simp
  then have "n * m \<le> n * (c div n)" using assms(1) by (simp add: mult_left_mono)
  moreover have "c = n * (c div n) + c mod n" by simp
  moreover have "0 \<le> c mod n" using assms(1) by simp
  ultimately show False using assms(2) by linarith
qed

lemma linear_index_decompose:
  fixes c :: int
  assumes cn: "CellNumbers t = (Nx, Ny, Nz)" and pos: "0 < Nx" "0 < Ny"
    and c: "0 \<le> c" "c < Nx * Ny * Nz"
  obtains i j k where "c = linear_index t i j k"
    "0 \<le> i" "i < Nx" "0 \<le> j" "j < Ny" "0 \<le> k" "k < Nz"
proof -
  let ?i = "c mod Nx" and ?j = "(c div Nx) mod Ny" and ?k = "(c div Nx) div Ny"
  have 1: "c = ?i + Nx * (c div Nx)" by simp
  have 2: "c div Nx = ?j + Ny * ?k" by simp
  have alg: "a + n * (b + m * k) = a + b * n + k * n * m" for a b n m k :: int
    by (simp add: algebra_simps)
  have li: "linear_index t a b k = a + b * Nx + k * Nx * Ny" for a b k
    by (simp add: linear_index_def cn)
  have "c = ?i + Nx * (?j + Ny * ?k)" by (subst 2[symmetric]) (rule 1)
  then have e: "c = linear_index t ?i ?j ?k"
    unfolding li alg .
  have i: "0 \<le> ?i" "?i < Nx" using pos by simp_all
  have j: "0 \<le> ?j" "?j < Ny" using pos by simp_all
  have "0 \<le> c div Nx" using c(1) pos(1) by (simp add: pos_imp_zdiv_nonneg_iff)
  then have k0: "0 \<le> ?k" using pos(2) by (simp add: pos_imp_zdiv_nonneg_iff)
  have "c < Nx * (Ny * Nz)" using c(2) by (simp add: mult.assoc)
  then have "c div Nx < Ny * Nz" by (rule int_div_less[OF pos(1)])
  then have k1: "?k < Nz" by (rule int_div_less[OF pos(2)])
  from e i j k0 k1 show ?thesis by (rule that)
qed

lemma square_grid_neighbour_list:
  assumes cn: "CellNumbers t = (N, N, Nz)" and N: "2 \<le> N" "2 \<le> Nz"
    and c: "0 \<le> c" "nat c < cell_count t"
  shows "(\<forall>I \<in> set (neighbour_list t (nat c)). 0 \<le> I \<and> nat I < cell_count t)
       \<and> count_list (neighbour_list t (nat c)) c = 1"
proof -
  have cc: "cell_count t = nat (N * N * Nz)" by (simp add: cell_count_def cn)
  have pos: "0 < N" using N by simp
  have "c < N * N * Nz" using c cc by simp
  from linear_index_decompose[OF cn pos pos c(1) this]
  obtain i j k where e: "c = linear_index t i j k"
    and i: "0 \<le> i" "i < N" and j: "0 \<le> j" "j < N" and k: "0 \<le> k" "k < Nz"
    by metis
  have nl: "neighbour_list t (nat c) = code_neighbours t i j k"
    unfolding e by (rule neighbour_list_code[OF cn i j k])
  from code_neighbours_own_cell[OF cn N i j k, of "[()]"]
  have r: "\<forall>I \<in> set (code_neighbours t i j k). 0 \<le> I \<and> I < N * N * Nz"
    and o: "concat (map (\<lambda>I. if I = c then [()] else []) (code_neighbours t i j k)) = [()]"
    unfolding e by simp_all
  from o have "length (concat (replicate (count_list (code_neighbours t i j k) c) [()])) = 1"
    by (simp only: concat_map_if_count) simp
  then have "count_list (code_neighbours t i j k) c = 1"
    by (simp add: length_concat sum_list_replicate)
  with r show ?thesis unfolding nl cc by auto
qed

lemma ex_four_cell_index:
  "\<forall>m \<in> set (data (ex_four cells)). mol_name m = ''A'' \<and> atoms m \<noteq> []"
  "\<forall>m \<in> set (data (ex_four (3, 3, 3))).
      cell_index binary64 (ex_four (3, 3, 3)) (hd (atoms m)) = 3"
  "\<forall>m \<in> set (data (ex_four (2, 3, 2))).
      cell_index binary64 (ex_four (2, 3, 2)) (hd (atoms m)) = 2"
  by (simp_all add: ex_four_def ex_A_def cell_index_def cell_coordinate_def binary64_def
      round_REAL_simps Let_def)

lemma ex_four_neighbour_list:
  "neighbour_list (ex_four (3, 3, 3)) 3 = code_neighbours (ex_four (3, 3, 3)) 0 1 0"
  "neighbour_list (ex_four (2, 3, 2)) 2 = code_neighbours (ex_four (2, 3, 2)) 0 1 0"
  using neighbour_list_code[of "ex_four (3, 3, 3)" 3 3 3 0 1 0]
    neighbour_list_code[of "ex_four (2, 3, 2)" 2 3 2 0 1 0]
  by (simp_all add: ex_four_def linear_index_def)

lemma ex_four_neighbours_in_grid:
  "\<forall>I \<in> set (neighbour_list (ex_four (3, 3, 3)) 3). 0 \<le> I \<and> nat I < cell_count (ex_four (3, 3, 3))"
  "count_list (neighbour_list (ex_four (3, 3, 3)) 3) 3 = 1"
  "\<forall>I \<in> set (neighbour_list (ex_four (2, 3, 2)) 2). 0 \<le> I \<and> nat I < cell_count (ex_four (2, 3, 2))"
  "count_list (neighbour_list (ex_four (2, 3, 2)) 2) 2 = 1"
  unfolding ex_four_neighbour_list
  by (simp_all add: code_neighbours_def linear_index_def right_def
      left_def up_def down_def heaviside_def cell_count_def ex_four_def)

text \<open>
  C5 (as amended). The topology consists of molecules of one name, which
  \<^verbatim>\<open>getCellList\<close> puts into one cell of the grid (the index it computes for each of them
  is the same and lies inside the cell list), the neighbour list of that cell holds only
  cells of the grid, the template has two reactant patterns of that name, and every
  single molecule and every pair satisfies the template's criteria. Then the enumeration
  over all cells emits, for every molecule in the order of the topology, its pairs with
  the molecules of larger id, each pair as often as the cell occurs in its own neighbour
  list. When the cell occurs there exactly once, every pair is emitted exactly once with
  the smaller id in the first position; for four molecules with the ids 1 to 4 these are
  the six candidates (1,2), (1,3), (1,4), (2,3), (2,4), (3,4). The weights handed to the
  shuffle are empty.
\<close>

theorem enumeration_two_reactants_one_cell:
  assumes "\<forall>i<3. axis (dimensions (topologyOld U)) i \<noteq> 0"
    and "data (topologyOld U) = ms"
    and "\<forall>m \<in> set ms. mol_name m = A \<and> atoms m \<noteq> []
                 \<and> cell_index R (topologyOld U) (hd (atoms m)) = c"
    and "0 \<le> c" "nat c < cell_count (topologyOld U)"
    and "\<forall>I \<in> set (neighbour_list (topologyOld U) (nat c)).
                 0 \<le> I \<and> nat I < cell_count (topologyOld U)"
    and "reactionTemplates U = [T]" "map mol_name (reactants T) = [A, A]"
    and "\<forall>a \<in> set ms. valid (dimensions (topologyOld U)) 0 (updateReactant 0 a T)
                 \<and> (\<forall>b \<in> set ms. valid (dimensions (topologyOld U)) 1
                        (updateReactant 1 b (updateReactant 0 a T)))"
  shows "(\<exists>U'. shuffle_arguments R valid U =
           Inr (U', concat (map (\<lambda>a. concat (replicate
                                   (count_list (neighbour_list (topologyOld U) (nat c)) c)
                                   (map (\<lambda>b. T\<lparr>reactants := [a, b]\<rparr>)
                                      (filter (\<lambda>b. mol_id a < mol_id b) ms)))) ms), []))
       \<and> (count_list (neighbour_list (topologyOld U) (nat c)) c = 1 \<longrightarrow>
            (\<exists>U'. shuffle_arguments R valid U =
               Inr (U', concat (map (\<lambda>a. map (\<lambda>b. T\<lparr>reactants := [a, b]\<rparr>)
                                       (filter (\<lambda>b. mol_id a < mol_id b) ms)) ms), []))
            \<and> (map mol_id ms = [1, 2, 3, 4] \<longrightarrow>
                 map (\<lambda>c. map mol_id (reactants c))
                   (concat (map (\<lambda>a. map (\<lambda>b. T\<lparr>reactants := [a, b]\<rparr>)
                                        (filter (\<lambda>b. mol_id a < mol_id b) ms)) ms))
                 = [[1, 2], [1, 3], [1, 4], [2, 3], [2, 4], [3, 4]]))"
proof -
  from assms(8) obtain p q where T: "reactants T = [p, q]"
    by (cases "reactants T"; cases "tl (reactants T)") auto
  have upd: "updateReactant 1 b (updateReactant 0 a T) = T\<lparr>reactants := [a, b]\<rparr>" for a b
    by (simp add: updateReactant_def T)
  have 1: "\<exists>U'. shuffle_arguments R valid U =
           Inr (U', concat (map (\<lambda>a. concat (replicate
                                   (count_list (neighbour_list (topologyOld U) (nat c)) c)
                                   (map (\<lambda>b. T\<lparr>reactants := [a, b]\<rparr>)
                                      (filter (\<lambda>b. mol_id a < mol_id b) ms)))) ms), [])"
    using enumeration_one_cell[where valid = valid and U = U and T = T and A = A and ms = ms
        and R = R and c = c, OF assms] unfolding upd .
  have 2: "\<exists>U'. shuffle_arguments R valid U =
               Inr (U', concat (map (\<lambda>a. map (\<lambda>b. T\<lparr>reactants := [a, b]\<rparr>)
                                       (filter (\<lambda>b. mol_id a < mol_id b) ms)) ms), [])"
    if "count_list (neighbour_list (topologyOld U) (nat c)) c = 1"
    using 1 unfolding that by simp
  have 3: "map (\<lambda>c. map mol_id (reactants c))
              (concat (map (\<lambda>a. map (\<lambda>b. T\<lparr>reactants := [a, b]\<rparr>)
                                   (filter (\<lambda>b. mol_id a < mol_id b) ms)) ms))
            = [[1, 2], [1, 3], [1, 4], [2, 3], [2, 4], [3, 4]]"
    if "map mol_id ms = [1, 2, 3, 4]"
  proof -
    from that obtain m1 m2 m3 m4 where "ms = [m1, m2, m3, m4]"
      "mol_id m1 = 1" "mol_id m2 = 2" "mol_id m3 = 3" "mol_id m4 = 4"
      by (auto simp: map_eq_Cons_conv)
    then show ?thesis by simp
  qed
  from 1 2 3 show ?thesis by blast
qed

text \<open>
  In \<^verbatim>\<open>double\<close>, on a grid of 2 x 3 x 2 cells: the four molecules are in the cell with the
  index 2, which occurs once in its neighbour list, and the six candidates are emitted.
\<close>

theorem enumeration_two_reactants_one_cell_witness:
  "CellNumbers (topologyOld (ex_universe (2, 3, 2))) = (2, 3, 2)
   \<and> map mol_id (data (topologyOld (ex_universe (2, 3, 2)))) = [1, 2, 3, 4]
   \<and> map (cell_index binary64 (ex_four (2, 3, 2))) (map (\<lambda>m. hd (atoms m)) (data (ex_four (2, 3, 2))))
       = [2, 2, 2, 2]
   \<and> count_list (neighbour_list (ex_four (2, 3, 2)) 2) 2 = 1
   \<and> map_sum id (\<lambda>(U, cs, w). (map (\<lambda>c. map mol_id (reactants c)) cs, w))
        (shuffle_arguments binary64 (\<lambda>_ _ _. True) (ex_universe (2, 3, 2)))
      = Inr ([[1, 2], [1, 3], [1, 4], [2, 3], [2, 4], [3, 4]], [])"
proof -
  let ?U = "ex_universe (2, 3, 2)"
  have t: "topologyOld ?U = ex_four (2, 3, 2)" by (simp add: ex_universe_def)
  have d: "data (ex_four (2, 3, 2)) = [ex_A 1 (1, 3, 1), ex_A 2 (2, 3, 1), ex_A 3 (1, 4, 1), ex_A 4 (2, 4, 2)]"
    by (simp add: ex_four_def)
  have ids: "map mol_id (data (topologyOld ?U)) = [1, 2, 3, 4]"
    by (simp add: t d ex_A_def)
  have lt3: "i < 3 \<longleftrightarrow> i = 0 \<or> i = 1 \<or> i = 2" for i :: nat by auto
  have a0: "CellNumbers (topologyOld ?U) = (2, 3, 2)" by (simp add: t ex_four_def)
  have a1: "\<forall>i<3. axis (dimensions (topologyOld ?U)) i \<noteq> 0"
    by (simp add: t ex_four_def lt3)
  have a3: "\<forall>m \<in> set (data (topologyOld ?U)). mol_name m = ''A'' \<and> atoms m \<noteq> []
                 \<and> cell_index binary64 (topologyOld ?U) (hd (atoms m)) = 2"
    unfolding t using ex_four_cell_index(1)[of "(2, 3, 2)"] ex_four_cell_index(3) by simp
  have a5: "nat 2 < cell_count (topologyOld ?U)" by (simp add: t cell_count_def ex_four_def)
  have a6: "\<forall>I \<in> set (neighbour_list (topologyOld ?U) (nat 2)).
                 0 \<le> I \<and> nat I < cell_count (topologyOld ?U)"
    unfolding t using ex_four_neighbours_in_grid(3) by simp
  have k: "count_list (neighbour_list (topologyOld ?U) (nat 2)) 2 = 1"
    unfolding t using ex_four_neighbours_in_grid(4) by simp
  have a7: "reactionTemplates ?U = [ex_template_AA]" by (simp add: ex_universe_def)
  have a8: "map mol_name (reactants ex_template_AA) = [''A'', ''A'']" by (simp add: ex_template_AA_def)
  have a9: "\<forall>a \<in> set (data (topologyOld ?U)). True \<and> (\<forall>b \<in> set (data (topologyOld ?U)). True)"
    by simp
  have ci: "map (cell_index binary64 (ex_four (2, 3, 2))) (map (\<lambda>m. hd (atoms m)) (data (ex_four (2, 3, 2))))
       = [2, 2, 2, 2]"
    using ex_four_cell_index(3) by (simp add: d)
  from enumeration_two_reactants_one_cell[where valid = "\<lambda>_ _ _. True" and U = ?U
      and T = ex_template_AA and A = "''A''" and ms = "data (topologyOld ?U)" and R = binary64
      and c = 2, OF a1 refl a3 _ a5 a6 a7 a8 a9] k ids
  obtain U' cs where "shuffle_arguments binary64 (\<lambda>_ _ _. True) ?U = Inr (U', cs, [])"
    "map (\<lambda>c. map mol_id (reactants c)) cs = [[1, 2], [1, 3], [1, 4], [2, 3], [2, 4], [3, 4]]"
    by auto
  with a0 ids ci ex_four_neighbours_in_grid(4) show ?thesis by simp
qed

text \<open>
  The roundings of the third example below: the quotient of the coordinate -2^-60 and the
  box length 8 is a value of \<^verbatim>\<open>double\<close>, and its fractional part 1 - 2^-63 is rounded
  to 1.
\<close>

lemma round_REAL_53_below:
  "round_REAL 53 (- (1 / 9223372036854775808)) = - (1 / 9223372036854775808)"
  "round_REAL 53 (9223372036854775807 / 9223372036854775808) = 1"
proof -
  show "round_REAL 53 (- (1 / 9223372036854775808)) = - (1 / 9223372036854775808)"
    using round_REAL_fraction [of "- 1" 53 63] by simp
  show "round_REAL 53 (9223372036854775807 / 9223372036854775808) = 1"
    by (subst round_REAL_at [of "- 1"]) (simp_all add: round_half_even_def powr_minus powr_int)
qed

text \<open>
  The conditions are needed. On a grid of a single cell all 27 entries of the neighbour
  list are the cell itself, so every molecule is met 27 times as second reactant: 162
  candidates are emitted, the pair (1,2) 27 times. On a grid of 2 x 1 x 2 cells the
  neighbour list of the cell of the four molecules holds indices beyond the four cells,
  and the enumeration reads the cell list outside its bounds. And four molecules just
  below the lower face of the box get, in \<^verbatim>\<open>double\<close>, the cell coordinate 3 along z on a
  grid of 3 x 3 x 3 cells and with it the index 30 of 27 cells: \<^verbatim>\<open>getCellList\<close> writes
  outside the cell list.
\<close>

theorem enumeration_single_cell_grid_counterexample:
  "map_sum id (\<lambda>(U, cs, w). (length cs, length (filter (\<lambda>c. map mol_id (reactants c) = [1, 2]) cs)))
     (shuffle_arguments binary64 (\<lambda>_ _ _. True) (ex_universe (1, 1, 1))) = Inr (162, 27)
   \<and> shuffle_arguments binary64 (\<lambda>_ _ _. True) (ex_universe (2, 1, 2)) = Inl OutOfBounds
   \<and> map (cell_index binary64 ex_four_below) (map (\<lambda>m. hd (atoms m)) (data ex_four_below))
       = [30, 30, 30, 30]
   \<and> cell_count ex_four_below = 27
   \<and> shuffle_arguments binary64 (\<lambda>_ _ _. True) ex_universe_below = Inl OutOfBounds"
proof -
  have 1: "map_sum id (\<lambda>(U, cs, w). (length cs, length (filter (\<lambda>c. map mol_id (reactants c) = [1, 2]) cs)))
     (shuffle_arguments binary64 (\<lambda>_ _ _. True) (ex_universe (1, 1, 1))) = Inr (162, 27)"
    by (simp add: shuffle_arguments_def getCellList_def cell_count_def ex_universe_def ex_four_def
      ex_A_def cell_index_def cell_coordinate_def neighbour_loops_def cell_neighbours_def
      push_neighbour_def right_def left_def up_def down_def heaviside_def
      CellReactionCandidates_def Cell_def CellNeighbours_def second_reactants_def
      updateReactant_def ex_template_AA_def binary64_def round_REAL_simps Let_def)
  have four: "replicate 4 x = [x, x, x, x]" "[0 ..< 4] = [0, 1, 2, 3]" for x :: "'x"
    by (simp_all add: eval_nat_numeral)
  have two: "[0 .. 1] = [0, 1 :: int]" by (simp add: upto.simps)
  have 2: "shuffle_arguments binary64 (\<lambda>_ _ _. True) (ex_universe (2, 1, 2)) = Inl OutOfBounds"
    by (simp add: four two shuffle_arguments_def getCellList_def cell_count_def ex_universe_def ex_four_def
      ex_A_def cell_index_def cell_coordinate_def neighbour_loops_def cell_neighbours_def
      push_neighbour_def right_def left_def up_def down_def heaviside_def
      CellReactionCandidates_def Cell_def CellNeighbours_def second_reactants_def
      updateReactant_def ex_template_AA_def binary64_def round_REAL_simps Let_def)
  have 3: "map (cell_index binary64 ex_four_below) (map (\<lambda>m. hd (atoms m)) (data ex_four_below))
       = [30, 30, 30, 30]"
    by (simp add: ex_four_below_def ex_A_def cell_index_def cell_coordinate_def binary64_def
      round_REAL_simps round_REAL_53_below Let_def)
  have 4: "cell_count ex_four_below = 27" by (simp add: cell_count_def ex_four_below_def)
  have 5: "shuffle_arguments binary64 (\<lambda>_ _ _. True) ex_universe_below = Inl OutOfBounds"
    by (simp add: shuffle_arguments_def getCellList_def cell_count_def ex_universe_below_def
      ex_four_below_def ex_A_def cell_index_def cell_coordinate_def binary64_def
      round_REAL_simps round_REAL_53_below Let_def)
  from 1 2 3 4 5 show ?thesis by simp
qed

lemma shuffle_arguments_weights:
  "shuffle_arguments R valid U = Inr (U', cs, w) \<Longrightarrow> w = []"
  by (auto simp: shuffle_arguments_def Let_def split: sum.splits prod.splits)

lemma CellSearchReactionCandidates_shuffles_unweighted:
  "CellSearchReactionCandidates R weighted_shuffle valid U g = Inr (U', shuffled, g') \<Longrightarrow>
   \<exists>cs. shuffle_arguments R valid U = Inr (U', cs, []) \<and> weighted_shuffle cs [] g = (shuffled, g')"
  by (auto simp: CellSearchReactionCandidates_def dest: shuffle_arguments_weights
      split: sum.splits prod.splits)

lemma ex_universe_enumeration:
  "\<exists>U' cs. shuffle_arguments binary64 (\<lambda>_ _ _. True) (ex_universe (3, 3, 3)) = Inr (U', cs, [])
      \<and> length cs = 6"
proof -
  let ?U = "ex_universe (3, 3, 3)"
  have t: "topologyOld ?U = ex_four (3, 3, 3)" by (simp add: ex_universe_def)
  have d: "data (ex_four (3, 3, 3)) = [ex_A 1 (1, 3, 1), ex_A 2 (2, 3, 1), ex_A 3 (1, 4, 1), ex_A 4 (2, 4, 2)]"
    by (simp add: ex_four_def)
  have lt3: "i < 3 \<longleftrightarrow> i = 0 \<or> i = 1 \<or> i = 2" for i :: nat by auto
  have a1: "\<forall>i<3. axis (dimensions (topologyOld ?U)) i \<noteq> 0"
    by (simp add: t ex_four_def lt3)
  have a3: "\<forall>m \<in> set (data (topologyOld ?U)). mol_name m = ''A'' \<and> atoms m \<noteq> []
                 \<and> cell_index binary64 (topologyOld ?U) (hd (atoms m)) = 3"
    unfolding t using ex_four_cell_index(1)[of "(3, 3, 3)"] ex_four_cell_index(2) by simp
  have a5: "nat 3 < cell_count (topologyOld ?U)" by (simp add: t cell_count_def ex_four_def)
  have a6: "\<forall>I \<in> set (neighbour_list (topologyOld ?U) (nat 3)).
                 0 \<le> I \<and> nat I < cell_count (topologyOld ?U)"
    unfolding t using ex_four_neighbours_in_grid(1) by simp
  have k: "count_list (neighbour_list (topologyOld ?U) (nat 3)) 3 = 1"
    unfolding t using ex_four_neighbours_in_grid(2) by simp
  have a7: "reactionTemplates ?U = [ex_template_AA]" by (simp add: ex_universe_def)
  have a8: "map mol_name (reactants ex_template_AA) = [''A'', ''A'']" by (simp add: ex_template_AA_def)
  have a9: "\<forall>a \<in> set (data (topologyOld ?U)). True \<and> (\<forall>b \<in> set (data (topologyOld ?U)). True)"
    by simp
  from enumeration_one_cell[where valid = "\<lambda>_ _ _. True" and U = ?U
      and T = ex_template_AA and A = "''A''" and ms = "data (topologyOld ?U)" and R = binary64
      and c = 3, OF a1 refl a3 _ a5 a6 a7 a8 a9]
  obtain U' where "shuffle_arguments binary64 (\<lambda>_ _ _. True) ?U =
      Inr (U', concat (map (\<lambda>a. map (\<lambda>b. updateReactant 1 b (updateReactant 0 a ex_template_AA))
            (filter (\<lambda>b. mol_id a < mol_id b) (data (topologyOld ?U)))) (data (topologyOld ?U))), [])"
    unfolding k by auto
  moreover have "length (concat (map (\<lambda>a. map (\<lambda>b. updateReactant 1 b (updateReactant 0 a ex_template_AA))
            (filter (\<lambda>b. mol_id a < mol_id b) (data (topologyOld ?U)))) (data (topologyOld ?U)))) = 6"
    by (simp add: t d ex_A_def)
  ultimately show ?thesis by blast
qed

text \<open>
  C4. For the four molecules A in one cell of a 3 x 3 x 3 grid, with a rate of 2 for
  every candidate, six candidates are enumerated and the weight vector handed to the
  weighted shuffle is empty, whereas the per-candidate rates are six times 2.
\<close>

theorem shuffle_weights_empty_for_six_candidates:
  "map_sum id (\<lambda>(U, cs, w). (length cs, w, map (\<lambda>c. 2 :: real) cs))
     (shuffle_arguments binary64 (\<lambda>_ _ _. True) (ex_universe (3, 3, 3)))
   = Inr (6, [], [2, 2, 2, 2, 2, 2])"
proof -
  from ex_universe_enumeration obtain U' cs where
    a: "shuffle_arguments binary64 (\<lambda>_ _ _. True) (ex_universe (3, 3, 3)) = Inr (U', cs, [])"
    and l: "length cs = 6" by blast
  from l have "map (\<lambda>c. 2 :: real) cs = replicate 6 2" by (simp add: map_replicate_const)
  then have "map (\<lambda>c. 2 :: real) cs = [2, 2, 2, 2, 2, 2]" by (simp add: eval_nat_numeral)
  with a l show ?thesis by simp
qed

subsection \<open>SimulatorRate: the loop over the candidates\<close>

lemma ex_loop:
  "map_sum id (\<lambda>s. (nReactionsAttempted s, nReactionsAccepted s,
       map (\<lambda>m. (mol_id m, mol_name m)) (data (topologyNew (universe s))), snd (generator s)))
  (candidate_loop binary64 ex_transitions products (\<lambda>_. 2) 1
     (initial_state ex_universe_three (\<lambda>_. 1 / 2, 0))
     [ex_pair 1 (1, 3, 1) 2 (2, 3, 1), ex_pair 2 (2, 3, 1) 3 (1, 4, 1)])
   = Inr ([1, 0, 0, 0, 0, 0, 0, 0], [1, 0, 0, 0, 0, 0, 0, 0], [(3, ''A''), (4, ''P'')], 1)"
  by (simp add: candidate_step_def isAvailable_def containsMolecule_def initial_state_def
      ex_universe_three_def ex_three_def ex_pair_def ex_A_def ex_template_AA_def ex_transitions_def
      acceptance_def enhance_random_def react_def removeMolecule_def addMolecule_def
      addReactionRecord_def makeMoleculeWhole_def repair_atom_def shift_axis_def image_count_def
      static_cast_int_def binary64_def round_REAL_simps Let_def eval_nat_numeral)

lemma count_reaction_counts:
  assumes "i + length Ts \<le> length counters"
  shows "\<exists>counters'. count_reaction name Ts i counters = Inr counters'
           \<and> length counters' = length counters
           \<and> (\<forall>k < length counters. counters' ! k = counters ! k
                  + (if i \<le> k \<and> k < i + length Ts \<and> name = getName (Ts ! (k - i)) then 1 else 0))"
  using assms
proof (induction Ts arbitrary: i counters)
  case Nil
  then show ?case by simp
next
  case (Cons T Ts)
  let ?c = "if name = getName T then counters[i := counters ! i + 1] else counters"
  have step: "count_reaction name (T # Ts) i counters = count_reaction name Ts (Suc i) ?c"
    using Cons.prems by simp
  have "Suc i + length Ts \<le> length ?c" using Cons.prems by simp
  from Cons.IH[OF this] obtain counters' where
    r: "count_reaction name Ts (Suc i) ?c = Inr counters'" and l: "length counters' = length ?c"
    and v: "\<forall>k < length ?c. counters' ! k = ?c ! k
              + (if Suc i \<le> k \<and> k < Suc i + length Ts \<and> name = getName (Ts ! (k - Suc i)) then 1 else 0)"
    by blast
  have "counters' ! k = counters ! k
          + (if i \<le> k \<and> k < i + length (T # Ts) \<and> name = getName ((T # Ts) ! (k - i)) then 1 else 0)"
    if k: "k < length counters" for k
  proof (cases "k = i")
    case True
    with v k show ?thesis by simp
  next
    case False
    then have "(T # Ts) ! (k - i) = Ts ! (k - Suc i)" if "i \<le> k"
    proof -
      from that False have "k - i = Suc (k - Suc i)" by simp
      then show ?thesis by simp
    qed
    with v k False show ?thesis by (auto simp: nth_list_update)
  qed
  with r l step show ?case by simp
qed

lemma containsMolecule_iff:
  "containsMolecule t r \<longleftrightarrow> (\<exists>m \<in> set (data t). mol_id m = mol_id r \<and> mol_name m = mol_name r)"
proof -
  have "containsMolecule t r \<longleftrightarrow>
          find (\<lambda>m. mol_id r = mol_id m \<and> mol_name r = mol_name m) (data t) \<noteq> None"
    by (simp add: containsMolecule_def split: option.splits)
  also have "\<dots> \<longleftrightarrow> (\<exists>m \<in> set (data t). mol_id r = mol_id m \<and> mol_name r = mol_name m)"
    unfolding find_None_iff by blast
  finally show ?thesis by metis
qed

lemma reactants_available_iff:
  "reactants_available t rs \<longleftrightarrow> (\<forall>r \<in> set rs. containsMolecule t r)"
  by (induction rs) simp_all

lemma isAvailable_iff:
  "isAvailable U c \<longleftrightarrow>
     (\<forall>r \<in> set (reactants c). \<exists>m \<in> set (data (topologyNew U)).
         mol_id m = mol_id r \<and> mol_name m = mol_name r)"
  by (simp add: isAvailable_def reactants_available_iff containsMolecule_iff)

lemma react_result:
  "react R aT aL U c = Inr (U', c') \<Longrightarrow>
   reactionTemplates U' = reactionTemplates U \<and> reaction_name c' = reaction_name c"
  by (auto simp: react_def Let_def case_prod_beta split: sum.splits if_splits)

lemma react_succeeds:
  assumes "data (topologyNew U) \<noteq> []"
    and "make_products_whole R (dimensions (topologyNew U)) (aT c) = Inr whole"
  shows "\<exists>U' c'. react R aT aL U c = Inr (U', c')"
  using assms by (simp add: react_def Let_def case_prod_beta)

lemma available_nonempty:
  "isAvailable U c \<Longrightarrow> reactants c \<noteq> [] \<Longrightarrow> data (topologyNew U) \<noteq> []"
  by (cases "reactants c") (auto simp: isAvailable_iff)

text \<open>
  C6 (as amended). With at most eight templates (the counters are vectors of eight
  entries, indexed by the position of the template): the candidate is available exactly
  when every bound reactant is in the new topology with its id and name. If it is, the
  attempted counter of every template that carries the candidate's reaction name goes
  up by one, no other counter changes, and acceptance is evaluated: one draw is taken;
  when the draw is not below the rounded product of frequency and rate, the step ends
  with the new attempted counters and the advanced generator; when it is, the candidate
  is reacted, and the step ends with the reacted universe, the accepted counters raised
  in the same way and the candidate appended to the accepted ones, or has no result when
  the reaction has none (which is excluded when the candidate binds a reactant and its
  products can be made whole). If the candidate is not available, the step leaves the
  whole state as it is. With the candidates (1,2) and (2,3) over three molecules A, both
  acceptable, (1,2) is reacted and (2,3) is skipped: one attempt is counted and one draw
  taken.
\<close>

theorem candidate_step_attempts:
  assumes "length (reactionTemplates (universe s)) \<le> 8"
    and "length (nReactionsAttempted s) = 8" and "length (nReactionsAccepted s) = 8"
  shows "(isAvailable (universe s) candidate \<longleftrightarrow>
            (\<forall>r \<in> set (reactants candidate). \<exists>m \<in> set (data (topologyNew (universe s))).
                mol_id m = mol_id r \<and> mol_name m = mol_name r))
       \<and> (isAvailable (universe s) candidate \<longrightarrow>
            (\<exists>att acc.
               length att = 8
               \<and> (\<forall>i<8. att ! i = nReactionsAttempted s ! i
                     + (if i < length (reactionTemplates (universe s))
                           \<and> reaction_name candidate = getName (reactionTemplates (universe s) ! i)
                        then 1 else 0))
               \<and> length acc = 8
               \<and> (\<forall>i<8. acc ! i = nReactionsAccepted s ! i
                     + (if i < length (reactionTemplates (universe s))
                           \<and> reaction_name candidate = getName (reactionTemplates (universe s) ! i)
                        then 1 else 0))
               \<and> (\<not> fst (generator s) (snd (generator s)) < rnd R (f * rate candidate) \<longrightarrow>
                     candidate_step R aT aL rate f s candidate
                       = Inr (s\<lparr>nReactionsAttempted := att,
                                generator := (fst (generator s), Suc (snd (generator s)))\<rparr>))
               \<and> (fst (generator s) (snd (generator s)) < rnd R (f * rate candidate) \<longrightarrow>
                     (\<forall>e. react R aT aL (universe s) candidate = Inl e \<longrightarrow>
                          candidate_step R aT aL rate f s candidate = Inl e)
                     \<and> (\<forall>U' c'. react R aT aL (universe s) candidate = Inr (U', c') \<longrightarrow>
                          candidate_step R aT aL rate f s candidate
                            = Inr (s\<lparr>universe := U', nReactionsAttempted := att,
                                     nReactionsAccepted := acc,
                                     acceptedCandidates := acceptedCandidates s @ [c'],
                                     generator := (fst (generator s), Suc (snd (generator s)))\<rparr>))
                     \<and> (reactants candidate \<noteq> []
                          \<and> \<not> isl (make_products_whole R (dimensions (topologyNew (universe s)))
                                     (aT candidate))
                          \<longrightarrow> \<not> isl (react R aT aL (universe s) candidate)))))
       \<and> (\<not> isAvailable (universe s) candidate \<longrightarrow>
            candidate_step R aT aL rate f s candidate = Inr s)
       \<and> map_sum id (\<lambda>s. (nReactionsAttempted s, nReactionsAccepted s,
              map (\<lambda>m. (mol_id m, mol_name m)) (data (topologyNew (universe s))), snd (generator s)))
            (candidate_loop binary64 ex_transitions products (\<lambda>_. 2) 1
               (initial_state ex_universe_three (\<lambda>_. 1 / 2, 0))
               [ex_pair 1 (1, 3, 1) 2 (2, 3, 1), ex_pair 2 (2, 3, 1) 3 (1, 4, 1)])
          = Inr ([1, 0, 0, 0, 0, 0, 0, 0], [1, 0, 0, 0, 0, 0, 0, 0], [(3, ''A''), (4, ''P'')], 1)"
proof -
  let ?U = "universe s"
  let ?Ts = "reactionTemplates ?U"
  let ?g' = "(fst (generator s), Suc (snd (generator s)))"
  let ?draw = "fst (generator s) (snd (generator s))"
  have 1: "isAvailable ?U candidate \<longleftrightarrow>
            (\<forall>r \<in> set (reactants candidate). \<exists>m \<in> set (data (topologyNew ?U)).
                mol_id m = mol_id r \<and> mol_name m = mol_name r)"
    by (rule isAvailable_iff)
  from count_reaction_counts[of 0 ?Ts "nReactionsAttempted s" "reaction_name candidate"] assms(1,2)
  obtain att where att: "count_reaction (reaction_name candidate) ?Ts 0 (nReactionsAttempted s) = Inr att"
    and attl: "length att = 8"
    and attv: "\<forall>k<8. att ! k = nReactionsAttempted s ! k
                + (if k < length ?Ts \<and> reaction_name candidate = getName (?Ts ! k) then 1 else 0)"
    by auto
  from count_reaction_counts[of 0 ?Ts "nReactionsAccepted s" "reaction_name candidate"] assms(1,3)
  obtain acc where acc: "count_reaction (reaction_name candidate) ?Ts 0 (nReactionsAccepted s) = Inr acc"
    and accl: "length acc = 8"
    and accv: "\<forall>k<8. acc ! k = nReactionsAccepted s ! k
                + (if k < length ?Ts \<and> reaction_name candidate = getName (?Ts ! k) then 1 else 0)"
    by auto
  have accept: "acceptance R rate f (generator s) candidate
                  = (?draw < rnd R (f * rate candidate), ?g')"
    by (simp add: acceptance_def enhance_random_def)
  have rejected: "candidate_step R aT aL rate f s candidate
                   = Inr (s\<lparr>nReactionsAttempted := att, generator := ?g'\<rparr>)"
    if "isAvailable ?U candidate" "\<not> ?draw < rnd R (f * rate candidate)"
    using that att accept by (simp add: candidate_step_def)
  have failed: "candidate_step R aT aL rate f s candidate = Inl e"
    if "isAvailable ?U candidate" "?draw < rnd R (f * rate candidate)"
      "react R aT aL ?U candidate = Inl e" for e
    using that att accept by (simp add: candidate_step_def)
  have reacted: "candidate_step R aT aL rate f s candidate
                   = Inr (s\<lparr>universe := U', nReactionsAttempted := att, nReactionsAccepted := acc,
                            acceptedCandidates := acceptedCandidates s @ [c'], generator := ?g'\<rparr>)"
    if "isAvailable ?U candidate" "?draw < rnd R (f * rate candidate)"
      "react R aT aL ?U candidate = Inr (U', c')" for U' c'
    using that att accept acc react_result[OF that(3)] by (simp add: candidate_step_def)
  have returns: "\<not> isl (react R aT aL ?U candidate)"
    if "isAvailable ?U candidate" "reactants candidate \<noteq> []"
      "\<not> isl (make_products_whole R (dimensions (topologyNew ?U)) (aT candidate))"
  proof -
    from that(3) obtain whole where
      "make_products_whole R (dimensions (topologyNew ?U)) (aT candidate) = Inr whole"
      by (cases "make_products_whole R (dimensions (topologyNew ?U)) (aT candidate)") auto
    from react_succeeds[where aT = aT and c = candidate and aL = aL and R = R,
        OF available_nonempty[OF that(1,2)] this]
    show ?thesis by auto
  qed
  have 2: "\<exists>att acc.
               length att = 8
               \<and> (\<forall>i<8. att ! i = nReactionsAttempted s ! i
                     + (if i < length ?Ts \<and> reaction_name candidate = getName (?Ts ! i)
                        then 1 else 0))
               \<and> length acc = 8
               \<and> (\<forall>i<8. acc ! i = nReactionsAccepted s ! i
                     + (if i < length ?Ts \<and> reaction_name candidate = getName (?Ts ! i)
                        then 1 else 0))
               \<and> (\<not> ?draw < rnd R (f * rate candidate) \<longrightarrow>
                     candidate_step R aT aL rate f s candidate
                       = Inr (s\<lparr>nReactionsAttempted := att, generator := ?g'\<rparr>))
               \<and> (?draw < rnd R (f * rate candidate) \<longrightarrow>
                     (\<forall>e. react R aT aL ?U candidate = Inl e \<longrightarrow>
                          candidate_step R aT aL rate f s candidate = Inl e)
                     \<and> (\<forall>U' c'. react R aT aL ?U candidate = Inr (U', c') \<longrightarrow>
                          candidate_step R aT aL rate f s candidate
                            = Inr (s\<lparr>universe := U', nReactionsAttempted := att,
                                     nReactionsAccepted := acc,
                                     acceptedCandidates := acceptedCandidates s @ [c'],
                                     generator := ?g'\<rparr>))
                     \<and> (reactants candidate \<noteq> []
                          \<and> \<not> isl (make_products_whole R (dimensions (topologyNew ?U))
                                     (aT candidate))
                          \<longrightarrow> \<not> isl (react R aT aL ?U candidate)))"
    if av: "isAvailable ?U candidate"
    using attl attv accl accv rejected[OF av] failed[OF av] reacted[OF av] returns[OF av]
    by (intro exI[of _ att] exI[of _ acc]) blast
  have 3: "candidate_step R aT aL rate f s candidate = Inr s" if "\<not> isAvailable ?U candidate"
    using that by (simp add: candidate_step_def)
  from 1 2 3 ex_loop show ?thesis by blast
qed

text \<open>
  In \<^verbatim>\<open>double\<close>, over the three molecules A: the candidate (1,2) is available, its step
  raises the first attempted counter and takes one draw; the candidate (4,5) is not
  available and its step changes nothing.
\<close>

theorem candidate_step_attempts_witness:
  "isAvailable ex_universe_three (ex_pair 1 (1, 3, 1) 2 (2, 3, 1))
   \<and> map_sum id (\<lambda>s. (nReactionsAttempted s ! 0, snd (generator s)))
        (candidate_step binary64 ex_transitions products (\<lambda>_. 2) 1
           (initial_state ex_universe_three (\<lambda>_. 1 / 2, 0)) (ex_pair 1 (1, 3, 1) 2 (2, 3, 1)))
      = Inr (1, 1)
   \<and> \<not> isAvailable ex_universe_three (ex_pair 4 (1, 3, 1) 5 (2, 3, 1))
   \<and> candidate_step binary64 ex_transitions products (\<lambda>_. 2) 1
        (initial_state ex_universe_three (\<lambda>_. 1 / 2, 0)) (ex_pair 4 (1, 3, 1) 5 (2, 3, 1))
      = Inr (initial_state ex_universe_three (\<lambda>_. 1 / 2, 0))"
proof -
  let ?s = "initial_state ex_universe_three (\<lambda>_. 1 / 2, 0)"
  let ?c = "ex_pair 1 (1, 3, 1) 2 (2, 3, 1)"
  let ?d = "ex_pair 4 (1, 3, 1) 5 (2, 3, 1)"
  have u: "universe ?s = ex_universe_three" by (simp add: initial_state_def)
  have h: "length (reactionTemplates (universe ?s)) \<le> 8" "length (nReactionsAttempted ?s) = 8"
    "length (nReactionsAccepted ?s) = 8"
    by (simp_all add: initial_state_def ex_universe_three_def)
  have av: "isAvailable ex_universe_three ?c"
    by (simp add: isAvailable_def containsMolecule_def ex_universe_three_def ex_three_def
        ex_pair_def ex_A_def)
  have nav: "\<not> isAvailable ex_universe_three ?d"
    by (simp add: isAvailable_def containsMolecule_def ex_universe_three_def ex_three_def
        ex_pair_def ex_A_def)
  have t0: "reaction_name ?c = getName (reactionTemplates ex_universe_three ! 0)"
    "0 < length (reactionTemplates ex_universe_three)" "nReactionsAttempted ?s ! 0 = 0"
    by (simp_all add: ex_pair_def ex_universe_three_def ex_template_AA_def initial_state_def)
  have draw: "fst (generator ?s) (snd (generator ?s)) < rnd binary64 (1 * 2)"
    "snd (generator ?s) = 0"
    by (simp_all add: initial_state_def binary64_def round_REAL_simps)
  obtain U' c' where r: "react binary64 ex_transitions products ex_universe_three ?c = Inr (U', c')"
    by (simp add: react_def ex_universe_three_def ex_three_def ex_pair_def ex_A_def
        ex_template_AA_def ex_transitions_def makeMoleculeWhole_def repair_atom_def shift_axis_def
        image_count_def static_cast_int_def binary64_def round_REAL_simps Let_def case_prod_beta)
  from candidate_step_attempts[OF h, of ?c binary64 1 "\<lambda>_. 2" ex_transitions products] av u
  obtain att acc where
    v: "\<forall>i<8. att ! i = nReactionsAttempted ?s ! i
                     + (if i < length (reactionTemplates (universe ?s))
                           \<and> reaction_name ?c = getName (reactionTemplates (universe ?s) ! i)
                        then 1 else 0)"
    and w: "fst (generator ?s) (snd (generator ?s)) < rnd binary64 (1 * 2) \<longrightarrow>
              (\<forall>U' c'. react binary64 ex_transitions products (universe ?s) ?c = Inr (U', c') \<longrightarrow>
                 candidate_step binary64 ex_transitions products (\<lambda>_. 2) 1 ?s ?c
                   = Inr (?s\<lparr>universe := U', nReactionsAttempted := att,
                             nReactionsAccepted := acc,
                             acceptedCandidates := acceptedCandidates ?s @ [c'],
                             generator := (fst (generator ?s), Suc (snd (generator ?s)))\<rparr>))"
    by auto
  from w draw(1) r u
  have "candidate_step binary64 ex_transitions products (\<lambda>_. 2) 1 ?s ?c
          = Inr (?s\<lparr>universe := U', nReactionsAttempted := att, nReactionsAccepted := acc,
                    acceptedCandidates := acceptedCandidates ?s @ [c'],
                    generator := (fst (generator ?s), Suc (snd (generator ?s)))\<rparr>)"
    by simp
  moreover have "att ! 0 = 1" using v[rule_format, of 0] t0 u by simp
  ultimately have a: "map_sum id (\<lambda>s. (nReactionsAttempted s ! 0, snd (generator s)))
        (candidate_step binary64 ex_transitions products (\<lambda>_. 2) 1 ?s ?c) = Inr (1, 1)"
    using draw(2) by simp
  from candidate_step_attempts[OF h, of ?d binary64 1 "\<lambda>_. 2" ex_transitions products] nav u
  have b: "candidate_step binary64 ex_transitions products (\<lambda>_. 2) 1 ?s ?d = Inr ?s" by simp
  from av a nav b show ?thesis by simp
qed

text \<open>
  The bound on the number of templates is needed. With nine templates, a candidate of
  the ninth template whose reactants are present makes the step increment the ninth
  entry of a vector of eight.
\<close>

theorem candidate_step_ninth_template_counterexample:
  "length (reactionTemplates ex_universe_nine) = 9
   \<and> reaction_name ex_candidate_T8 = getName (reactionTemplates ex_universe_nine ! 8)
   \<and> isAvailable ex_universe_nine ex_candidate_T8
   \<and> length (nReactionsAttempted (initial_state ex_universe_nine (\<lambda>_. 1 / 2, 0))) = 8
   \<and> candidate_step binary64 ex_transitions products (\<lambda>_. 2) 1
        (initial_state ex_universe_nine (\<lambda>_. 1 / 2, 0)) ex_candidate_T8
      = Inl OutOfBounds"
  by (simp add: candidate_step_def isAvailable_def containsMolecule_def initial_state_def
      ex_universe_nine_def ex_nine_templates_def ex_candidate_T8_def ex_universe_three_def
      ex_three_def ex_pair_def ex_A_def ex_template_AA_def eval_nat_numeral)

subsection \<open>Universe: reaction and availability\<close>


lemma add_products_data:
  "data (fst (add_products ps h t)) = data t @ snd (add_products ps h t)
   \<and> map mol_id (snd (add_products ps h t)) = [Suc h ..< Suc h + length ps]"
proof (induction ps arbitrary: h t)
  case Nil
  show ?case by simp
next
  case (Cons p ps)
  let ?t' = "addReactionRecord (addMolecule t (p\<lparr>mol_id := Suc h\<rparr>)) (Suc h)"
  have d: "data ?t' = data t @ [p\<lparr>mol_id := Suc h\<rparr>]"
    by (simp add: addReactionRecord_def addMolecule_def)
  have "[Suc h ..< Suc h + length (p # ps)] = Suc h # [Suc (Suc h) ..< Suc (Suc h) + length ps]"
    by (simp add: upt_rec[of "Suc h"] del: upt_Suc)
  with Cons.IH[of "Suc h" ?t'] d show ?case
    by (simp add: Let_def case_prod_beta del: upt_Suc)
qed

lemma add_products_length: "length (snd (add_products ps h t)) = length ps"
  by (induction ps arbitrary: h t) (simp_all add: Let_def case_prod_beta)

lemma fold_removeMolecule_subset:
  "set (data (fold (\<lambda>reactant t. removeMolecule t (mol_id reactant)) rs t)) \<subseteq> set (data t)"
proof (induction rs arbitrary: t)
  case Nil show ?case by simp
next
  case (Cons a rs)
  have "set (data (fold (\<lambda>reactant t. removeMolecule t (mol_id reactant)) rs (removeMolecule t (mol_id a))))
          \<subseteq> set (data (removeMolecule t (mol_id a)))" by (rule Cons.IH)
  also have "\<dots> \<subseteq> set (data t)" by (simp add: removeMolecule_def)
  finally show ?case by simp
qed

lemma make_products_whole_length:
  "make_products_whole R dims ps = Inr whole \<Longrightarrow> length whole = length ps"
  by (induction ps arbitrary: whole) (auto split: sum.splits)

lemma react_fresh:
  assumes r: "react R aT aL U c = Inr (U', c')"
    and p: "aT c \<noteq> []" "\<And>x. length (aL x) = length (products x)"
  shows "data (topologyNew U') \<noteq> []
       \<and> highest (topologyNew U) \<le> highest (topologyNew U')
       \<and> (\<forall>m \<in> set (data (topologyNew U')).
             m \<in> set (data (topologyNew U)) \<or> highest (topologyNew U) < mol_id m)"
proof -
  let ?t = "topologyNew U"
  let ?c1 = "c\<lparr>products := aT c\<rparr>"
  from r obtain whole where
    w: "make_products_whole R (dimensions ?t) (products ?c1) = Inr whole"
    by (auto simp: react_def Let_def split: sum.splits)
  have wl: "length whole = length (aT c)"
    using make_products_whole_length[OF w] by simp
  let ?c2 = "?c1\<lparr>products := whole\<rparr>"
  let ?c3 = "?c2\<lparr>products := aL ?c2\<rparr>"
  let ?t1 = "fold (\<lambda>reactant t. removeMolecule t (mol_id reactant)) (reactants ?c3) ?t"
  let ?h = "highest ?t"
  let ?ps = "snd (add_products (products ?c3) ?h ?t1)"
  from r w have ne: "data ?t \<noteq> []" by (auto simp: react_def Let_def split: if_splits)
  with r w have U': "topologyNew U' = fst (add_products (products ?c3) ?h ?t1)"
    by (auto simp: react_def Let_def case_prod_beta highest_def)
  have "length (products ?c3) = length (aT c)" using p(2)[of ?c2] wl by simp
  with p(1) have len: "products ?c3 \<noteq> []" by (metis length_0_conv)
  have d: "data (topologyNew U') = data ?t1 @ ?ps"
    and ids: "map mol_id ?ps = [Suc ?h ..< Suc ?h + length (products ?c3)]"
    unfolding U' using add_products_data[of "products ?c3" ?h ?t1] by simp_all
  have "length ?ps = length (products ?c3)" by (rule add_products_length)
  with len have psne: "?ps \<noteq> []" by (metis length_0_conv)
  have fresh: "?h < mol_id m" if "m \<in> set ?ps" for m
  proof -
    from that have "mol_id m \<in> set (map mol_id ?ps)" by simp
    then have "mol_id m \<in> {Suc ?h ..< Suc ?h + length (products ?c3)}"
      unfolding ids by (simp only: set_upt)
    then show ?thesis by simp
  qed
  have 1: "data (topologyNew U') \<noteq> []" using d psne by simp
  have 3: "\<forall>m \<in> set (data (topologyNew U')). m \<in> set (data ?t) \<or> ?h < mol_id m"
    using d fresh fold_removeMolecule_subset[of "reactants ?c3" ?t] by auto
  obtain m where m: "m \<in> set ?ps" using psne by (cases ?ps) auto
  then have "mol_id m \<in> set (map mol_id (data (topologyNew U')))" using d by simp
  then have "mol_id m \<le> highest (topologyNew U')" unfolding highest_def by (intro Max_ge) simp_all
  with fresh[OF m] have 2: "?h \<le> highest (topologyNew U')" by simp
  from 1 2 3 show ?thesis by simp
qed


lemma candidate_step_fresh:
  assumes st: "candidate_step R aT aL rate f s c = Inr s'"
    and p: "aT c \<noteq> []" "\<forall>x. length (aL x) = length (products x)"
    and ne: "data (topologyNew (universe s)) \<noteq> []"
    and B: "B \<le> highest (topologyNew (universe s))"
  shows "data (topologyNew (universe s')) \<noteq> []
       \<and> B \<le> highest (topologyNew (universe s'))
       \<and> (\<forall>m \<in> set (data (topologyNew (universe s'))).
             m \<in> set (data (topologyNew (universe s))) \<or> B < mol_id m)"
proof (cases "universe s' = universe s")
  case True
  with ne B show ?thesis by simp
next
  case False
  with st obtain U' c' where r: "react R aT aL (universe s) c = Inr (U', c')" and u: "universe s' = U'"
    by (auto simp: candidate_step_def split: if_splits sum.splits prod.splits)
  from react_fresh[OF r p(1)] p(2)
  have "data (topologyNew U') \<noteq> []"
    "highest (topologyNew (universe s)) \<le> highest (topologyNew U')"
    "\<forall>m \<in> set (data (topologyNew U')).
        m \<in> set (data (topologyNew (universe s))) \<or> highest (topologyNew (universe s)) < mol_id m"
    by simp_all
  with B u show ?thesis by fastforce
qed

lemma candidate_loop_fresh:
  assumes "candidate_loop R aT aL rate f s cs = Inr s'"
    and p: "\<forall>c \<in> set cs. aT c \<noteq> []" "\<forall>x. length (aL x) = length (products x)"
    and "data (topologyNew (universe s)) \<noteq> []"
    and "B \<le> highest (topologyNew (universe s))"
  shows "data (topologyNew (universe s')) \<noteq> []
       \<and> B \<le> highest (topologyNew (universe s'))
       \<and> (\<forall>m \<in> set (data (topologyNew (universe s'))).
             m \<in> set (data (topologyNew (universe s))) \<or> B < mol_id m)"
  using assms(1,2,4,5)
proof (induction cs arbitrary: s)
  case Nil
  then show ?case by simp
next
  case (Cons c cs)
  from Cons.prems(1) obtain s1 where s1: "candidate_step R aT aL rate f s c = Inr s1"
    and rest: "candidate_loop R aT aL rate f s1 cs = Inr s'"
    by (auto split: sum.splits)
  from Cons.prems(2) have pc: "aT c \<noteq> []" and pcs: "\<forall>c \<in> set cs. aT c \<noteq> []" by simp_all
  from candidate_step_fresh[OF s1 pc p(2) Cons.prems(3,4)]
  have a: "data (topologyNew (universe s1)) \<noteq> []" "B \<le> highest (topologyNew (universe s1))"
    and b: "\<forall>m \<in> set (data (topologyNew (universe s1))).
             m \<in> set (data (topologyNew (universe s))) \<or> B < mol_id m"
    by simp_all
  from Cons.IH[OF rest pcs a] b show ?case by blast
qed

lemma candidate_loop_append:
  "candidate_loop R aT aL rate f s (cs1 @ cs2) =
     (case candidate_loop R aT aL rate f s cs1 of
        Inl e \<Rightarrow> Inl e
      | Inr s1 \<Rightarrow> candidate_loop R aT aL rate f s1 cs2)"
  by (induction cs1 arbitrary: s) (simp_all split: sum.splits)

text \<open>
  C7 (as amended). Within one run of the loop over the candidates, in which every
  candidate yields at least one product when it is reacted: a molecule (id and name) that
  was in the new topology when the loop started and is missing from it at some point of
  the run is missing at every later point, so that every candidate binding it stays
  unavailable.
\<close>

theorem unavailable_stays_unavailable:
  assumes "\<forall>c \<in> set (cs1 @ cs2). aT c \<noteq> []"
    and "\<forall>x. length (aL x) = length (products x)"
    and "candidate_loop R aT aL rate f s0 cs1 = Inr s1"
    and "candidate_loop R aT aL rate f s1 cs2 = Inr s2"
    and "containsMolecule (topologyNew (universe s0)) r"
    and "\<not> containsMolecule (topologyNew (universe s1)) r"
  shows "\<not> containsMolecule (topologyNew (universe s2)) r
       \<and> (\<forall>c. r \<in> set (reactants c) \<longrightarrow> \<not> isAvailable (universe s2) c)"
proof -
  let ?B = "highest (topologyNew (universe s0))"
  from assms(5) obtain m0 where m0: "m0 \<in> set (data (topologyNew (universe s0)))"
    "mol_id m0 = mol_id r" by (auto simp: containsMolecule_iff)
  then have ne: "data (topologyNew (universe s0)) \<noteq> []" by auto
  have "mol_id m0 \<in> set (map mol_id (data (topologyNew (universe s0))))" using m0(1) by simp
  then have "mol_id m0 \<le> ?B" unfolding highest_def by (intro Max_ge) simp_all
  then have rB: "mol_id r \<le> ?B" using m0 by simp
  from assms(1) have p1: "\<forall>c \<in> set cs1. aT c \<noteq> []" and p2: "\<forall>c \<in> set cs2. aT c \<noteq> []"
    by simp_all
  from candidate_loop_fresh[OF assms(3) p1 assms(2) ne order_refl]
  have a: "data (topologyNew (universe s1)) \<noteq> []" "?B \<le> highest (topologyNew (universe s1))"
    by simp_all
  from candidate_loop_fresh[OF assms(4) p2 assms(2) a]
  have b: "\<forall>m \<in> set (data (topologyNew (universe s2))).
             m \<in> set (data (topologyNew (universe s1))) \<or> ?B < mol_id m" by simp
  have 1: "\<not> containsMolecule (topologyNew (universe s2)) r"
  proof
    assume "containsMolecule (topologyNew (universe s2)) r"
    then obtain m where m: "m \<in> set (data (topologyNew (universe s2)))"
      "mol_id m = mol_id r" "mol_name m = mol_name r" by (auto simp: containsMolecule_iff)
    with b rB have "m \<in> set (data (topologyNew (universe s1)))" by auto
    with m have "containsMolecule (topologyNew (universe s1)) r" by (auto simp: containsMolecule_iff)
    with assms(6) show False by simp
  qed
  then have "\<not> isAvailable (universe s2) c" if "r \<in> set (reactants c)" for c
    using that by (auto simp: isAvailable_def reactants_available_iff)
  with 1 show ?thesis by blast
qed


lemma ex_loop_four:
  "map_sum id (\<lambda>s. map (\<lambda>m. (mol_id m, mol_name m)) (data (topologyNew (universe s))))
     (candidate_loop binary64 ex_transitions products (\<lambda>_. 2) 1 ex_state_four
        [ex_pair 1 (1, 3, 1) 2 (2, 3, 1)])
   = Inr [(3, ''A''), (4, ''A''), (5, ''P'')]"
  "map_sum id (\<lambda>s. map (\<lambda>m. (mol_id m, mol_name m)) (data (topologyNew (universe s))))
     (candidate_loop binary64 ex_transitions products (\<lambda>_. 2) 1 ex_state_four
        [ex_pair 1 (1, 3, 1) 2 (2, 3, 1), ex_pair 2 (2, 3, 1) 3 (1, 4, 1), ex_pair 3 (1, 4, 1) 4 (2, 4, 2)])
   = Inr [(5, ''P''), (6, ''P'')]"
  by (simp_all add: candidate_step_def isAvailable_def containsMolecule_def initial_state_def
      ex_state_four_def ex_universe_def ex_four_def ex_pair_def ex_A_def ex_template_AA_def
      ex_transitions_def acceptance_def enhance_random_def react_def removeMolecule_def
      addMolecule_def addReactionRecord_def makeMoleculeWhole_def repair_atom_def shift_axis_def
      image_count_def static_cast_int_def binary64_def round_REAL_simps Let_def eval_nat_numeral)

lemma id_name_pairs:
  "(\<exists>m \<in> set ms. mol_id m = a \<and> mol_name m = b)
     = ((a, b) \<in> set (map (\<lambda>m. (mol_id m, mol_name m)) ms))"
  by (induction ms) auto

lemma containsMolecule_pairs:
  "containsMolecule t r \<longleftrightarrow>
     (mol_id r, mol_name r) \<in> set (map (\<lambda>m. (mol_id m, mol_name m)) (data t))"
  unfolding containsMolecule_iff by (rule id_name_pairs)

theorem unavailable_stays_unavailable_witness:
  "containsMolecule (topologyNew (universe ex_state_four)) (ex_A 2 (2, 3, 1))
   \<and> map_sum id (\<lambda>s. containsMolecule (topologyNew (universe s)) (ex_A 2 (2, 3, 1)))
        (candidate_loop binary64 ex_transitions products (\<lambda>_. 2) 1 ex_state_four
           [ex_pair 1 (1, 3, 1) 2 (2, 3, 1)])
      = Inr False
   \<and> map_sum id (\<lambda>s. (containsMolecule (topologyNew (universe s)) (ex_A 2 (2, 3, 1)),
                       isAvailable (universe s) (ex_pair 2 (2, 3, 1) 3 (1, 4, 1))))
        (candidate_loop binary64 ex_transitions products (\<lambda>_. 2) 1 ex_state_four
           [ex_pair 1 (1, 3, 1) 2 (2, 3, 1), ex_pair 2 (2, 3, 1) 3 (1, 4, 1),
            ex_pair 3 (1, 4, 1) 4 (2, 4, 2)])
      = Inr (False, False)"
proof -
  let ?r = "ex_A 2 (2, 3, 1)"
  let ?c12 = "ex_pair 1 (1, 3, 1) 2 (2, 3, 1)"
  let ?c23 = "ex_pair 2 (2, 3, 1) 3 (1, 4, 1)"
  let ?c34 = "ex_pair 3 (1, 4, 1) 4 (2, 4, 2)"
  let ?loop = "candidate_loop binary64 ex_transitions products (\<lambda>_. 2) 1"
  have r: "mol_id ?r = 2" "mol_name ?r = ''A''" by (simp_all add: ex_A_def)
  have h1: "\<forall>c \<in> set ([?c12] @ [?c23, ?c34]). ex_transitions c \<noteq> []"
    by (simp add: ex_transitions_def)
  have h2: "\<forall>x :: ReactionCandidate. length (products x) = length (products x)" by simp
  have c0: "containsMolecule (topologyNew (universe ex_state_four)) ?r"
    by (simp add: containsMolecule_def ex_state_four_def initial_state_def ex_universe_def
        ex_four_def ex_A_def)
  from ex_loop_four(1) obtain s1 where s1: "?loop ex_state_four [?c12] = Inr s1"
    by (cases "?loop ex_state_four [?c12]") auto
  with ex_loop_four(1) have d1: "map (\<lambda>m. (mol_id m, mol_name m)) (data (topologyNew (universe s1)))
      = [(3, ''A''), (4, ''A''), (5, ''P'')]" by simp
  have c1: "\<not> containsMolecule (topologyNew (universe s1)) ?r"
    unfolding containsMolecule_pairs d1 r by simp
  have "?loop ex_state_four ([?c12] @ [?c23, ?c34]) = ?loop s1 [?c23, ?c34]"
    unfolding candidate_loop_append s1 by simp
  with ex_loop_four(2) obtain s2 where s2: "?loop s1 [?c23, ?c34] = Inr s2"
    and s2': "?loop ex_state_four [?c12, ?c23, ?c34] = Inr s2"
    by (cases "?loop s1 [?c23, ?c34]") auto
  have m: "?r \<in> set (reactants ?c23)" by (simp add: ex_pair_def)
  from unavailable_stays_unavailable[OF h1 h2 s1 s2 c0 c1] m
  have "\<not> containsMolecule (topologyNew (universe s2)) ?r" "\<not> isAvailable (universe s2) ?c23"
    by blast+
  with c0 c1 s1 s2' show ?thesis by simp
qed

text \<open>
  A reaction without products lowers the highest id of the new topology, and the next
  product takes an id that was in use before. Over five molecules A: the pair (4, 5)
  reacts to nothing, after which molecule 4 is missing and the candidate (3, 4) is not
  available; then the pair (1, 2) reacts to a molecule named A, which gets the id 4: a
  molecule with the id 4 and the name A is in the new topology again, and the candidate
  (3, 4) is available.
\<close>

theorem unavailable_becomes_available_counterexample:
  "containsMolecule (topologyNew (universe ex_state_five)) (ex_A 4 (2, 4, 2))
   \<and> map_sum id (\<lambda>s. (containsMolecule (topologyNew (universe s)) (ex_A 4 (2, 4, 2)),
                       isAvailable (universe s) (ex_pair 3 (1, 4, 1) 4 (2, 4, 2)),
                       map (\<lambda>m. (mol_id m, mol_name m)) (data (topologyNew (universe s)))))
        (candidate_loop binary64 ex_transitions_vanish products (\<lambda>_. 2) 1 ex_state_five
           [ex_pair 4 (2, 4, 2) 5 (2, 4, 1)])
      = Inr (False, False, [(1, ''A''), (2, ''A''), (3, ''A'')])
   \<and> map_sum id (\<lambda>s. (containsMolecule (topologyNew (universe s)) (ex_A 4 (2, 4, 2)),
                       isAvailable (universe s) (ex_pair 3 (1, 4, 1) 4 (2, 4, 2)),
                       map (\<lambda>m. (mol_id m, mol_name m)) (data (topologyNew (universe s)))))
        (candidate_loop binary64 ex_transitions_vanish products (\<lambda>_. 2) 1 ex_state_five
           [ex_pair 4 (2, 4, 2) 5 (2, 4, 1), ex_pair 1 (1, 3, 1) 2 (2, 3, 1)])
      = Inr (True, True, [(3, ''A''), (4, ''A'')])"
  by (simp add: candidate_step_def isAvailable_def containsMolecule_def initial_state_def
      ex_state_five_def ex_five_def ex_pair_def ex_A_def ex_template_AA_def
      ex_transitions_vanish_def acceptance_def enhance_random_def react_def removeMolecule_def
      addMolecule_def addReactionRecord_def makeMoleculeWhole_def repair_atom_def shift_axis_def
      image_count_def static_cast_int_def binary64_def round_REAL_simps Let_def eval_nat_numeral)

end
